(* ===== verification/Prelude.thy ===== *)
theory Prelude
  imports Complex_Main "HOL-Library.Word" "HOL-Library.Multiset"
begin

text \<open>
  Shared vocabulary of the development: the types that stand for Go's basic types, the
  two ways in which a Go call fails, 64-bit wrap-around, clock arithmetic, the parts of
  package \<^verbatim>\<open>strings\<close> and of the slice and map operations that the load balancer uses, and the
  generic lemmas on them that the component theories share.
\<close>

section \<open>Types and faults\<close>

type_synonym url = string
type_synonym time = int
type_synonym duration = int

text \<open>
  A Go call fails in two ways: it returns a non-nil \<^verbatim>\<open>error\<close>, or it panics (a nil
  dereference, a send on a closed channel, an index out of range).
\<close>

datatype fault = GoError string | GoPanic string

type_synonym 'a result = "fault + 'a"

text \<open>
  Collections of facts: \<open>go_arith\<close> holds the facts that remove wrap-around where a value is
  in range, \<open>go_slice\<close> the facts on slices and maps.
\<close>

named_theorems go_arith
named_theorems go_slice

section \<open>Checked access\<close>

text \<open>
  Go checks every index: \<^verbatim>\<open>xs[i]\<close> and \<^verbatim>\<open>xs[lo:hi]\<close> panic outside of the slice or string. \<open>go_then\<close> continues after a step that did not fail.
\<close>

definition go_then :: "'a result \<Rightarrow> ('a \<Rightarrow> 'b result) \<Rightarrow> 'b result" where
  "go_then x f = (case x of Inl e \<Rightarrow> Inl e | Inr y \<Rightarrow> f y)"

definition go_at :: "'a list \<Rightarrow> nat \<Rightarrow> 'a result" where
  "go_at xs i = (if i < length xs then Inr (xs ! i) else Inl (GoPanic ''index out of range''))"

definition go_range :: "'a list \<Rightarrow> nat \<Rightarrow> nat \<Rightarrow> 'a list result" where
  "go_range xs lo hi =
     (if lo \<le> hi \<and> hi \<le> length xs then Inr (take (hi - lo) (drop lo xs)) else Inl (GoPanic ''slice bounds out of range''))"

lemma go_then_simps [simp]: "go_then (Inl e) f = Inl e" "go_then (Inr x) f = f x"
  by (simp_all add: go_then_def)

lemma go_then_cong [fundef_cong]:
  "x = x' \<Longrightarrow> (\<And>y. x' = Inr y \<Longrightarrow> f y = f' y) \<Longrightarrow> go_then x f = go_then x' f'"
  by (auto simp: go_then_def split: sum.splits)

lemma go_at_ok [simp]: "i < length xs \<Longrightarrow> go_at xs i = Inr (xs ! i)"
  by (simp add: go_at_def)

lemma go_range_ok [simp]: "lo \<le> hi \<Longrightarrow> hi \<le> length xs \<Longrightarrow> go_range xs lo hi = Inr (take (hi - lo) (drop lo xs))"
  by (simp add: go_range_def)

section \<open>64-bit integers and the clock\<close>

text \<open>
  Go's \<^verbatim>\<open>int\<close> and \<^verbatim>\<open>int64\<close> are 64-bit two's complement on the platforms the program is
  built for. A value is an \<open>int\<close>, and every arithmetic result goes through \<open>i64\<close>.
\<close>

definition i64 :: "int \<Rightarrow> int" where
  "i64 x = (x + 2 ^ 63) mod 2 ^ 64 - 2 ^ 63"

definition in_i64 :: "int \<Rightarrow> bool" where
  "in_i64 x \<longleftrightarrow> - (2 ^ 63) \<le> x \<and> x < 2 ^ 63"

text \<open>
  \<^verbatim>\<open>time.Time\<close> is a number of nanoseconds; \<^verbatim>\<open>t.Sub(u)\<close> saturates at the ends of
  \<^verbatim>\<open>time.Duration\<close>, and \<^verbatim>\<open>time.Since(u)\<close> is \<^verbatim>\<open>time.Now().Sub(u)\<close>.
\<close>

definition time_Sub :: "time \<Rightarrow> time \<Rightarrow> duration" where
  "time_Sub t u = max (- (2 ^ 63)) (min (2 ^ 63 - 1) (t - u))"

definition seconds :: "int \<Rightarrow> duration" where
  "seconds n = i64 (n * 1000000000)"

lemma in_i64_i64: "in_i64 (i64 x)"
proof -
  have "0 \<le> (x + 2 ^ 63) mod 2 ^ 64" and "(x + 2 ^ 63) mod 2 ^ 64 < 2 ^ 64"
    by simp_all
  then show ?thesis by (simp add: in_i64_def i64_def)
qed

lemma i64_id [go_arith]: "in_i64 x \<Longrightarrow> i64 x = x"
  by (simp add: i64_def in_i64_def)

lemma i64_idem [simp]: "i64 (i64 x) = i64 x"
  by (simp add: i64_id in_i64_i64)

lemma i64_cong: "i64 x = i64 y \<longleftrightarrow> x mod 2 ^ 64 = y mod 2 ^ 64"
proof
  assume "i64 x = i64 y"
  then have "(x + 2 ^ 63) mod 2 ^ 64 = (y + 2 ^ 63) mod 2 ^ 64"
    by (simp add: i64_def)
  then have "((x + 2 ^ 63) - 2 ^ 63) mod 2 ^ 64 = ((y + 2 ^ 63) - 2 ^ 63) mod (2 ^ 64 :: int)"
    by (rule mod_diff_cong) simp
  then show "x mod 2 ^ 64 = y mod 2 ^ 64" by simp
next
  assume "x mod 2 ^ 64 = y mod 2 ^ 64"
  then have "(x + 2 ^ 63) mod 2 ^ 64 = (y + 2 ^ 63) mod (2 ^ 64 :: int)"
    by (rule mod_add_cong) simp
  then show "i64 x = i64 y" by (simp add: i64_def)
qed

lemma i64_mod: "i64 x mod 2 ^ 64 = x mod 2 ^ 64"
  by (rule i64_cong [THEN iffD1]) (rule i64_idem)

lemma i64_add_left [simp]: "i64 (i64 x + y) = i64 (x + y)"
proof -
  have "(i64 x + y) mod 2 ^ 64 = (x + y) mod 2 ^ 64"
    by (rule mod_add_cong [OF i64_mod refl])
  then show ?thesis by (simp only: i64_cong)
qed

lemma i64_add_right [simp]: "i64 (x + i64 y) = i64 (x + y)"
  using i64_add_left [of y x] by (simp add: add.commute)

lemma i64_diff_left [simp]: "i64 (i64 x - y) = i64 (x - y)"
  using i64_add_left [of x "- y"] by simp

lemma in_i64_nonneg: "0 \<le> x \<Longrightarrow> x < 2 ^ 63 \<Longrightarrow> in_i64 x"
  by (simp add: in_i64_def)

lemma i64_nonneg [go_arith]: "0 \<le> x \<Longrightarrow> x < 2 ^ 63 \<Longrightarrow> i64 x = x"
  by (simp add: i64_id in_i64_nonneg)

lemma time_Sub_le_iff:
  "0 \<le> d \<Longrightarrow> d < 2 ^ 63 - 1 \<Longrightarrow> time_Sub t u \<le> d \<longleftrightarrow> t - u \<le> d"
  unfolding time_Sub_def by auto

lemma time_Sub_mono: "t \<le> t' \<Longrightarrow> time_Sub t u \<le> time_Sub t' u"
  unfolding time_Sub_def by auto

section \<open>Slices and maps\<close>

text \<open>
  \<^verbatim>\<open>xs[len(xs)-n:]\<close>, the last \<open>n\<close> elements, as the ring buffers of the code use it once the
  slice has grown past its bound.
\<close>

definition last_n :: "nat \<Rightarrow> 'a list \<Rightarrow> 'a list" where
  "last_n n xs = (if n < length xs then drop (length xs - n) xs else xs)"

lemma length_last_n [simp, go_slice]: "length (last_n n xs) = min n (length xs)"
  by (simp add: last_n_def)

lemma last_n_suffix [go_slice]: "\<exists>ys. xs = ys @ last_n n xs"
  by (metis append_Nil append_take_drop_id last_n_def)

lemma set_last_n [go_slice]: "set (last_n n xs) \<subseteq> set xs"
  by (simp add: last_n_def set_drop_subset)

lemma last_last_n [go_slice]: "0 < n \<Longrightarrow> xs \<noteq> [] \<Longrightarrow> last (last_n n xs) = last xs"
  by (auto simp: last_n_def)

lemma last_n_append_self: "length ys = n \<Longrightarrow> last_n n (xs @ ys) = ys"
  by (auto simp: last_n_def)

lemma last_n_last_n_snoc: "0 < n \<Longrightarrow> last_n n (last_n n xs @ [x]) = last_n n (xs @ [x])"
  by (auto simp: last_n_def drop_Cons' min_def Suc_diff_le)

text \<open>
  A \<^verbatim>\<open>for k, v := range m\<close> visits every key of the map once, in an order that Go leaves open:
  \<open>range_order m ks\<close> says that \<open>ks\<close> is such an order.
\<close>

definition range_order :: "('k \<rightharpoonup> 'v) \<Rightarrow> 'k list \<Rightarrow> bool" where
  "range_order m ks \<longleftrightarrow> distinct ks \<and> set ks = dom m"

lemma range_order_mset: "range_order m ks \<Longrightarrow> range_order m ks' \<Longrightarrow> mset ks = mset ks'"
  by (metis range_order_def set_eq_iff_mset_eq_distinct)

lemma range_order_sum_list:
  fixes f :: "'k \<Rightarrow> 'a::comm_monoid_add"
  assumes "range_order m ks"
  shows "sum_list (map f ks) = sum f (dom m)"
  using assms by (simp add: range_order_def sum_list_distinct_conv_sum_set)

lemma distinct_concat_map:
  assumes "distinct ks"
  shows "distinct (concat (map f ks)) \<longleftrightarrow>
      (\<forall>k \<in> set ks. distinct (f k))
      \<and> (\<forall>k \<in> set ks. \<forall>k' \<in> set ks. k \<noteq> k' \<longrightarrow> set (f k) \<inter> set (f k') = {})"
  using assms
proof (induction ks)
  case (Cons k ks)
  let ?apart = "\<lambda>i j. set (f i) \<inter> set (f j) = {}"
  have sym: "?apart i j = ?apart j i" for i j by blast
  have k: "(\<forall>j \<in> set ks. k \<noteq> j \<longrightarrow> ?apart k j) = (\<forall>j \<in> set ks. ?apart k j)"
    "(\<forall>j \<in> set ks. j \<noteq> k \<longrightarrow> ?apart j k) = (\<forall>j \<in> set ks. ?apart k j)"
    using Cons.prems by (metis distinct.simps(2) sym)+
  have "distinct (concat (map f (k # ks))) \<longleftrightarrow>
      distinct (f k) \<and> distinct (concat (map f ks)) \<and> (\<forall>j \<in> set ks. ?apart k j)"
    by auto
  also have "\<dots> \<longleftrightarrow> distinct (f k) \<and> (\<forall>k \<in> set ks. distinct (f k))
      \<and> (\<forall>k \<in> set ks. \<forall>k' \<in> set ks. k \<noteq> k' \<longrightarrow> ?apart k k') \<and> (\<forall>j \<in> set ks. ?apart k j)"
    using Cons by simp
  finally show ?case unfolding list.set ball_simps ball_conj_distrib k by auto
qed simp

section \<open>Strings\<close>

text \<open>
  A Go string is a sequence of bytes, and so is an Isabelle \<open>string\<close>. The functions below are
  those of package \<^verbatim>\<open>strings\<close> and \<^verbatim>\<open>strconv\<close>.
\<close>

definition HasPrefix :: "string \<Rightarrow> string \<Rightarrow> bool" where
  "HasPrefix s p \<longleftrightarrow> take (length p) s = p"

definition HasSuffix :: "string \<Rightarrow> string \<Rightarrow> bool" where
  "HasSuffix s p \<longleftrightarrow> length p \<le> length s \<and> drop (length s - length p) s = p"

lemma HasPrefix_iff: "HasPrefix s p \<longleftrightarrow> (\<exists>t. s = p @ t)"
  unfolding HasPrefix_def by (metis append_eq_conv_conj append_take_drop_id)

lemma HasSuffix_iff: "HasSuffix s p \<longleftrightarrow> (\<exists>t. s = t @ p)"
  unfolding HasSuffix_def
  by (metis append_eq_conv_conj append_take_drop_id diff_add_inverse2 le_add2 length_append)

fun nat_digits :: "nat \<Rightarrow> string" where
  "nat_digits n =
     (if n < 10 then [char_of (48 + n)] else nat_digits (n div 10) @ [char_of (48 + n mod 10)])"

declare nat_digits.simps [simp del]

definition Itoa :: "int \<Rightarrow> string" where
  "Itoa i = (if i < 0 then CHR ''-'' # nat_digits (nat (- i)) else nat_digits (nat i))"

fun strings_Join :: "string list \<Rightarrow> string \<Rightarrow> string" where
  "strings_Join [] sep = []"
| "strings_Join [x] sep = x"
| "strings_Join (x # xs) sep = x @ sep @ strings_Join xs sep"

text \<open>\<^verbatim>\<open>%q\<close> of a string without special characters, and the text of an error.\<close>

definition dquoted :: "string \<Rightarrow> string" where
  "dquoted s = CHR 0x22 # s @ [CHR 0x22]"

fun error_text :: "fault \<Rightarrow> string" where
  "error_text (GoError s) = s"
| "error_text (GoPanic s) = s"

end
