(* ===== verification/Breaker.thy ===== *)
theory Breaker
  imports Prelude
begin

text \<open>
  The per-server circuit breaker, \<^verbatim>\<open>src/internal/health/breaker.go\<close>: the three states, the
  record, one definition per method. Every method holds the breaker's mutex from its first to
  its last line, so a method call is one atomic step; the clock reading of a method is an
  argument.
\<close>

section \<open>State and operations\<close>

datatype State = StateClosed | StateOpen | StateHalfOpen

fun State_String :: "State \<Rightarrow> string" where
  "State_String StateClosed = ''CLOSED''"
| "State_String StateOpen = ''OPEN''"
| "State_String StateHalfOpen = ''HALF_OPEN''"

record Breaker =
  br_state :: State
  br_failureCount :: int
  br_threshold :: int
  br_recoveryTimeout :: duration
  br_lastFailureTime :: time

definition NewBreaker :: "int \<Rightarrow> duration \<Rightarrow> Breaker" where
  "NewBreaker threshold recoveryTimeout =
     \<lparr>br_state = StateClosed, br_failureCount = 0, br_threshold = threshold,
      br_recoveryTimeout = recoveryTimeout, br_lastFailureTime = 0\<rparr>"

definition IsOpen :: "time \<Rightarrow> Breaker \<Rightarrow> bool" where
  "IsOpen now b =
     (if br_state b \<noteq> StateOpen then False
      else time_Sub now (br_lastFailureTime b) \<le> br_recoveryTimeout b)"

definition CanSend :: "time \<Rightarrow> Breaker \<Rightarrow> Breaker \<times> bool" where
  "CanSend now b =
     (case br_state b of
        StateClosed \<Rightarrow> (b, True)
      | StateOpen \<Rightarrow>
          (if time_Sub now (br_lastFailureTime b) > br_recoveryTimeout b
           then (b\<lparr>br_state := StateHalfOpen\<rparr>, True)
           else (b, False))
      | StateHalfOpen \<Rightarrow> (b, True))"

definition RecordSuccess :: "Breaker \<Rightarrow> Breaker \<times> bool" where
  "RecordSuccess b =
     (b\<lparr>br_failureCount := 0, br_state := StateClosed\<rparr>, br_state b \<noteq> StateClosed)"

definition RecordFailure :: "time \<Rightarrow> Breaker \<Rightarrow> Breaker" where
  "RecordFailure now b =
     (let b1 = b\<lparr>br_failureCount := i64 (br_failureCount b + 1), br_lastFailureTime := now\<rparr>
      in if br_failureCount b1 \<ge> br_threshold b1 \<or> br_state b1 = StateHalfOpen
         then b1\<lparr>br_state := StateOpen\<rparr> else b1)"

definition Breaker_State :: "Breaker \<Rightarrow> string" where
  "Breaker_State b = State_String (br_state b)"

section \<open>Runs and the history specification\<close>

text \<open>
  A breaker's life is a sequence of calls, in whatever order the goroutines win its mutex.
  \<open>IsOpen\<close> and \<open>State\<close> write nothing, so the calls that matter are the other three.
\<close>

datatype breaker_event = EvCanSend time | EvSuccess | EvFailure time

fun breaker_step :: "Breaker \<Rightarrow> breaker_event \<Rightarrow> Breaker" where
  "breaker_step b (EvCanSend now) = fst (CanSend now b)"
| "breaker_step b EvSuccess = fst (RecordSuccess b)"
| "breaker_step b (EvFailure now) = RecordFailure now b"

definition breaker_run :: "Breaker \<Rightarrow> breaker_event list \<Rightarrow> Breaker" where
  "breaker_run = foldl breaker_step"

text \<open>
  The specification reads the state off the history alone: the failures since the last success,
  the time of the last failure, and whether a request was let through after the recovery
  timeout that began with it.
\<close>

fun is_failure :: "breaker_event \<Rightarrow> bool" where
  "is_failure (EvFailure t) = True"
| "is_failure _ = False"

definition consecutive_failures :: "breaker_event list \<Rightarrow> nat" where
  "consecutive_failures h = length (filter is_failure (takeWhile (\<lambda>e. e \<noteq> EvSuccess) (rev h)))"

definition last_failure :: "breaker_event list \<Rightarrow> time option" where
  "last_failure h =
     (case dropWhile (\<lambda>e. \<not> is_failure e) (rev h) of EvFailure t # _ \<Rightarrow> Some t | _ \<Rightarrow> None)"

fun probes_after :: "duration \<Rightarrow> time \<Rightarrow> breaker_event \<Rightarrow> bool" where
  "probes_after d t (EvCanSend now) = (d < time_Sub now t)"
| "probes_after d t _ = False"

definition probed :: "duration \<Rightarrow> breaker_event list \<Rightarrow> bool" where
  "probed d h =
     (case last_failure h of
        None \<Rightarrow> False
      | Some t \<Rightarrow> list_ex (probes_after d t) (takeWhile (\<lambda>e. \<not> is_failure e) (rev h)))"

definition history_state :: "int \<Rightarrow> duration \<Rightarrow> breaker_event list \<Rightarrow> State" where
  "history_state thr d h =
     (if int (consecutive_failures h) < thr then StateClosed
      else if probed d h then StateHalfOpen else StateOpen)"

lemma consecutive_failures_simps [simp]:
  "consecutive_failures [] = 0"
  "consecutive_failures (h @ [EvSuccess]) = 0"
  "consecutive_failures (h @ [EvFailure t]) = Suc (consecutive_failures h)"
  "consecutive_failures (h @ [EvCanSend t]) = consecutive_failures h"
  by (simp_all add: consecutive_failures_def)

lemma last_failure_simps [simp]:
  "last_failure [] = None"
  "last_failure (h @ [EvSuccess]) = last_failure h"
  "last_failure (h @ [EvFailure t]) = Some t"
  "last_failure (h @ [EvCanSend t]) = last_failure h"
  by (simp_all add: last_failure_def)

lemma probed_simps [simp]:
  "probed d [] = False"
  "probed d (h @ [EvSuccess]) = probed d h"
  "probed d (h @ [EvFailure t]) = False"
  "probed d (h @ [EvCanSend now]) =
     (probed d h \<or> (case last_failure h of None \<Rightarrow> False | Some t \<Rightarrow> d < time_Sub now t))"
  by (auto simp: probed_def split: option.splits)

lemma breaker_run_simps [simp]:
  "breaker_run b [] = b"
  "breaker_run b (h @ [e]) = breaker_step (breaker_run b h) e"
  by (simp_all add: breaker_run_def)

lemmas breaker_defs =
  NewBreaker_def IsOpen_def CanSend_def RecordSuccess_def RecordFailure_def Let_def

lemma consecutive_failures_le: "consecutive_failures h \<le> length h"
proof -
  have "consecutive_failures h \<le> length (takeWhile (\<lambda>e. e \<noteq> EvSuccess) (rev h))"
    by (simp add: consecutive_failures_def)
  also have "\<dots> \<le> length (rev h)" by (rule length_takeWhile_le)
  finally show ?thesis by simp
qed

lemma consecutive_failures_last_failure:
  "0 < consecutive_failures h \<Longrightarrow> \<exists>t. last_failure h = Some t"
proof (induction h rule: rev_induct)
  case (snoc e h)
  then show ?case by (cases e) auto
qed simp

section \<open>The breaker refines the history specification\<close>

definition breaker_sim :: "int \<Rightarrow> duration \<Rightarrow> breaker_event list \<Rightarrow> Breaker \<Rightarrow> bool" where
  "breaker_sim thr d h b \<longleftrightarrow>
     br_threshold b = thr \<and> br_recoveryTimeout b = d
     \<and> br_failureCount b = int (consecutive_failures h)
     \<and> br_state b = history_state thr d h
     \<and> (\<forall>t. last_failure h = Some t \<longrightarrow> br_lastFailureTime b = t)"

lemma breaker_sim_new: "0 < thr \<Longrightarrow> breaker_sim thr d [] (NewBreaker thr d)"
  by (simp add: breaker_sim_def history_state_def NewBreaker_def)

lemma breaker_sim_step:
  assumes sim: "breaker_sim thr d h b" and thr: "0 < thr" and len: "int (length h) + 1 < 2 ^ 63"
  shows "breaker_sim thr d (h @ [e]) (breaker_step b e)"
proof (cases e)
  case (EvCanSend now)
  have "history_state thr d h \<noteq> StateClosed \<Longrightarrow> \<exists>t. last_failure h = Some t"
    using thr by (intro consecutive_failures_last_failure) (auto simp: history_state_def split: if_splits)
  with sim EvCanSend show ?thesis
    by (auto simp: breaker_sim_def history_state_def CanSend_def split: if_splits)
next
  case EvSuccess
  with sim thr show ?thesis
    by (auto simp: breaker_sim_def history_state_def RecordSuccess_def)
next
  case (EvFailure now)
  have "i64 (int (consecutive_failures h) + 1) = int (consecutive_failures h) + 1"
    using consecutive_failures_le [of h] len by (intro i64_nonneg) auto
  with sim EvFailure show ?thesis
    by (auto simp: breaker_sim_def history_state_def RecordFailure_def Let_def split: if_splits)
qed

lemma breaker_sim_run:
  assumes "0 < thr" and "int (length h) < 2 ^ 63"
  shows "breaker_sim thr d h (breaker_run (NewBreaker thr d) h)"
  using assms(2)
proof (induction h rule: rev_induct)
  case Nil
  show ?case using assms(1) by (simp add: breaker_sim_new)
next
  case (snoc e h)
  then have "breaker_sim thr d h (breaker_run (NewBreaker thr d) h)" by simp
  with assms(1) snoc.prems show ?case by (simp add: breaker_sim_step)
qed

text \<open>
  C3. The circuit breaker implements its history specification. For a positive threshold and any
  sequence of fewer than \<open>2 ^ 63\<close> calls on a new breaker, the state it is in is the one that the
  history gives (closed while fewer than \<open>threshold\<close> failures followed the last success, half-open
  once a request was let through after the recovery timeout of the last failure, open otherwise),
  and its failure counter counts the failures since the last success.
\<close>

theorem breaker_refines_history:
  assumes "0 < thr" and "int (length h) < 2 ^ 63"
  shows "br_state (breaker_run (NewBreaker thr d) h) = history_state thr d h
       \<and> br_failureCount (breaker_run (NewBreaker thr d) h) = int (consecutive_failures h)"
  using breaker_sim_run [OF assms, of d] by (simp add: breaker_sim_def)

theorem breaker_refines_history_witness:
  "history_state 2 10 [EvFailure 100, EvFailure 105, EvCanSend 110, EvCanSend 116] = StateHalfOpen
   \<and> br_state (breaker_run (NewBreaker 2 10)
        [EvFailure 100, EvFailure 105, EvCanSend 110, EvCanSend 116]) = StateHalfOpen"
proof -
  let ?h = "[EvFailure 100, EvFailure 105, EvCanSend 110, EvCanSend 116]"
  have h: "history_state 2 10 ?h = StateHalfOpen"
    by (simp add: history_state_def consecutive_failures_def probed_def last_failure_def time_Sub_def)
  have "br_state (breaker_run (NewBreaker 2 10) ?h) = history_state 2 10 ?h"
    using breaker_refines_history [of 2 ?h 10] by simp
  with h show ?thesis by simp
qed

section \<open>The recovery window and the gate interface\<close>

text \<open>
  What the routing code relies on: \<open>is_open\<close> is what it filters candidates with, \<open>can_send\<close> the
  call it makes on the chosen one, some time later.
\<close>

locale send_gate =
  fixes is_open :: "time \<Rightarrow> 'b \<Rightarrow> bool"
    and can_send :: "time \<Rightarrow> 'b \<Rightarrow> 'b \<times> bool"
  assumes agree: "snd (can_send now b) \<longleftrightarrow> \<not> is_open now b"
    and stays_passable: "now \<le> now' \<Longrightarrow> \<not> is_open now b \<Longrightarrow> \<not> is_open now' b"
    and refusal_keeps: "\<not> snd (can_send now b) \<Longrightarrow> fst (can_send now b) = b"
    and admission_keeps: "snd (can_send now b) \<Longrightarrow> \<not> is_open now' (fst (can_send now b))"
begin

lemma filtered_is_admitted: "\<not> is_open t b \<Longrightarrow> t \<le> t' \<Longrightarrow> snd (can_send t' b)"
  using agree stays_passable by blast

lemma admitted_again:
  "snd (can_send now b) \<Longrightarrow> snd (can_send now' (fst (can_send now b)))"
  using agree admission_keeps by blast

end

lemma IsOpen_mono: "now \<le> now' \<Longrightarrow> \<not> IsOpen now b \<Longrightarrow> \<not> IsOpen now' b"
  using time_Sub_mono [of now now' "br_lastFailureTime b"] by (auto simp: IsOpen_def split: if_splits)

interpretation breaker_gate: send_gate IsOpen CanSend
proof unfold_locales
  fix now now' :: time and b :: Breaker
  show "snd (CanSend now b) \<longleftrightarrow> \<not> IsOpen now b"
    by (auto simp: CanSend_def IsOpen_def split: State.splits)
  show "now \<le> now' \<Longrightarrow> \<not> IsOpen now b \<Longrightarrow> \<not> IsOpen now' b"
    by (rule IsOpen_mono)
  show "\<not> snd (CanSend now b) \<Longrightarrow> fst (CanSend now b) = b"
    by (auto simp: CanSend_def split: State.splits if_splits)
  show "snd (CanSend now b) \<Longrightarrow> \<not> IsOpen now' (fst (CanSend now b))"
    by (auto simp: CanSend_def IsOpen_def split: State.splits if_splits)
qed

text \<open>
  C19. The recovery window. Whatever the breaker's state, a failure at time \<open>t\<close> that leaves it
  open blocks it for exactly the recovery timeout: up to \<open>t + timeout\<close> it reads as open, refuses
  to send and does not change; from then on it reads as passable and the first request moves it
  to half-open.
\<close>

theorem failure_blocks_for_timeout:
  assumes "br_state (RecordFailure t b) = StateOpen"
    and "0 \<le> br_recoveryTimeout b" and "br_recoveryTimeout b < 2 ^ 63 - 1"
  shows "if now - t \<le> br_recoveryTimeout b
         then IsOpen now (RecordFailure t b)
            \<and> CanSend now (RecordFailure t b) = (RecordFailure t b, False)
         else \<not> IsOpen now (RecordFailure t b)
            \<and> CanSend now (RecordFailure t b)
              = ((RecordFailure t b)\<lparr>br_state := StateHalfOpen\<rparr>, True)"
proof -
  have "br_lastFailureTime (RecordFailure t b) = t"
    and "br_recoveryTimeout (RecordFailure t b) = br_recoveryTimeout b"
    by (simp_all add: RecordFailure_def Let_def)
  then show ?thesis
    using assms time_Sub_le_iff [OF assms(2,3), of now t] by (auto simp: IsOpen_def CanSend_def)
qed

theorem failure_blocks_for_timeout_witness:
  "IsOpen 15 (RecordFailure 5 (NewBreaker 1 10))
   \<and> snd (CanSend 16 (RecordFailure 5 (NewBreaker 1 10)))"
proof -
  have o: "br_state (RecordFailure 5 (NewBreaker 1 10)) = StateOpen"
    by (simp add: RecordFailure_def NewBreaker_def Let_def i64_def)
  have r: "br_recoveryTimeout (NewBreaker 1 10) = 10" by (simp add: NewBreaker_def)
  show ?thesis
    using failure_blocks_for_timeout [OF o, of 15] failure_blocks_for_timeout [OF o, of 16]
    by (simp add: r)
qed

text \<open>
  The half-open state does not limit probes: once one request has been let through, every
  later request is let through as well, until a result is recorded (the comments of
  \<^verbatim>\<open>breaker.go\<close> say that one test request is allowed).
\<close>

theorem half_open_admits_every_probe:
  assumes "snd (CanSend now b)"
  shows "snd (CanSend now' (breaker_run (fst (CanSend now b)) (map EvCanSend ts)))"
proof -
  have "\<not> IsOpen u (breaker_run (fst (CanSend now b)) (map EvCanSend ts))" for u
  proof (induction ts arbitrary: u rule: rev_induct)
    case Nil
    then show ?case using assms breaker_gate.admission_keeps by simp
  next
    case (snoc t ts)
    then show ?case using breaker_gate.agree breaker_gate.admission_keeps by simp
  qed
  then show ?thesis by (simp add: breaker_gate.agree)
qed

theorem half_open_admits_every_probe_witness:
  "let b = RecordFailure 5 (NewBreaker 1 10)
   in \<not> snd (CanSend 6 b)
      \<and> snd (CanSend 22 (breaker_run (fst (CanSend 20 b)) (map EvCanSend [20, 21])))"
proof -
  let ?b = "RecordFailure 5 (NewBreaker 1 10)"
  have n: "\<not> snd (CanSend 6 ?b)"
    by (simp add: breaker_defs time_Sub_def i64_def)
  have y: "snd (CanSend 20 ?b)"
    by (simp add: breaker_defs time_Sub_def i64_def)
  show ?thesis using n half_open_admits_every_probe [OF y, of 22 "[20, 21]"] by (simp add: Let_def)
qed

end
