(* ===== verification/GoFloat.thy ===== *)
theory GoFloat
  imports Prelude
begin

text \<open>
  Go's \<^verbatim>\<open>float64\<close>. A finite \<^verbatim>\<open>float64\<close> is a rational number, and an operation returns the exact
  result rounded to the nearest representable number, ties to even (IEEE 754 binary64, as on
  amd64, where Go does not fuse multiplications and additions). The functions compute. The values the
  program handles (latencies, weights, rates, back-off times) stay far below the overflow threshold,
  so infinities and NaN are left out.
\<close>

section \<open>Rounding\<close>

type_synonym f64 = rat

text \<open>Round to the nearest integer, ties to even.\<close>

definition round_even :: "rat \<Rightarrow> int" where
  "round_even x =
     (let f = \<lfloor>x\<rfloor>; r = x - of_int f
      in if r < 1 / 2 then f else if r > 1 / 2 then f + 1 else if even f then f else f + 1)"

text \<open>The exponent of the binade of a positive rational: \<open>2 powi ilog2 x \<le> x < 2 powi (ilog2 x + 1)\<close>.\<close>

function int_log2 :: "int \<Rightarrow> nat" where
  "int_log2 n = (if n < 2 then 0 else Suc (int_log2 (n div 2)))"
  by pat_completeness auto
termination
  by (relation "measure nat") auto

declare int_log2.simps [simp del]

definition ilog2 :: "rat \<Rightarrow> int" where
  "ilog2 x =
     (let (n, d) = quotient_of x;
          e = int (int_log2 n) - int (int_log2 d)
      in if 2 powi e \<le> x then e else e - 1)"

text \<open>
  The spacing of the 53-bit numbers around \<open>x\<close> (bounded below by the spacing of the subnormal
  numbers), and rounding to them.
\<close>

definition ulp :: "rat \<Rightarrow> rat" where
  "ulp x = 2 powi (max (ilog2 \<bar>x\<bar>) (- 1022) - 52)"

definition fl :: "rat \<Rightarrow> f64" where
  "fl x = (if x = 0 then 0 else of_int (round_even (x / ulp x)) * ulp x)"

definition fadd :: "f64 \<Rightarrow> f64 \<Rightarrow> f64" where
  "fadd x y = fl (x + y)"

definition fmul :: "f64 \<Rightarrow> f64 \<Rightarrow> f64" where
  "fmul x y = fl (x * y)"

definition fdiv :: "f64 \<Rightarrow> f64 \<Rightarrow> f64" where
  "fdiv x y = fl (x / y)"

definition f64_of_int :: "int \<Rightarrow> f64" where
  "f64_of_int i = fl (of_int i)"

section \<open>The binade of a number\<close>

lemma int_log2_bounds: "0 < n \<Longrightarrow> 2 ^ int_log2 n \<le> n \<and> n < 2 ^ Suc (int_log2 n)"
proof (induction n rule: int_log2.induct)
  case (1 n)
  show ?case
  proof (cases "n < 2")
    case True
    with "1.prems" show ?thesis by (simp add: int_log2.simps [of n])
  next
    case False
    then have "2 ^ int_log2 (n div 2) \<le> n div 2 \<and> n div 2 < 2 ^ Suc (int_log2 (n div 2))"
      using "1.IH" by simp
    with False show ?thesis by (simp add: int_log2.simps [of n]) linarith
  qed
qed

lemma ilog2_bounds:
  assumes "0 < x"
  shows "2 powi ilog2 x \<le> x" and "x < 2 powi (ilog2 x + 1)"
proof -
  obtain n d where q: "quotient_of x = (n, d)" by (cases "quotient_of x")
  then have d: "0 < d" and x: "x = of_int n / of_int d"
    by (simp_all add: quotient_of_denom_pos quotient_of_div)
  with assms have n: "0 < n" by (simp add: zero_less_divide_iff)
  let ?a = "int_log2 n" and ?b = "int_log2 d"
  define e where "e = int ?a - int ?b"
  have N: "2 ^ ?a \<le> n" "n < 2 ^ Suc ?a" and D: "2 ^ ?b \<le> d" "d < 2 ^ Suc ?b"
    using int_log2_bounds [of n] int_log2_bounds [of d] n d by simp_all
  have N': "(2::rat) ^ ?a \<le> of_int n" "of_int n < (2::rat) ^ Suc ?a"
    and D': "(2::rat) ^ ?b \<le> of_int d" "of_int d < (2::rat) ^ Suc ?b"
    using N D by (metis of_int_le_iff of_int_less_iff of_int_power of_int_numeral)+
  have pe: "(2::rat) powi e = 2 ^ ?a / 2 ^ ?b"
    by (simp add: e_def power_int_diff)
  have "x < 2 ^ Suc ?a / 2 ^ ?b"
    unfolding x using N' D' d n by (intro frac_less) auto
  then have up: "x < 2 powi (e + 1)"
    by (simp add: pe power_int_add mult.commute)
  have "2 ^ ?a / 2 ^ Suc ?b \<le> x"
    unfolding x using N' D' d n by (intro frac_le) auto
  then have lo: "2 powi (e - 1) \<le> x"
    by (simp add: pe power_int_diff)
  have il: "ilog2 x = (if 2 powi e \<le> x then e else e - 1)"
    by (simp add: ilog2_def q e_def)
  show "2 powi ilog2 x \<le> x" using lo by (simp add: il)
  show "x < 2 powi (ilog2 x + 1)" using up by (simp add: il)
qed

lemma ilog2_mono:
  assumes "0 < x" and "x \<le> y"
  shows "ilog2 x \<le> ilog2 y"
proof (rule ccontr)
  assume "\<not> ilog2 x \<le> ilog2 y"
  then have "(2::rat) powi (ilog2 y + 1) \<le> 2 powi ilog2 x"
    by (intro power_int_increasing) auto
  with ilog2_bounds [of x] ilog2_bounds [of y] assms show False by linarith
qed

section \<open>Monotonicity and exactness\<close>

lemma round_even_bounds: "of_int (round_even x) \<le> x + 1 / 2 \<and> x - 1 / 2 \<le> of_int (round_even x)"
  unfolding round_even_def Let_def by (auto; linarith)

lemma round_even_of_int [simp]: "round_even (of_int n) = n"
  by (simp add: round_even_def)

lemma round_even_floor: "round_even x = \<lfloor>x\<rfloor> \<or> round_even x = \<lfloor>x\<rfloor> + 1"
  by (simp add: round_even_def Let_def)

lemma round_even_mono:
  assumes "x \<le> y"
  shows "round_even x \<le> round_even y"
proof (cases "\<lfloor>x\<rfloor> = \<lfloor>y\<rfloor>")
  case True
  with assms show ?thesis by (simp add: round_even_def Let_def)
next
  case False
  with assms have "\<lfloor>x\<rfloor> + 1 \<le> \<lfloor>y\<rfloor>" using floor_mono [OF assms] by linarith
  then show ?thesis using round_even_floor [of x] round_even_floor [of y] by linarith
qed

lemma round_even_minus: "round_even (- x) = - round_even x"
proof (cases "x = of_int \<lfloor>x\<rfloor>")
  case True
  then show ?thesis by (metis of_int_minus round_even_of_int)
next
  case False
  then have f: "\<lfloor>- x\<rfloor> = - \<lfloor>x\<rfloor> - 1"
    by (simp add: floor_eq_iff) linarith
  show ?thesis unfolding round_even_def Let_def f by (auto; linarith)
qed

lemma ulp_pos: "0 < ulp x"
  by (simp add: ulp_def)

lemma fl_zero [simp]: "fl 0 = 0"
  by (simp add: fl_def)

lemma fl_minus: "fl (- x) = - fl x"
proof -
  have "ulp (- x) = ulp x" by (simp add: ulp_def)
  then show ?thesis by (simp add: fl_def round_even_minus flip: minus_divide_left)
qed

text \<open>Rounding keeps a positive number within its binade.\<close>

abbreviation binade :: "rat \<Rightarrow> int" where
  "binade x \<equiv> max (ilog2 x) (- 1022)"

lemma ulp_binade: "0 < x \<Longrightarrow> ulp x = 2 powi (binade x - 52)"
  by (simp add: ulp_def)

lemma binade_upper: "0 < x \<Longrightarrow> x < 2 powi (binade x + 1)"
proof -
  assume "0 < x"
  then have "x < 2 powi (ilog2 x + 1)" by (rule ilog2_bounds)
  also have "\<dots> \<le> (2::rat) powi (binade x + 1)" by (intro power_int_increasing) auto
  finally show ?thesis .
qed

lemma binade_mono: "0 < x \<Longrightarrow> x \<le> y \<Longrightarrow> binade x \<le> binade y"
  using ilog2_mono [of x y] by auto

lemma powi_split: "(2::rat) powi (e + int k - 52) = 2 ^ k * 2 powi (e - 52)"
proof -
  have "(2::rat) powi (e + int k - 52) = 2 powi (int k + (e - 52))"
    by (simp add: algebra_simps)
  also have "\<dots> = 2 ^ k * 2 powi (e - 52)" by (subst power_int_add) auto
  finally show ?thesis .
qed

lemma powi_ulps: "(2::rat) powi e = 2 ^ 52 * 2 powi (e - 52)"
  using powi_split [of e 52] by simp

lemma powi_ulps_upper: "(2::rat) powi (e + 1) = 2 ^ 53 * 2 powi (e - 52)"
  using powi_split [of e 53] by (simp add: add.commute)

lemma fl_upper:
  assumes "0 < x"
  shows "fl x \<le> 2 powi (binade x + 1)"
proof -
  have u: "ulp x = 2 powi (binade x - 52)" using assms by (rule ulp_binade)
  have "x / ulp x \<le> 2 ^ 53"
    using binade_upper [OF assms] ulp_pos [of x]
    by (simp add: pos_divide_le_eq u powi_ulps_upper del: power_numeral_even power_numeral_odd)
  then have "round_even (x / ulp x) \<le> round_even (of_int (2 ^ 53))"
    by (intro round_even_mono) simp
  then have "of_int (round_even (x / ulp x)) \<le> (2::rat) ^ 53"
    by (simp only: round_even_of_int) (metis of_int_le_iff of_int_numeral of_int_power)
  then have "fl x \<le> 2 ^ 53 * ulp x"
    using assms ulp_pos [of x] by (simp add: fl_def)
  then show ?thesis by (simp only: u powi_ulps_upper)
qed

lemma fl_lower:
  assumes "0 < x" and "- 1022 \<le> ilog2 x"
  shows "2 powi binade x \<le> fl x"
proof -
  have u: "ulp x = 2 powi (binade x - 52)" using assms(1) by (rule ulp_binade)
  have "2 powi binade x \<le> x" using ilog2_bounds(1) [OF assms(1)] assms(2) by (simp add: max_def)
  then have "2 ^ 52 \<le> x / ulp x"
    using ulp_pos [of x] by (simp only: pos_le_divide_eq u powi_ulps [of "binade x"])
  then have "round_even (of_int (2 ^ 52)) \<le> round_even (x / ulp x)"
    by (intro round_even_mono) simp
  then have "(2::rat) ^ 52 \<le> of_int (round_even (x / ulp x))"
    by (simp only: round_even_of_int) (metis of_int_le_iff of_int_numeral of_int_power)
  then have "2 ^ 52 * ulp x \<le> fl x"
    using assms ulp_pos [of x] by (simp add: fl_def)
  then show ?thesis by (simp only: u powi_ulps [of "binade x"])
qed

lemma fl_nonneg: "0 \<le> x \<Longrightarrow> 0 \<le> fl x"
proof -
  assume "0 \<le> x"
  then have "round_even (of_int 0) \<le> round_even (x / ulp x)"
    using ulp_pos [of x] by (intro round_even_mono) simp
  then have "0 \<le> round_even (x / ulp x)" by (simp only: round_even_of_int)
  then show ?thesis using ulp_pos [of x] by (simp add: fl_def)
qed

lemma fl_mono_pos:
  assumes "0 < x" and "x \<le> y"
  shows "fl x \<le> fl y"
proof (cases "binade x = binade y")
  case True
  then have u: "ulp x = ulp y" using assms by (simp add: ulp_binade)
  have "round_even (x / ulp x) \<le> round_even (y / ulp y)"
    unfolding u using assms ulp_pos [of y] by (intro round_even_mono) (simp add: divide_right_mono)
  then show ?thesis using assms u ulp_pos [of y] by (simp add: fl_def)
next
  case False
  then have lt: "binade x < binade y" using binade_mono [OF assms] by linarith
  have "fl x \<le> 2 powi (binade x + 1)" using assms(1) by (rule fl_upper)
  also have "\<dots> \<le> 2 powi binade y" using lt by (intro power_int_increasing) auto
  also have "\<dots> \<le> fl y" using assms lt by (intro fl_lower) auto
  finally show ?thesis .
qed

theorem fl_mono: "x \<le> y \<Longrightarrow> fl x \<le> fl y"
proof -
  assume le: "x \<le> y"
  consider "0 < x" | "y < 0" | "x \<le> 0" "0 \<le> y" by linarith
  then show ?thesis
  proof cases
    case 1
    then show ?thesis using le by (rule fl_mono_pos)
  next
    case 2
    then have "fl (- y) \<le> fl (- x)" using le by (intro fl_mono_pos) auto
    then show ?thesis by (simp add: fl_minus)
  next
    case 3
    then have "0 \<le> fl (- x)" and "0 \<le> fl y" by (auto intro: fl_nonneg)
    then show ?thesis by (simp add: fl_minus)
  qed
qed

text \<open>A number that is a multiple of its spacing is representable: rounding leaves it alone.\<close>

lemma fl_exact: "x = of_int k * ulp x \<Longrightarrow> fl x = x"
proof -
  assume x: "x = of_int k * ulp x"
  then have "x / ulp x = of_int k" using ulp_pos [of x] by (simp add: divide_eq_eq)
  then show ?thesis using x by (simp add: fl_def)
qed

lemma ilog2_unique:
  assumes "2 powi e \<le> y" and "y < 2 powi (e + 1)"
  shows "ilog2 y = e"
proof -
  have "0 < y" using assms(1) by (rule less_le_trans [rotated]) simp
  note b = ilog2_bounds [OF this]
  have "(2::rat) powi e < 2 powi (ilog2 y + 1)" and "(2::rat) powi ilog2 y < 2 powi (e + 1)"
    using assms b by linarith+
  then have "e < ilog2 y + 1" and "ilog2 y < e + 1"
    using power_int_increasing [of "ilog2 y + 1" e "2::rat"]
      power_int_increasing [of "e + 1" "ilog2 y" "2::rat"] by fastforce+
  then show ?thesis by linarith
qed

lemma fl_idem_pos:
  assumes "0 < x"
  shows "fl (fl x) = fl x"
proof -
  define m where "m = round_even (x / ulp x)"
  have u: "ulp x = 2 powi (binade x - 52)" using assms by (rule ulp_binade)
  have y: "fl x = of_int m * ulp x" using assms by (simp add: fl_def m_def)
  have y0: "0 \<le> fl x" using assms by (simp add: fl_nonneg)
  consider "fl x = 0" | "fl x = 2 powi (binade x + 1)" | "0 < fl x" "fl x < 2 powi (binade x + 1)"
    using y0 fl_upper [OF assms] by linarith
  then show ?thesis
  proof cases
    case 1
    then show ?thesis by simp
  next
    case 2
    have "ilog2 (fl x) = binade x + 1" unfolding 2 by (rule ilog2_unique) (auto intro: power_int_strict_increasing)
    then have "ulp (fl x) = 2 powi (binade x + 1 - 52)" using 2 by (simp add: ulp_def)
    then have "fl x = of_int (2 ^ 52) * ulp (fl x)"
      using powi_ulps [of "binade x + 1"] 2 by simp
    then show ?thesis by (rule fl_exact)
  next
    case 3
    have "binade (fl x) = binade x"
    proof (cases "- 1022 \<le> ilog2 x")
      case True
      then have "ilog2 (fl x) = binade x" using 3 fl_lower [OF assms] by (intro ilog2_unique) auto
      then show ?thesis by simp
    next
      case False
      then have "(2::rat) powi ilog2 (fl x) < 2 powi (- 1021)"
        using 3 ilog2_bounds(1) [OF 3(1)] by (simp add: max_def)
      then have "ilog2 (fl x) < - 1021"
        using power_int_increasing [of "- 1021" "ilog2 (fl x)" "2::rat"] by fastforce
      with False show ?thesis by simp
    qed
    then have "ulp (fl x) = ulp x" using 3 assms by (simp add: ulp_binade)
    then show ?thesis using y by (intro fl_exact [of _ m]) simp
  qed
qed

theorem fl_idem [simp]: "fl (fl x) = fl x"
proof -
  consider "0 < x" | "x = 0" | "0 < - x" by linarith
  then show ?thesis
  proof cases
    case 3
    then have "fl (fl (- x)) = fl (- x)" by (rule fl_idem_pos)
    then show ?thesis by (simp add: fl_minus)
  qed (simp_all add: fl_idem_pos)
qed

text \<open>Integers up to \<open>2 ^ 53\<close> are exact, so the conversions and sums of latencies are.\<close>

lemma fl_of_nat_exact:
  assumes "n \<le> 2 ^ 53"
  shows "fl (of_nat n) = of_nat n"
proof (cases "n = 0 \<or> n = 2 ^ 53")
  case True
  have "ilog2 (2 ^ 53) = 53" by (rule ilog2_unique) (simp_all add: power_int_def)
  then have "ulp (2 ^ 53) = 2" by (simp add: ulp_def)
  then have "fl (2 ^ 53) = 2 ^ 53" by (intro fl_exact [of _ "2 ^ 52"]) simp
  then show ?thesis using True by auto
next
  case False
  let ?x = "of_nat n :: rat"
  have n: "0 < n" "n < 2 ^ 53" using False assms by auto
  then have x: "0 < ?x" by simp
  have "(2::rat) powi ilog2 ?x < 2 powi 53"
  proof -
    have "?x < of_nat (2 ^ 53)" using n(2) by (subst of_nat_less_iff)
    then show ?thesis using ilog2_bounds(1) [OF x] by (simp add: power_int_def)
  qed
  then have hi: "ilog2 ?x < 53" using power_int_increasing [of 53 "ilog2 ?x" "2::rat"] by fastforce
  have "(2::rat) powi 0 < 2 powi (ilog2 ?x + 1)"
    using ilog2_bounds(2) [OF x] n(1) by (simp add: Suc_le_eq [symmetric])
  then have lo: "0 \<le> ilog2 ?x" using power_int_increasing [of "ilog2 ?x + 1" 0 "2::rat"] by fastforce
  define k where "k = nat (52 - ilog2 ?x)"
  then have k: "52 - ilog2 ?x = int k" using hi by simp
  have "ulp ?x = 2 powi (- (52 - ilog2 ?x))" using x lo by (simp add: ulp_binade max_def)
  then have "ulp ?x = 2 powi (- int k)" by (simp only: k)
  then have "?x = of_int (int n * 2 ^ k) * ulp ?x"
    by (simp add: power_int_minus)
  then show ?thesis by (rule fl_exact)
qed

lemma fl_of_int_exact: "\<bar>i\<bar> \<le> 2 ^ 53 \<Longrightarrow> fl (of_int i) = of_int i"
proof (cases "0 \<le> i")
  case True
  moreover assume "\<bar>i\<bar> \<le> 2 ^ 53"
  ultimately have "fl (of_nat (nat i)) = of_nat (nat i)"
    by (intro fl_of_nat_exact) (simp add: nat_le_iff)
  with True show ?thesis by simp
next
  case False
  moreover assume "\<bar>i\<bar> \<le> 2 ^ 53"
  ultimately have "fl (of_nat (nat (- i))) = of_nat (nat (- i))"
    by (intro fl_of_nat_exact) (simp add: nat_le_iff)
  with False show ?thesis by (simp add: fl_minus)
qed

lemma f64_of_int_exact [go_arith]: "\<bar>i\<bar> \<le> 2 ^ 53 \<Longrightarrow> f64_of_int i = of_int i"
  by (simp add: f64_of_int_def fl_of_int_exact)

section \<open>Order properties of the operations\<close>

lemma fadd_mono: "x \<le> x' \<Longrightarrow> y \<le> y' \<Longrightarrow> fadd x y \<le> fadd x' y'"
  by (simp add: fadd_def fl_mono add_mono)

lemma fmul_mono: "x \<le> x' \<Longrightarrow> y \<le> y' \<Longrightarrow> 0 \<le> x' \<Longrightarrow> 0 \<le> y \<Longrightarrow> fmul x y \<le> fmul x' y'"
  by (simp add: fmul_def fl_mono mult_mono)

lemma fdiv_mono: "x \<le> x' \<Longrightarrow> y' \<le> y \<Longrightarrow> 0 \<le> x' \<Longrightarrow> 0 < y' \<Longrightarrow> fdiv x y \<le> fdiv x' y'"
  by (simp add: fdiv_def fl_mono frac_le)

lemma fadd_nonneg: "0 \<le> x \<Longrightarrow> 0 \<le> y \<Longrightarrow> 0 \<le> fadd x y"
  by (simp add: fadd_def fl_nonneg)

lemma fmul_nonneg: "0 \<le> x \<Longrightarrow> 0 \<le> y \<Longrightarrow> 0 \<le> fmul x y"
  by (simp add: fmul_def fl_nonneg)

lemma fdiv_nonneg: "0 \<le> x \<Longrightarrow> 0 \<le> y \<Longrightarrow> 0 \<le> fdiv x y"
  by (simp add: fdiv_def fl_nonneg)

lemma f64_of_int_mono: "i \<le> j \<Longrightarrow> f64_of_int i \<le> f64_of_int j"
  by (simp add: f64_of_int_def fl_mono)

lemma f64_of_int_nonneg: "0 \<le> i \<Longrightarrow> 0 \<le> f64_of_int i"
  by (simp add: f64_of_int_def fl_nonneg)

lemma fadd_ge_left: "fl x = x \<Longrightarrow> 0 \<le> y \<Longrightarrow> x \<le> fadd x y"
  using fl_mono [of x "x + y"] by (simp add: fadd_def)

lemma fl_op_results [simp]:
  "fl (fadd x y) = fadd x y" "fl (fmul x y) = fmul x y" "fl (fdiv x y) = fdiv x y"
  "fl (f64_of_int i) = f64_of_int i"
  by (simp_all add: fadd_def fmul_def fdiv_def f64_of_int_def)

lemma fl_between: "fl a = a \<Longrightarrow> fl b = b \<Longrightarrow> a \<le> x \<Longrightarrow> x \<le> b \<Longrightarrow> a \<le> fl x \<and> fl x \<le> b"
  using fl_mono [of a x] fl_mono [of x b] by simp

text \<open>The rounding error is at most half a spacing.\<close>

lemma fl_error: "\<bar>fl x - x\<bar> \<le> ulp x / 2"
proof (cases "x = 0")
  case True
  then show ?thesis using ulp_pos [of x] by simp
next
  case False
  have "fl x - x = (of_int (round_even (x / ulp x)) - x / ulp x) * ulp x"
    using False ulp_pos [of x] by (simp add: fl_def left_diff_distrib)
  moreover have "\<bar>of_int (round_even (x / ulp x)) - x / ulp x\<bar> \<le> 1 / 2"
    using round_even_bounds [of "x / ulp x"] by linarith
  ultimately show ?thesis
    using ulp_pos [of x] mult_right_mono [of "\<bar>of_int (round_even (x / ulp x)) - x / ulp x\<bar>" "1 / 2" "ulp x"]
    by (simp add: abs_mult)
qed

lemma ulp_le:
  assumes "0 < x" and "x < 2 powi (e + 1)" and "- 1022 \<le> e"
  shows "ulp x \<le> 2 powi (e - 52)"
proof -
  have "(2::rat) powi ilog2 x < 2 powi (e + 1)" using ilog2_bounds(1) [OF assms(1)] assms(2) by linarith
  then have "ilog2 x < e + 1" using power_int_increasing [of "e + 1" "ilog2 x" "2::rat"] by fastforce
  then show ?thesis using assms by (simp add: ulp_binade power_int_increasing)
qed

end
