(* ===== verification/Metrics.thy ===== *)
theory Metrics
  imports GoFloat
begin

text \<open>
  The metrics store, \<^verbatim>\<open>src/internal/metrics/collector.go\<close>: per-server statistics, the circuit-event
  log, the latency window with its average and 95th percentile, the dashboard snapshot. Every
  method runs under the collector's lock, so a method call is one atomic step. A clock reading
  (\<^verbatim>\<open>time.Now()\<close>) is an argument, and so is its \<^verbatim>\<open>"15:04:05"\<close> rendering; where the code ranges over a
  map, the order in which Go visits the keys is an argument too.
\<close>

section \<open>Data\<close>

record CircuitEvent =
  ev_ServerName :: string
  ev_ServerURL :: url
  ev_OldState :: string
  ev_NewState :: string
  ev_Timestamp :: string

record ServerStats =
  ss_Name :: string
  ss_URL :: url
  ss_Weight :: int
  ss_IsHealthy :: bool
  ss_AvgLatencyMs :: f64
  ss_P95LatencyMs :: f64
  ss_ActiveConnections :: int
  ss_TotalRequests :: int
  ss_SuccessCount :: int
  ss_FailureCount :: int
  ss_RetryCount :: int
  ss_CircuitState :: string
  ss_HighPriorityCount :: int
  ss_LowPriorityCount :: int
  ss_LastChecked :: string
  ss_recentLatencies :: "f64 list"

type_synonym stats_map = "url \<rightharpoonup> ServerStats"

record DashboardSnapshot =
  ds_Servers :: stats_map
  ds_GlobalRPS :: f64
  ds_TotalRequests :: int
  ds_SuccessRate :: f64
  ds_HealthyCount :: int
  ds_TotalCount :: int
  ds_Algorithm :: string
  ds_CircuitEvents :: "CircuitEvent list"

record Collector =
  co_servers :: stats_map
  co_lastSnapshotTime :: time
  co_lastTotalRequests :: int
  co_circuitEvents :: "CircuitEvent list"
  co_algorithm :: string

section \<open>Operations\<close>

definition new_stats :: "string \<Rightarrow> url \<Rightarrow> int \<Rightarrow> ServerStats" where
  "new_stats name url weight =
     \<lparr>ss_Name = name, ss_URL = url, ss_Weight = weight, ss_IsHealthy = True,
      ss_AvgLatencyMs = 0, ss_P95LatencyMs = 0, ss_ActiveConnections = 0, ss_TotalRequests = 0,
      ss_SuccessCount = 0, ss_FailureCount = 0, ss_RetryCount = 0, ss_CircuitState = ''CLOSED'',
      ss_HighPriorityCount = 0, ss_LowPriorityCount = 0, ss_LastChecked = [],
      ss_recentLatencies = []\<rparr>"

text \<open>The loop of \<^verbatim>\<open>New\<close>, from index \<open>i\<close> on.\<close>

fun New_loop :: "nat \<Rightarrow> url list \<Rightarrow> string list \<Rightarrow> int list \<Rightarrow> stats_map \<Rightarrow> stats_map" where
  "New_loop i [] names weights m = m"
| "New_loop i (url # urls) names weights m =
     (let name = (if i < length names then names ! i else url);
          weight = (if i < length weights \<and> weights ! i > 0 then weights ! i else 1)
      in New_loop (Suc i) urls names weights (m(url \<mapsto> new_stats name url weight)))"

definition New :: "time \<Rightarrow> url list \<Rightarrow> string list \<Rightarrow> int list \<Rightarrow> Collector" where
  "New now servers names weights =
     \<lparr>co_servers = New_loop 0 servers names weights Map.empty, co_lastSnapshotTime = now,
      co_lastTotalRequests = 0, co_circuitEvents = [], co_algorithm = []\<rparr>"

definition SetAlgorithm :: "string \<Rightarrow> Collector \<Rightarrow> Collector" where
  "SetAlgorithm algo c = c\<lparr>co_algorithm := algo\<rparr>"

text \<open>\<^verbatim>\<open>if s, ok := c.servers[url]; ok { ... }\<close>: the in-place update of the entry of \<open>url\<close>, if any.\<close>

definition on_server :: "url \<Rightarrow> (ServerStats \<Rightarrow> ServerStats) \<Rightarrow> Collector \<Rightarrow> Collector" where
  "on_server url f c =
     (case co_servers c url of
        None \<Rightarrow> c
      | Some s \<Rightarrow> c\<lparr>co_servers := (co_servers c)(url \<mapsto> f s)\<rparr>)"

definition RecordStart :: "url \<Rightarrow> Collector \<Rightarrow> Collector" where
  "RecordStart url =
     on_server url (\<lambda>s. s\<lparr>ss_ActiveConnections := i64 (ss_ActiveConnections s + 1)\<rparr>)"

definition p95_index :: "nat \<Rightarrow> nat" where
  "p95_index n =
     (let idx = \<lceil>fmul (f64_of_int (int n)) (fl (95 / 100))\<rceil> - 1;
          idx = (if idx < 0 then 0 else idx);
          idx = (if idx \<ge> int n then int n - 1 else idx)
      in nat idx)"

definition computeP95 :: "f64 list \<Rightarrow> f64" where
  "computeP95 latencies =
     (let n = length latencies in if n = 0 then 0 else sort latencies ! p95_index n)"

definition mean :: "f64 list \<Rightarrow> f64" where
  "mean latencies = fdiv (foldl fadd 0 latencies) (f64_of_int (int (length latencies)))"

text \<open>The update that \<^verbatim>\<open>RecordEnd\<close> makes to the statistics of the server.\<close>

definition end_stats :: "f64 \<Rightarrow> bool \<Rightarrow> ServerStats \<Rightarrow> ServerStats" where
  "end_stats latencyMs success s =
     (let active = i64 (ss_ActiveConnections s - 1);
          active = (if active < 0 then 0 else active);
          recent = ss_recentLatencies s @ [latencyMs];
          recent = (if length recent > 100 then tl recent else recent);
          s1 = s\<lparr>ss_ActiveConnections := active,
                 ss_TotalRequests := i64 (ss_TotalRequests s + 1),
                 ss_recentLatencies := recent,
                 ss_AvgLatencyMs := mean recent,
                 ss_P95LatencyMs := computeP95 recent\<rparr>
      in if success then s1\<lparr>ss_SuccessCount := i64 (ss_SuccessCount s1 + 1)\<rparr>
         else s1\<lparr>ss_FailureCount := i64 (ss_FailureCount s1 + 1)\<rparr>)"

definition RecordEnd :: "url \<Rightarrow> f64 \<Rightarrow> bool \<Rightarrow> Collector \<Rightarrow> Collector" where
  "RecordEnd url latencyMs success = on_server url (end_stats latencyMs success)"

definition RecordRetry :: "url \<Rightarrow> Collector \<Rightarrow> Collector" where
  "RecordRetry url = on_server url (\<lambda>s. s\<lparr>ss_RetryCount := i64 (ss_RetryCount s + 1)\<rparr>)"

definition SetHealth :: "string \<Rightarrow> url \<Rightarrow> bool \<Rightarrow> Collector \<Rightarrow> Collector" where
  "SetHealth stamp url healthy =
     on_server url (\<lambda>s. s\<lparr>ss_IsHealthy := healthy, ss_LastChecked := stamp\<rparr>)"

definition SetCircuitState :: "string \<Rightarrow> url \<Rightarrow> string \<Rightarrow> Collector \<Rightarrow> Collector" where
  "SetCircuitState stamp url st c =
     (case co_servers c url of
        None \<Rightarrow> c
      | Some s \<Rightarrow>
          (let oldState = ss_CircuitState s;
               c1 = c\<lparr>co_servers := (co_servers c)(url \<mapsto> s\<lparr>ss_CircuitState := st\<rparr>)\<rparr>
           in if oldState \<noteq> st
              then c1\<lparr>co_circuitEvents := last_n 50 (co_circuitEvents c1 @
                        [\<lparr>ev_ServerName = ss_Name s, ev_ServerURL = url, ev_OldState = oldState,
                          ev_NewState = st, ev_Timestamp = stamp\<rparr>])\<rparr>
              else c1))"

definition RecordPriority :: "url \<Rightarrow> string \<Rightarrow> Collector \<Rightarrow> Collector" where
  "RecordPriority url priority =
     on_server url (\<lambda>s. if priority = ''HIGH''
       then s\<lparr>ss_HighPriorityCount := i64 (ss_HighPriorityCount s + 1)\<rparr>
       else s\<lparr>ss_LowPriorityCount := i64 (ss_LowPriorityCount s + 1)\<rparr>)"

definition GetName :: "Collector \<Rightarrow> url \<Rightarrow> string" where
  "GetName c url = (case co_servers c url of Some s \<Rightarrow> ss_Name s | None \<Rightarrow> url)"

definition ClearLatencies :: "url \<Rightarrow> Collector \<Rightarrow> Collector" where
  "ClearLatencies url =
     on_server url (\<lambda>s. s\<lparr>ss_recentLatencies := [], ss_AvgLatencyMs := 0, ss_P95LatencyMs := 0\<rparr>)"

definition Snapshot :: "Collector \<Rightarrow> stats_map" where
  "Snapshot c = co_servers c"

definition import_stats :: "ServerStats \<Rightarrow> ServerStats \<Rightarrow> ServerStats" where
  "import_stats oldStats s =
     s\<lparr>ss_TotalRequests := ss_TotalRequests oldStats, ss_SuccessCount := ss_SuccessCount oldStats,
       ss_FailureCount := ss_FailureCount oldStats, ss_RetryCount := ss_RetryCount oldStats,
       ss_HighPriorityCount := ss_HighPriorityCount oldStats,
       ss_LowPriorityCount := ss_LowPriorityCount oldStats,
       ss_AvgLatencyMs := ss_AvgLatencyMs oldStats, ss_P95LatencyMs := ss_P95LatencyMs oldStats\<rparr>"

fun ImportMetrics :: "url list \<Rightarrow> stats_map \<Rightarrow> Collector \<Rightarrow> Collector" where
  "ImportMetrics [] oldSnap c = c"
| "ImportMetrics (url # ks) oldSnap c =
     (case oldSnap url of
        None \<Rightarrow> ImportMetrics ks oldSnap c
      | Some oldStats \<Rightarrow> ImportMetrics ks oldSnap (on_server url (import_stats oldStats) c))"

text \<open>
  The totals of the dashboard snapshot: the loop over the servers in the order \<open>ks\<close>, with the
  running values of \<^verbatim>\<open>totalReq\<close>, \<^verbatim>\<open>totalOK\<close> and \<^verbatim>\<open>healthyCount\<close>.
\<close>

fun snap_totals :: "url list \<Rightarrow> stats_map \<Rightarrow> int \<times> int \<times> int \<Rightarrow> int \<times> int \<times> int" where
  "snap_totals [] m acc = acc"
| "snap_totals (url # ks) m (totalReq, totalOK, healthy) =
     (case m url of
        None \<Rightarrow> snap_totals ks m (totalReq, totalOK, healthy)
      | Some s \<Rightarrow> snap_totals ks m
          (i64 (totalReq + ss_TotalRequests s), i64 (totalOK + ss_SuccessCount s),
           if ss_IsHealthy s then healthy + 1 else healthy))"

text \<open>Go's division of integers truncates, and \<^verbatim>\<open>d.Seconds()\<close> adds whole seconds and the fraction.\<close>

definition go_quot :: "int \<Rightarrow> int \<Rightarrow> int" where
  "go_quot a b = sgn a * sgn b * (\<bar>a\<bar> div \<bar>b\<bar>)"

definition duration_Seconds :: "duration \<Rightarrow> f64" where
  "duration_Seconds d =
     (let sec = go_quot d 1000000000; nsec = d - sec * 1000000000
      in fadd (f64_of_int sec) (fdiv (f64_of_int nsec) 1000000000))"

definition success_rate :: "int \<Rightarrow> int \<Rightarrow> f64" where
  "success_rate totalOK totalReq =
     (if totalReq > 0 then fmul (fdiv (f64_of_int totalOK) (f64_of_int totalReq)) 100 else 0)"

definition DashboardSnap :: "time \<Rightarrow> url list \<Rightarrow> Collector \<Rightarrow> Collector \<times> DashboardSnapshot" where
  "DashboardSnap now ks c =
     (let (totalReq, totalOK, healthyCount) = snap_totals ks (co_servers c) (0, 0, 0);
          elapsed = duration_Seconds (time_Sub now (co_lastSnapshotTime c));
          rps = (if elapsed > 0
                 then fdiv (f64_of_int (i64 (totalReq - co_lastTotalRequests c))) elapsed else 0)
      in (c\<lparr>co_lastSnapshotTime := now, co_lastTotalRequests := totalReq\<rparr>,
          \<lparr>ds_Servers = co_servers c, ds_GlobalRPS = rps, ds_TotalRequests = totalReq,
           ds_SuccessRate = success_rate totalOK totalReq, ds_HealthyCount = healthyCount,
           ds_TotalCount = int (length ks), ds_Algorithm = co_algorithm c,
           ds_CircuitEvents = co_circuitEvents c\<rparr>))"

definition CircuitEvents :: "Collector \<Rightarrow> CircuitEvent list" where
  "CircuitEvents c = co_circuitEvents c"

section \<open>The 95th percentile\<close>

lemma fl_095: "fl (95 / 100) = 8556839292003942 / 9007199254740992"
  by code_simp

text \<open>
  The index is computed in floating point, with a constant that is not \<open>0.95\<close>; for the sizes the
  window can have it is nevertheless the exact ceiling.
\<close>

lemma p95_index_eq:
  assumes "0 < n" and "n \<le> 100"
  shows "p95_index n = (95 * n + 99) div 100 - 1"
proof -
  define m where "m = (95 * int n + 99) div 100"
  define x :: rat where "x = of_nat n * (8556839292003942 / 9007199254740992)"
  have d: "100 * m \<le> 95 * int n + 99" "95 * int n \<le> 100 * m" by (simp_all add: m_def)
  define z where "z = 20 * m - 19 * int n - 19"
  have "5 * z \<le> 4" using d(1) by (simp add: z_def)
  then have "z \<le> 0" by simp
  then have m: "100 * (m - 1) + 5 \<le> 95 * int n" by (simp add: z_def)
  have m1: "1 \<le> m" using d(2) assms(1) by linarith
  have mn: "m \<le> int n"
  proof (rule ccontr)
    assume "\<not> m \<le> int n"
    then have "int n + 1 \<le> m" by simp
    then have "100 * int n + 100 \<le> 100 * m" by simp
    with m have "5 * int n \<le> - 5" by simp
    then show False by simp
  qed
  have n: "1 \<le> (of_nat n :: rat)" "(of_nat n :: rat) \<le> 100" using assms by auto
  have "of_int (100 * (m - 1) + 5) \<le> (of_int (95 * int n) :: rat)"
    and "of_int (95 * int n) \<le> (of_int (100 * m) :: rat)"
    using m d(2) by (simp_all only: of_int_le_iff)
  then have mr: "100 * (of_int m - 1) + 5 \<le> (95::rat) * of_nat n"
    "(95::rat) * of_nat n \<le> 100 * of_int m"
    by (simp_all add: right_diff_distrib)
  have x0: "0 < x" and x7: "x < 2 powi (6 + 1)" using n by (simp_all add: x_def power_int_def)
  have xu: "x \<le> of_int m" and xl: "of_int m - 1 + 1 / 25 \<le> x" using n mr by (simp_all add: x_def)
  have "fl x \<le> fl (of_int m)" using xu by (rule fl_mono)
  also have "\<dots> = of_int m" using m1 mn assms by (intro fl_of_int_exact) simp
  finally have up: "fl x \<le> of_int m" .
  have "ulp x \<le> 2 powi (6 - 52)" using x0 x7 by (rule ulp_le) simp
  then have "ulp x \<le> 1 / 50" by (simp add: power_int_def power_one_over)
  then have lo: "of_int m - 1 < fl x" using fl_error [of x] xl ulp_pos [of x] by linarith
  have c: "\<lceil>fl x\<rceil> = m" using up lo by (simp add: ceiling_eq_iff)
  have "fmul (f64_of_int (int n)) (fl (95 / 100)) = fl x"
    using assms by (simp only: fmul_def fl_095 x_def) (simp add: f64_of_int_exact)
  then have "p95_index n = nat (m - 1)" using c m1 mn by (simp add: p95_index_def Let_def)
  then show ?thesis by (simp add: m_def nat_diff_distrib nat_div_distrib nat_add_distrib nat_mult_distrib)
qed

lemma sorted_nth_filter_le:
  assumes "sorted ys" and "i < length ys"
  shows "i < length (filter (\<lambda>x. x \<le> ys ! i) ys)"
proof -
  have "filter (\<lambda>x. x \<le> ys ! i) (take (Suc i) ys) = take (Suc i) ys"
    using assms by (auto simp: filter_id_conv in_set_conv_nth sorted_nth_mono)
  then have "filter (\<lambda>x. x \<le> ys ! i) ys = take (Suc i) ys @ filter (\<lambda>x. x \<le> ys ! i) (drop (Suc i) ys)"
    by (metis append_take_drop_id filter_append)
  then show ?thesis using assms(2) by simp
qed

lemma sorted_nth_filter_less:
  assumes "sorted ys" and "i < length ys"
  shows "length (filter (\<lambda>x. x < ys ! i) ys) \<le> i"
proof -
  have "filter (\<lambda>x. x < ys ! i) (drop i ys) = []"
    using assms by (auto simp: filter_empty_conv in_set_conv_nth sorted_nth_mono leD)
  then have "filter (\<lambda>x. x < ys ! i) ys = filter (\<lambda>x. x < ys ! i) (take i ys)"
    by (metis append_Nil2 append_take_drop_id filter_append)
  then show ?thesis using assms(2) by (metis length_filter_le length_take min.absorb4)
qed

lemma length_filter_sort: "length (filter P (sort xs)) = length (filter P xs)"
  by (metis mset_filter mset_sort size_mset)

text \<open>
  The reported P95 is a nearest-rank 95th percentile. For every window that the collector can
  hold (1 to 100 samples) the value is one of the samples, at least 95 in 100 samples do not exceed it, and
  fewer than 95 in 100 are below it, although the rank is computed in floating point.
\<close>

theorem computeP95_nearest_rank:
  assumes "xs \<noteq> []" and "length xs \<le> 100"
  shows "computeP95 xs \<in> set xs
       \<and> 95 * length xs \<le> 100 * length (filter (\<lambda>x. x \<le> computeP95 xs) xs)
       \<and> 100 * length (filter (\<lambda>x. x < computeP95 xs) xs) < 95 * length xs"
proof -
  let ?n = "length xs" and ?ys = "sort xs"
  define i where "i = p95_index ?n"
  have i: "i = (95 * ?n + 99) div 100 - 1" using assms by (simp add: i_def p95_index_eq)
  then have il: "i < length ?ys" using assms by (cases xs) auto
  have v: "computeP95 xs = ?ys ! i" using assms by (simp add: computeP95_def i_def Let_def)
  have "?ys ! i \<in> set xs" using il by (metis nth_mem set_sort)
  moreover have "i < length (filter (\<lambda>x. x \<le> ?ys ! i) xs)"
    using sorted_nth_filter_le [of ?ys i] il by (simp add: length_filter_sort)
  moreover have "length (filter (\<lambda>x. x < ?ys ! i) xs) \<le> i"
    using sorted_nth_filter_less [of ?ys i] il by (simp add: length_filter_sort)
  moreover have "95 * ?n \<le> 100 * Suc i" and "100 * i < 95 * ?n"
  proof -
    define q where "q = (95 * ?n + 99) div 100"
    have "100 * q \<le> 95 * ?n + 99" and "95 * ?n + 99 < 100 * q + 100" by (simp_all add: q_def)
    moreover have "0 < ?n" using assms(1) by simp
    ultimately have "1 \<le> q" by linarith
    then have "q = Suc i" by (simp add: i q_def)
    then show "95 * ?n \<le> 100 * Suc i"
      using \<open>95 * ?n + 99 < 100 * q + 100\<close> by simp
    show "100 * i < 95 * ?n"
      using \<open>q = Suc i\<close> \<open>100 * q \<le> 95 * ?n + 99\<close> by simp
  qed
  ultimately show ?thesis unfolding v by auto
qed

theorem computeP95_nearest_rank_witness:
  "computeP95 [30, 10, 20] = 30 \<and> 95 * 3 \<le> 100 * length (filter (\<lambda>x. x \<le> computeP95 [30, 10, 20]) [30, 10, 20])"
proof -
  have i: "p95_index 3 = 2" by (simp add: p95_index_eq)
  have "computeP95 [30, 10, 20] = 30" by (simp add: computeP95_def Let_def i [simplified numeral_3_eq_3])
  then show ?thesis using computeP95_nearest_rank [of "[30, 10, 20]"] by simp
qed

section \<open>The collector as a state machine\<close>

text \<open>
  The calls that write to a collector, in whatever order the goroutines win its lock. The arguments
  of \<open>OpDashboardSnap\<close> are the clock reading and the order in which the loop visits the servers; those of
  \<open>OpImport\<close> the old snapshot and the order in which it is visited.
\<close>

datatype collector_op =
    OpSetAlgorithm string
  | OpRecordStart url
  | OpRecordEnd url f64 bool
  | OpRecordRetry url
  | OpSetHealth string url bool
  | OpSetCircuitState string url string
  | OpRecordPriority url string
  | OpClearLatencies url
  | OpDashboardSnap time "url list"

fun collector_step :: "Collector \<Rightarrow> collector_op \<Rightarrow> Collector" where
  "collector_step c (OpSetAlgorithm a) = SetAlgorithm a c"
| "collector_step c (OpRecordStart u) = RecordStart u c"
| "collector_step c (OpRecordEnd u l ok) = RecordEnd u l ok c"
| "collector_step c (OpRecordRetry u) = RecordRetry u c"
| "collector_step c (OpSetHealth t u h) = SetHealth t u h c"
| "collector_step c (OpSetCircuitState t u st) = SetCircuitState t u st c"
| "collector_step c (OpRecordPriority u p) = RecordPriority u p c"
| "collector_step c (OpClearLatencies u) = ClearLatencies u c"
| "collector_step c (OpDashboardSnap now ks) = fst (DashboardSnap now ks c)"

definition collector_run :: "Collector \<Rightarrow> collector_op list \<Rightarrow> Collector" where
  "collector_run = foldl collector_step"

text \<open>
  A collector is reachable when it comes from \<^verbatim>\<open>New\<close> by such calls and by imports from the snapshots of
  reachable collectors, as hot reloads make them.
\<close>

inductive collector_reachable :: "Collector \<Rightarrow> bool" where
  reach_new: "collector_reachable (New now urls names weights)"
| reach_step: "collector_reachable c \<Longrightarrow> collector_reachable (collector_step c e)"
| reach_import: "collector_reachable c \<Longrightarrow> collector_reachable old \<Longrightarrow>
    collector_reachable (ImportMetrics ks (Snapshot old) c)"

lemmas collector_op_defs =
  SetAlgorithm_def RecordStart_def RecordEnd_def RecordRetry_def SetHealth_def RecordPriority_def
  ClearLatencies_def

lemma collector_run_simps [simp]:
  "collector_run c [] = c"
  "collector_run c (h @ [e]) = collector_step (collector_run c h) e"
  by (simp_all add: collector_run_def)

lemma DashboardSnap_fst [simp]:
  "co_servers (fst (DashboardSnap now ks c)) = co_servers c"
  "co_circuitEvents (fst (DashboardSnap now ks c)) = co_circuitEvents c"
  "co_algorithm (fst (DashboardSnap now ks c)) = co_algorithm c"
  by (simp_all add: DashboardSnap_def Let_def split: prod.splits)

lemma co_servers_on_server:
  "co_servers (on_server u f c) v = (if v = u then map_option f (co_servers c u) else co_servers c v)"
  by (simp add: on_server_def split: option.splits)

lemma on_server_frame [simp]:
  "co_circuitEvents (on_server u f c) = co_circuitEvents c"
  "co_algorithm (on_server u f c) = co_algorithm c"
  "co_lastSnapshotTime (on_server u f c) = co_lastSnapshotTime c"
  "co_lastTotalRequests (on_server u f c) = co_lastTotalRequests c"
  by (simp_all add: on_server_def split: option.splits)

lemma dom_on_server [simp]: "dom (co_servers (on_server u f c)) = dom (co_servers c)"
  by (auto simp: co_servers_on_server dom_def split: if_splits)

text \<open>A property of every entry is kept by an update that keeps it at the updated entry.\<close>

definition all_stats :: "(url \<Rightarrow> ServerStats \<Rightarrow> bool) \<Rightarrow> Collector \<Rightarrow> bool" where
  "all_stats P c \<longleftrightarrow> (\<forall>u s. co_servers c u = Some s \<longrightarrow> P u s)"

lemma all_stats_on_server:
  "all_stats P c \<Longrightarrow> (\<And>s. co_servers c u = Some s \<Longrightarrow> P u s \<Longrightarrow> P u (f s)) \<Longrightarrow> all_stats P (on_server u f c)"
  by (auto simp: all_stats_def co_servers_on_server split: if_splits)

lemma all_stats_SetCircuitState:
  assumes "all_stats P c" and "\<And>s. P u s \<Longrightarrow> P u (s\<lparr>ss_CircuitState := st\<rparr>)"
  shows "all_stats P (SetCircuitState t u st c)"
  using assms by (auto simp: all_stats_def SetCircuitState_def Let_def split: option.splits if_splits)

lemma all_stats_ImportMetrics:
  assumes "all_stats P c" and "\<And>u s. old u = Some s \<Longrightarrow> P u s"
    and "\<And>u s s'. P u s \<Longrightarrow> P u s' \<Longrightarrow> P u (import_stats s s')"
  shows "all_stats P (ImportMetrics ks old c)"
  using assms(1)
proof (induction ks arbitrary: c)
  case (Cons u ks)
  show ?case
  proof (cases "old u")
    case None
    with Cons show ?thesis by simp
  next
    case (Some s)
    have "all_stats P (on_server u (import_stats s) c)"
      using Cons.prems assms(2,3) Some by (auto intro: all_stats_on_server)
    with Cons.IH Some show ?thesis by simp
  qed
qed simp

lemma all_stats_New_loop:
  assumes "\<And>u s. m u = Some s \<Longrightarrow> P u s" and "\<And>name u w. 0 < w \<Longrightarrow> P u (new_stats name u w)"
    and "New_loop i urls names weights m u = Some s"
  shows "P u s"
  using assms(1,3)
proof (induction i urls names weights m rule: New_loop.induct)
  case (2 i url urls names weights m)
  show ?case
    by (rule "2.IH" [OF refl refl _ "2.prems"(2) [simplified Let_def New_loop.simps]])
      (auto intro: "2.prems"(1) assms(2) split: if_splits)
qed auto

section \<open>Invariants of the statistics\<close>

definition stats_ok :: "url \<Rightarrow> ServerStats \<Rightarrow> bool" where
  "stats_ok u s \<longleftrightarrow>
     ss_URL s = u \<and> 0 < ss_Weight s
     \<and> ss_TotalRequests s = i64 (ss_SuccessCount s + ss_FailureCount s)
     \<and> length (ss_recentLatencies s) \<le> 100"

lemma stats_ok_end_stats: "stats_ok u s \<Longrightarrow> stats_ok u (end_stats l ok s)"
  by (auto simp: stats_ok_def end_stats_def Let_def algebra_simps)

lemma stats_ok_step: "all_stats stats_ok c \<Longrightarrow> all_stats stats_ok (collector_step c e)"
proof (cases e)
  case (OpSetCircuitState t u st)
  moreover assume "all_stats stats_ok c"
  ultimately show ?thesis by (auto simp: stats_ok_def intro: all_stats_SetCircuitState)
next
  case (OpRecordEnd u l ok)
  moreover assume "all_stats stats_ok c"
  ultimately show ?thesis
    by (auto simp: RecordEnd_def stats_ok_end_stats intro: all_stats_on_server)
qed (auto simp: collector_op_defs intro!: all_stats_on_server, auto simp: stats_ok_def all_stats_def)

lemma all_stats_New:
  "(\<And>name u w. 0 < w \<Longrightarrow> P u (new_stats name u w)) \<Longrightarrow> all_stats P (New now urls names weights)"
  unfolding all_stats_def New_def by (auto elim: all_stats_New_loop [rotated 2])

lemma collector_reachable_stats_ok: "collector_reachable c \<Longrightarrow> all_stats stats_ok c"
proof (induction rule: collector_reachable.induct)
  case (reach_new now urls names weights)
  show ?case by (rule all_stats_New) (simp add: stats_ok_def new_stats_def i64_def)
next
  case (reach_step c e)
  then show ?case by (simp add: stats_ok_step)
next
  case (reach_import c old ks)
  then show ?case
    by (intro all_stats_ImportMetrics) (auto simp: stats_ok_def import_stats_def Snapshot_def all_stats_def)
qed

text \<open>
  C21. In every collector that the program can reach, by any interleaving of calls and any number of
  metric imports, each entry is filed under its own URL, has a positive weight and at most 100
  latency samples, and its request total is the sum of its successes and failures (as 64-bit
  integers).
\<close>

theorem reachable_stats_consistent:
  assumes "collector_reachable c" and "co_servers c u = Some s"
  shows "ss_URL s = u \<and> 0 < ss_Weight s \<and> length (ss_recentLatencies s) \<le> 100
       \<and> ss_TotalRequests s = i64 (ss_SuccessCount s + ss_FailureCount s)"
  using collector_reachable_stats_ok [OF assms(1)] assms(2) by (auto simp: all_stats_def stats_ok_def)

theorem reachable_stats_consistent_witness:
  "\<exists>s. co_servers (RecordEnd ''a'' 5 False (New 0 [''a''] [] [0])) ''a'' = Some s
     \<and> ss_TotalRequests s = i64 (ss_SuccessCount s + ss_FailureCount s) \<and> ss_FailureCount s = 1"
proof -
  let ?c = "RecordEnd ''a'' 5 False (New 0 [''a''] [] [0])"
  have r: "collector_reachable ?c"
    using reach_step [OF reach_new, of 0 "[''a'']" "[]" "[0]" "OpRecordEnd ''a'' 5 False"] by simp
  obtain s where s: "co_servers ?c ''a'' = Some s" and f: "ss_FailureCount s = 1"
    by (simp add: RecordEnd_def co_servers_on_server New_def end_stats_def new_stats_def Let_def i64_def)
  from reachable_stats_consistent [OF r s] s f show ?thesis by auto
qed

section \<open>Counting requests\<close>

definition starts :: "url \<Rightarrow> collector_op list \<Rightarrow> nat" where
  "starts u h = length (filter (\<lambda>e. e = OpRecordStart u) h)"

fun is_end :: "url \<Rightarrow> bool \<Rightarrow> collector_op \<Rightarrow> bool" where
  "is_end u ok (OpRecordEnd v l b) = (u = v \<and> ok = b)"
| "is_end u ok _ = False"

definition ends :: "url \<Rightarrow> bool \<Rightarrow> collector_op list \<Rightarrow> nat" where
  "ends u ok h = length (filter (is_end u ok) h)"

lemma starts_ends_simps [simp]:
  "starts u [] = 0" "ends u ok [] = 0"
  "starts u (h @ [e]) = starts u h + (if e = OpRecordStart u then 1 else 0)"
  "ends u ok (h @ [e]) = ends u ok h + (if is_end u ok e then 1 else 0)"
  by (simp_all add: starts_def ends_def)

lemma starts_ends_le: "starts u h \<le> length h" "ends u True h + ends u False h \<le> length h"
proof -
  show "starts u h \<le> length h" by (simp add: starts_def)
  show "ends u True h + ends u False h \<le> length h"
  proof (induction h rule: rev_induct)
    case (snoc e h)
    have "\<not> (is_end u True e \<and> is_end u False e)" by (cases e) auto
    with snoc show ?case by auto
  qed simp
qed

definition counts_ok :: "url \<Rightarrow> collector_op list \<Rightarrow> ServerStats \<Rightarrow> bool" where
  "counts_ok u h s \<longleftrightarrow>
     ss_ActiveConnections s = int (starts u h) - int (ends u True h + ends u False h)
     \<and> ss_TotalRequests s = int (ends u True h + ends u False h)
     \<and> ss_SuccessCount s = int (ends u True h) \<and> ss_FailureCount s = int (ends u False h)"

lemma counts_ok_cong:
  "ss_ActiveConnections s' = ss_ActiveConnections s \<Longrightarrow> ss_TotalRequests s' = ss_TotalRequests s \<Longrightarrow>
   ss_SuccessCount s' = ss_SuccessCount s \<Longrightarrow> ss_FailureCount s' = ss_FailureCount s \<Longrightarrow>
   starts u h' = starts u h \<Longrightarrow> ends u True h' = ends u True h \<Longrightarrow> ends u False h' = ends u False h \<Longrightarrow>
   counts_ok u h s \<Longrightarrow> counts_ok u h' s'"
  by (simp add: counts_ok_def)

text \<open>What one call does to the entry of \<open>u\<close>: either it is not about the counters, or it starts or ends a request.\<close>

lemma co_servers_SetCircuitState:
  "co_servers (SetCircuitState t v st c) u =
     (if u = v then map_option (\<lambda>s. s\<lparr>ss_CircuitState := st\<rparr>) (co_servers c u) else co_servers c u)"
  by (auto simp: SetCircuitState_def Let_def split: option.splits)

lemmas co_servers_simps = co_servers_on_server co_servers_SetCircuitState

lemma counts_ok_end_stats:
  assumes "counts_ok u h s" and "int (length h) + 1 < 2 ^ 63"
    and "ends u True h + ends u False h < starts u h"
  shows "counts_ok u (h @ [OpRecordEnd u l ok]) (end_stats l ok s)"
  using assms starts_ends_le [of u h]
  by (auto simp: counts_ok_def end_stats_def Let_def i64_nonneg)

lemma counts_ok_step:
  assumes s: "co_servers c u = Some s" "counts_ok u h s" and len: "int (length h) + 1 < 2 ^ 63"
    and bal: "\<And>l ok. e = OpRecordEnd u l ok \<Longrightarrow> ends u True h + ends u False h < starts u h"
  shows "\<exists>s'. co_servers (collector_step c e) u = Some s' \<and> counts_ok u (h @ [e]) s'"
proof (cases e)
  case (OpRecordStart v)
  with s len starts_ends_le [of u h] show ?thesis
    by (auto simp: RecordStart_def co_servers_simps counts_ok_def i64_id in_i64_def)
next
  case (OpRecordEnd v l ok)
  show ?thesis
  proof (cases "u = v")
    case True
    then have "counts_ok u (h @ [e]) (end_stats l ok s)"
      using OpRecordEnd s len bal by (simp add: counts_ok_end_stats)
    with True OpRecordEnd s show ?thesis by (simp add: RecordEnd_def co_servers_simps)
  next
    case False
    with OpRecordEnd s show ?thesis
      by (auto simp: RecordEnd_def co_servers_simps counts_ok_def)
  qed
next
  case (OpRecordPriority v pri)
  with s show ?thesis
    by (cases "pri = ''HIGH''") (auto simp: RecordPriority_def co_servers_simps counts_ok_def)
qed (use s in \<open>auto simp: collector_op_defs co_servers_simps counts_ok_def\<close>)

lemma counts_ok_run:
  assumes "co_servers c u = Some s" and "counts_ok u [] s" and "int (length h) < 2 ^ 63"
    and "\<And>k. ends u True (take k h) + ends u False (take k h) \<le> starts u (take k h)"
  shows "\<exists>s'. co_servers (collector_run c h) u = Some s' \<and> counts_ok u h s'"
  using assms(3,4)
proof (induction h rule: rev_induct)
  case Nil
  then show ?case using assms(1,2) by auto
next
  case (snoc e h)
  have pre: "ends u True (take k h) + ends u False (take k h) \<le> starts u (take k h)" for k
    using snoc.prems(2) [of "min k (length h)"] by (simp add: min_def split: if_splits)
  obtain s' where s': "co_servers (collector_run c h) u = Some s'" "counts_ok u h s'"
    using snoc.IH snoc.prems(1) pre by auto
  have bal: "ends u True h + ends u False h < starts u h" if "e = OpRecordEnd u l ok" for l ok
    using snoc.prems(2) [of "Suc (length h)"] that by (cases ok) auto
  show ?case using counts_ok_step [OF s' _ bal] snoc.prems(1) by auto
qed

text \<open>
  C20. The counters of a server count its requests. From a new collector, after any interleaving of
  calls in which no prefix ends more requests on the server than it started, the number of active
  connections is the number of requests started and not ended (so it is never negative), and the
  totals are the numbers of requests ended, ended with success and ended with failure.
\<close>

theorem counters_count_requests:
  assumes "co_servers (New now urls names weights) u \<noteq> None" and "int (length h) < 2 ^ 63"
    and "\<And>k. ends u True (take k h) + ends u False (take k h) \<le> starts u (take k h)"
  shows "\<exists>s. co_servers (collector_run (New now urls names weights) h) u = Some s
       \<and> ss_ActiveConnections s = int (starts u h) - int (ends u True h + ends u False h)
       \<and> ss_TotalRequests s = int (ends u True h + ends u False h)
       \<and> ss_SuccessCount s = int (ends u True h) \<and> ss_FailureCount s = int (ends u False h)"
proof -
  obtain s where s: "co_servers (New now urls names weights) u = Some s" using assms(1) by auto
  have "all_stats (\<lambda>u. counts_ok u []) (New now urls names weights)"
    by (rule all_stats_New) (simp add: counts_ok_def new_stats_def)
  with s have "counts_ok u [] s" by (simp add: all_stats_def)
  from counts_ok_run [OF s this assms(2,3)] show ?thesis by (simp add: counts_ok_def)
qed

theorem counters_count_requests_witness:
  "\<exists>s. co_servers (collector_run (New 0 [''a'', ''b''] [] [])
         [OpRecordStart ''a'', OpRecordStart ''a'', OpRecordStart ''b'', OpRecordEnd ''a'' 7 True]) ''a'' = Some s
     \<and> ss_ActiveConnections s = 1 \<and> ss_SuccessCount s = 1"
proof -
  let ?c = "New 0 [''a'', ''b''] [] []"
  let ?h = "[OpRecordStart ''a'', OpRecordStart ''a'', OpRecordStart ''b'', OpRecordEnd ''a'' 7 True]"
  have n: "co_servers ?c ''a'' \<noteq> None" by (simp add: New_def Let_def)
  have b: "ends ''a'' True (take k ?h) + ends ''a'' False (take k ?h) \<le> starts ''a'' (take k ?h)" for k
    by (simp add: take_Cons starts_def ends_def split: nat.splits)
  show ?thesis
    using counters_count_requests [OF n _ b] by (auto simp: starts_def ends_def)
qed

section \<open>The circuit-event log\<close>

abbreviation events_of :: "url \<Rightarrow> CircuitEvent list \<Rightarrow> CircuitEvent list" where
  "events_of u evs \<equiv> filter (\<lambda>e. ev_ServerURL e = u) evs"

text \<open>
  The log of one server is a chain of real changes that ends in the state on record.
\<close>

definition log_ok :: "Collector \<Rightarrow> bool" where
  "log_ok c \<longleftrightarrow>
     length (co_circuitEvents c) \<le> 50
     \<and> (\<forall>e \<in> set (co_circuitEvents c). ev_OldState e \<noteq> ev_NewState e)
     \<and> (\<forall>u. successively (\<lambda>a b. ev_NewState a = ev_OldState b) (events_of u (co_circuitEvents c)))
     \<and> (\<forall>u s. co_servers c u = Some s \<and> events_of u (co_circuitEvents c) \<noteq> [] \<longrightarrow>
          ev_NewState (last (events_of u (co_circuitEvents c))) = ss_CircuitState s)"

lemma log_ok_frame:
  assumes "log_ok c" and "co_circuitEvents c' = co_circuitEvents c"
    and "\<And>u s'. co_servers c' u = Some s' \<Longrightarrow> \<exists>s. co_servers c u = Some s \<and> ss_CircuitState s' = ss_CircuitState s"
  shows "log_ok c'"
  using assms by (fastforce simp: log_ok_def)

lemma log_ok_on_server:
  assumes "log_ok c" and "\<And>s. ss_CircuitState (f s) = ss_CircuitState s"
  shows "log_ok (on_server u f c)"
  using assms by (intro log_ok_frame [OF assms(1)]) (auto simp: co_servers_on_server split: if_splits)

lemma log_suffix:
  "\<exists>ys. events_of u evs = ys @ events_of u (last_n k evs)"
  by (metis filter_append last_n_suffix)

lemma successively_suffix: "successively P (xs @ ys) \<Longrightarrow> successively P ys"
  by (simp add: successively_append_iff)

lemma log_ok_append:
  assumes ok: "log_ok c" and s: "co_servers c u = Some s"
    and e: "ev_ServerURL e = u" "ev_OldState e = ss_CircuitState s" "ev_NewState e = st" "ss_CircuitState s \<noteq> st"
    and c': "co_servers c' = (co_servers c)(u \<mapsto> s\<lparr>ss_CircuitState := st\<rparr>)"
      "co_circuitEvents c' = last_n 50 (co_circuitEvents c @ [e])"
  shows "log_ok c'"
proof -
  let ?evs = "co_circuitEvents c @ [e]"
  have chain: "successively (\<lambda>a b. ev_NewState a = ev_OldState b) (events_of v ?evs)" for v
    using ok s e by (auto simp: log_ok_def successively_append_iff)
  have end_state: "ev_NewState (last (events_of v ?evs)) = ss_CircuitState s'"
    if "co_servers c' v = Some s'" "events_of v ?evs \<noteq> []" for v s'
    using ok e c' that by (auto simp: log_ok_def split: if_splits)
  have "\<forall>a \<in> set ?evs. ev_OldState a \<noteq> ev_NewState a" using ok e by (auto simp: log_ok_def)
  then have "\<forall>a \<in> set (co_circuitEvents c'). ev_OldState a \<noteq> ev_NewState a"
    using c'(2) set_last_n [of 50 ?evs] by auto
  moreover have "successively (\<lambda>a b. ev_NewState a = ev_OldState b) (events_of v (co_circuitEvents c'))" for v
    using chain [of v] log_suffix [of v ?evs 50] c'(2) by (metis successively_suffix)
  moreover have "ev_NewState (last (events_of v (co_circuitEvents c'))) = ss_CircuitState s'"
    if "co_servers c' v = Some s'" "events_of v (co_circuitEvents c') \<noteq> []" for v s'
    using end_state [OF that(1)] that(2) log_suffix [of v ?evs 50] c'(2)
    by (metis append_is_Nil_conv last_appendR)
  ultimately show ?thesis using c'(2) by (auto simp: log_ok_def)
qed

lemma log_ok_SetCircuitState:
  assumes "log_ok c"
  shows "log_ok (SetCircuitState t u st c)"
proof (cases "co_servers c u")
  case None
  with assms show ?thesis by (simp add: SetCircuitState_def)
next
  case (Some s)
  show ?thesis
  proof (cases "ss_CircuitState s = st")
    case True
    with Some assms show ?thesis
      by (intro log_ok_frame [OF assms]) (auto simp: SetCircuitState_def Let_def split: if_splits)
  next
    case False
    with Some show ?thesis
      by (intro log_ok_append [OF assms Some _ _ _ False]) (auto simp: SetCircuitState_def Let_def)
  qed
qed

lemma log_ok_step: "log_ok c \<Longrightarrow> log_ok (collector_step c e)"
proof (cases e)
  case (OpSetCircuitState t u st)
  moreover assume "log_ok c"
  ultimately show ?thesis by (simp add: log_ok_SetCircuitState)
next
  case (OpDashboardSnap now ks)
  moreover assume "log_ok c"
  ultimately show ?thesis by (auto intro: log_ok_frame)
next
  case (OpSetAlgorithm a)
  moreover assume "log_ok c"
  ultimately show ?thesis by (auto simp: SetAlgorithm_def intro: log_ok_frame)
qed (auto simp: collector_op_defs end_stats_def Let_def intro!: log_ok_on_server)

lemma log_ok_import: "log_ok c \<Longrightarrow> log_ok (ImportMetrics ks old c)"
proof (induction ks arbitrary: c)
  case (Cons u ks)
  then have "log_ok (on_server u (import_stats s) c)" for s
    by (intro log_ok_on_server) (simp_all add: import_stats_def)
  with Cons show ?case by (simp split: option.splits)
qed simp

text \<open>
  The circuit-event log is a faithful history. In every reachable collector it holds at most 50
  events, every event is a change of state, the events of one server follow one another (each starts in the
  state the previous one ended in), and the last of them ends in the state now on record for the server.
\<close>

theorem circuit_log_faithful:
  assumes "collector_reachable c"
  shows "length (CircuitEvents c) \<le> 50
       \<and> (\<forall>e \<in> set (CircuitEvents c). ev_OldState e \<noteq> ev_NewState e)
       \<and> (\<forall>u. successively (\<lambda>a b. ev_NewState a = ev_OldState b) (events_of u (CircuitEvents c)))
       \<and> (\<forall>u s. co_servers c u = Some s \<and> events_of u (CircuitEvents c) \<noteq> [] \<longrightarrow>
            ev_NewState (last (events_of u (CircuitEvents c))) = ss_CircuitState s)"
proof -
  have "log_ok c" using assms
  proof (induction rule: collector_reachable.induct)
    case (reach_new now urls names weights)
    show ?case by (simp add: log_ok_def New_def)
  qed (simp_all add: log_ok_step log_ok_import)
  then show ?thesis by (simp add: log_ok_def CircuitEvents_def)
qed

theorem circuit_log_faithful_witness:
  "let c = SetCircuitState ''t'' ''a'' ''OPEN'' (New 0 [''a''] [] [])
   in collector_reachable c \<and> length (CircuitEvents c) = 1 \<and> length (CircuitEvents c) \<le> 50"
proof -
  let ?c = "SetCircuitState ''t'' ''a'' ''OPEN'' (New 0 [''a''] [] [])"
  have r: "collector_reachable ?c"
    using reach_step [OF reach_new, of 0 "[''a'']" "[]" "[]" "OpSetCircuitState ''t'' ''a'' ''OPEN''"] by simp
  have "length (CircuitEvents ?c) = 1"
    by (simp add: CircuitEvents_def SetCircuitState_def New_def new_stats_def Let_def last_n_def)
  with r circuit_log_faithful [OF r] show ?thesis by (simp add: Let_def)
qed

section \<open>The average latency\<close>

lemma foldl_fadd_exact:
  "a + sum_list ks \<le> 2 ^ 53 \<Longrightarrow> foldl fadd (of_nat a) (map of_nat ks) = of_nat (a + sum_list ks)"
proof (induction ks arbitrary: a)
  case (Cons k ks)
  have "fadd (of_nat a) (of_nat k) = fl (of_nat (a + k))" by (simp add: fadd_def)
  also have "\<dots> = of_nat (a + k)" using Cons.prems by (intro fl_of_nat_exact) simp
  finally have "fadd (of_nat a) (of_nat k) = of_nat (a + k)" .
  with Cons.IH [of "a + k"] Cons.prems show ?case by (simp add: add.assoc)
qed simp

lemma sum_list_bounds:
  fixes ks :: "nat list"
  assumes "\<And>k. k \<in> set ks \<Longrightarrow> lo \<le> k \<and> k \<le> hi"
  shows "lo * length ks \<le> sum_list ks \<and> sum_list ks \<le> hi * length ks"
  using assms
proof (induction ks)
  case (Cons k ks)
  then have "lo * length ks \<le> sum_list ks \<and> sum_list ks \<le> hi * length ks" and "lo \<le> k" "k \<le> hi"
    by simp_all
  then show ?case by simp
qed simp

text \<open>
  The average latency is the correctly rounded arithmetic mean of the window: for a window of up to
  100 samples, each a whole number of milliseconds up to \<open>2 ^ 46\<close> (as the proxy records them), the
  floating-point sum is exact, the average is the rounded quotient, and it lies between the smallest and
  the largest sample.
\<close>

theorem mean_correctly_rounded:
  assumes "ks \<noteq> []" and "length ks \<le> 100" and "\<forall>k \<in> set ks. k \<le> 2 ^ 46"
  shows "mean (map of_nat ks) = fl (of_nat (sum_list ks) / of_nat (length ks))
       \<and> of_nat (Min (set ks)) \<le> mean (map of_nat ks) \<and> mean (map of_nat ks) \<le> of_nat (Max (set ks))"
proof -
  let ?n = "length ks"
  have n: "0 < ?n" using assms(1) by simp
  have mm: "Min (set ks) \<le> k \<and> k \<le> Max (set ks)" if "k \<in> set ks" for k using that by simp
  note b = sum_list_bounds [of ks, OF mm]
  have M: "Max (set ks) \<le> 2 ^ 46" using assms by simp
  have "Max (set ks) * ?n \<le> 2 ^ 46 * 100" using M assms(2) by (intro mult_le_mono)
  then have sm: "sum_list ks \<le> 2 ^ 53" using b by simp
  have eq: "mean (map of_nat ks) = fl (of_nat (sum_list ks) / of_nat ?n)"
    using foldl_fadd_exact [of 0 ks] sm assms(2) by (simp add: mean_def fdiv_def f64_of_int_exact)
  have "of_nat (Min (set ks) * ?n) \<le> (of_nat (sum_list ks) :: rat)"
    and "of_nat (sum_list ks) \<le> (of_nat (Max (set ks) * ?n) :: rat)"
    using b by (simp_all only: of_nat_le_iff)
  then have q: "of_nat (Min (set ks)) \<le> (of_nat (sum_list ks) / of_nat ?n :: rat)"
    "(of_nat (sum_list ks) / of_nat ?n :: rat) \<le> of_nat (Max (set ks))"
    using n by (simp_all add: pos_le_divide_eq pos_divide_le_eq)
  have "Min (set ks) \<le> Max (set ks)" using assms(1) by simp
  then have "fl (of_nat (Min (set ks))) = of_nat (Min (set ks))" and "fl (of_nat (Max (set ks))) = of_nat (Max (set ks))"
    using M by (intro fl_of_nat_exact; simp)+
  from fl_between [OF this q] eq show ?thesis by simp
qed

theorem mean_correctly_rounded_witness:
  "10 \<le> mean (map of_nat [10, 20, 40]) \<and> mean (map of_nat [10, 20, 40]) \<le> 40"
  using mean_correctly_rounded [of "[10, 20, 40]"] by simp

section \<open>The dashboard snapshot\<close>

definition stat_of :: "(ServerStats \<Rightarrow> int) \<Rightarrow> stats_map \<Rightarrow> url \<Rightarrow> int" where
  "stat_of f m u = (case m u of None \<Rightarrow> 0 | Some s \<Rightarrow> f s)"

lemma stat_of_simps [simp]:
  "m u = None \<Longrightarrow> stat_of f m u = 0"
  "m u = Some s \<Longrightarrow> stat_of f m u = f s"
  by (simp_all add: stat_of_def)

abbreviation healthy_flag :: "ServerStats \<Rightarrow> int" where
  "healthy_flag s \<equiv> (if ss_IsHealthy s then 1 else 0)"

lemma snap_totals_eq:
  "snap_totals ks m (i64 a, i64 b, h) =
     (i64 (a + sum_list (map (stat_of ss_TotalRequests m) ks)),
      i64 (b + sum_list (map (stat_of ss_SuccessCount m) ks)),
      h + sum_list (map (stat_of healthy_flag m) ks))"
proof (induction ks arbitrary: a b h)
  case (Cons u ks)
  show ?case
  proof (cases "m u")
    case None
    with Cons show ?thesis by simp
  next
    case (Some s)
    have "snap_totals (u # ks) m (i64 a, i64 b, h) =
        snap_totals ks m (i64 (a + ss_TotalRequests s), i64 (b + ss_SuccessCount s), h + healthy_flag s)"
      using Some by simp
    also have "\<dots> = (i64 ((a + ss_TotalRequests s) + sum_list (map (stat_of ss_TotalRequests m) ks)),
        i64 ((b + ss_SuccessCount s) + sum_list (map (stat_of ss_SuccessCount m) ks)),
        (h + healthy_flag s) + sum_list (map (stat_of healthy_flag m) ks))"
      by (rule Cons.IH)
    finally show ?thesis using Some by (simp add: add.assoc)
  qed
qed simp

lemma snap_totals_sum:
  assumes "range_order m ks"
  shows "snap_totals ks m (0, 0, 0) =
     (i64 (\<Sum>u \<in> dom m. stat_of ss_TotalRequests m u), i64 (\<Sum>u \<in> dom m. stat_of ss_SuccessCount m u),
      \<Sum>u \<in> dom m. stat_of healthy_flag m u)"
proof -
  have "i64 0 = 0" by (simp add: i64_def)
  then show ?thesis using snap_totals_eq [of ks m 0 0 0] by (simp add: range_order_sum_list [OF assms])
qed

lemma sum_healthy_flag:
  assumes "finite (dom m)"
  shows "(\<Sum>u \<in> dom m. stat_of healthy_flag m u) = int (card {u. \<exists>s. m u = Some s \<and> ss_IsHealthy s})"
proof -
  let ?H = "{u. \<exists>s. m u = Some s \<and> ss_IsHealthy s}"
  have "(\<Sum>u \<in> dom m. stat_of healthy_flag m u) = (\<Sum>u \<in> dom m. if u \<in> ?H then 1 else 0)" by (rule sum.cong) auto
  also have "\<dots> = int (card (dom m \<inter> ?H))" using assms by (simp add: sum.If_cases)
  also have "dom m \<inter> ?H = ?H" by auto
  finally show ?thesis .
qed

lemma success_rate_bounds:
  assumes "0 \<le> ok" and "ok \<le> req"
  shows "0 \<le> success_rate ok req \<and> success_rate ok req \<le> 100"
proof (cases "0 < req")
  case True
  then have "fl (of_int 1) \<le> f64_of_int req" unfolding f64_of_int_def by (intro fl_mono) simp
  moreover have "fl (of_int 1) = 1" by (subst fl_of_int_exact) simp_all
  ultimately have tp: "0 < f64_of_int req" by linarith
  have q0: "0 \<le> fdiv (f64_of_int ok) (f64_of_int req)"
    using assms tp by (intro fdiv_nonneg f64_of_int_nonneg) simp_all
  have "f64_of_int ok / f64_of_int req \<le> 1"
    using f64_of_int_mono [OF assms(2)] tp by simp
  then have "fdiv (f64_of_int ok) (f64_of_int req) \<le> fl 1" unfolding fdiv_def by (rule fl_mono)
  then have q1: "fdiv (f64_of_int ok) (f64_of_int req) \<le> 1" using \<open>fl (of_int 1) = 1\<close> by simp
  then have "fmul (fdiv (f64_of_int ok) (f64_of_int req)) 100 \<le> fl (of_int 100)"
    unfolding fmul_def by (intro fl_mono) simp
  also have "\<dots> = 100" by (subst fl_of_int_exact) simp_all
  finally show ?thesis using True q0 by (simp add: success_rate_def fmul_nonneg)
qed (simp add: success_rate_def)

text \<open>
  The dashboard totals. Whatever order Go visits the servers in, the snapshot of a collector
  reports the sum of the request counts over all servers, counts the healthy servers among all
  servers, and, when no success count exceeds the request count of its server, gives a success rate
  between 0 and 100.
\<close>

theorem dashboard_totals:
  assumes "range_order (co_servers c) ks"
    and "\<forall>u \<in> dom (co_servers c). 0 \<le> stat_of ss_SuccessCount (co_servers c) u
            \<and> stat_of ss_SuccessCount (co_servers c) u \<le> stat_of ss_TotalRequests (co_servers c) u"
    and "(\<Sum>u \<in> dom (co_servers c). stat_of ss_TotalRequests (co_servers c) u) < 2 ^ 63"
  shows "ds_TotalRequests (snd (DashboardSnap now ks c))
           = (\<Sum>u \<in> dom (co_servers c). stat_of ss_TotalRequests (co_servers c) u)
       \<and> ds_HealthyCount (snd (DashboardSnap now ks c))
           = int (card {u. \<exists>s. co_servers c u = Some s \<and> ss_IsHealthy s})
       \<and> ds_TotalCount (snd (DashboardSnap now ks c)) = int (card (dom (co_servers c)))
       \<and> 0 \<le> ds_SuccessRate (snd (DashboardSnap now ks c))
       \<and> ds_SuccessRate (snd (DashboardSnap now ks c)) \<le> 100"
proof -
  let ?m = "co_servers c" and ?D = "dom (co_servers c)"
  let ?H = "{u. \<exists>s. ?m u = Some s \<and> ss_IsHealthy s}"
  let ?T = "\<Sum>u \<in> ?D. stat_of ss_TotalRequests ?m u" and ?S = "\<Sum>u \<in> ?D. stat_of ss_SuccessCount ?m u"
  have S: "0 \<le> ?S" "?S \<le> ?T" using assms(2) by (auto intro: sum_nonneg sum_mono)
  then have w: "i64 ?T = ?T" "i64 ?S = ?S" using assms(3) by (auto intro: i64_nonneg)
  have "finite ?D" and ks: "length ks = card ?D"
    using assms(1) by (auto simp: range_order_def distinct_card [symmetric] finite_subset)
       (metis List.finite_set range_order_def)
  have h: "(\<Sum>u \<in> ?D. stat_of healthy_flag ?m u) = int (card ?H)" by (rule sum_healthy_flag) fact
  show ?thesis
    using S success_rate_bounds [OF S] by (simp add: DashboardSnap_def snap_totals_sum [OF assms(1)] h w ks Let_def)
qed

theorem dashboard_totals_witness:
  "let c = RecordEnd ''a'' 5 False (New 0 [''a'', ''b''] [] [])
   in ds_TotalRequests (snd (DashboardSnap 1 [''b'', ''a''] c)) = 1
      \<and> ds_HealthyCount (snd (DashboardSnap 1 [''b'', ''a''] c)) = 2"
proof -
  let ?c = "RecordEnd ''a'' 5 False (New 0 [''a'', ''b''] [] [])"
  let ?a = "end_stats 5 False (new_stats ''a'' ''a'' 1)" and ?b = "new_stats ''b'' ''b'' 1"
  have m: "co_servers ?c = [''a'' \<mapsto> ?a, ''b'' \<mapsto> ?b]"
    by (auto simp: RecordEnd_def on_server_def New_def Let_def)
  have st: "ss_TotalRequests ?a = 1" "ss_SuccessCount ?a = 0" "ss_TotalRequests ?b = 0"
    "ss_SuccessCount ?b = 0" "ss_IsHealthy ?a" "ss_IsHealthy ?b"
    by (simp_all add: end_stats_def new_stats_def Let_def i64_def)
  have h: "{u. \<exists>s. co_servers ?c u = Some s \<and> ss_IsHealthy s} = {''a'', ''b''}"
    using st by (auto simp: m split: if_splits)
  have o: "range_order (co_servers ?c) [''b'', ''a'']" by (auto simp: range_order_def m)
  have b: "\<forall>u \<in> dom (co_servers ?c). 0 \<le> stat_of ss_SuccessCount (co_servers ?c) u
      \<and> stat_of ss_SuccessCount (co_servers ?c) u \<le> stat_of ss_TotalRequests (co_servers ?c) u"
    by (simp add: m st stat_of_def)
  have t: "(\<Sum>u \<in> dom (co_servers ?c). stat_of ss_TotalRequests (co_servers ?c) u) = 1"
    by (simp add: m st stat_of_def)
  show ?thesis using dashboard_totals [OF o b, of 1] by (simp add: t h Let_def)
qed

text \<open>
  After a hot reload the first requests-per-second figure is wrong. A new collector that has
  imported the counters of the old one still has 0 as the request count of its last snapshot, so
  its next snapshot divides all the requests ever served, not those served since, by the elapsed time.
\<close>

theorem rps_after_import_counts_all_requests:
  assumes "duration_Seconds (time_Sub now t0) > 0"
    and "range_order (co_servers (ImportMetrics ks old (New t0 urls names weights))) ks'"
  shows "ds_GlobalRPS (snd (DashboardSnap now ks' (ImportMetrics ks old (New t0 urls names weights))))
       = fdiv (f64_of_int (i64 (\<Sum>u \<in> dom (co_servers (ImportMetrics ks old (New t0 urls names weights))).
                 stat_of ss_TotalRequests (co_servers (ImportMetrics ks old (New t0 urls names weights))) u)))
           (duration_Seconds (time_Sub now t0))"
proof -
  let ?c = "ImportMetrics ks old (New t0 urls names weights)"
  have frame: "co_lastSnapshotTime (ImportMetrics ks old c) = co_lastSnapshotTime c
      \<and> co_lastTotalRequests (ImportMetrics ks old c) = co_lastTotalRequests c" for c
    by (induction ks arbitrary: c) (simp_all split: option.splits)
  have "co_lastSnapshotTime ?c = t0" and "co_lastTotalRequests ?c = 0"
    using frame [of "New t0 urls names weights"] by (simp_all add: New_def)
  with assms(1) show ?thesis by (simp add: DashboardSnap_def snap_totals_sum [OF assms(2)] Let_def)
qed

theorem rps_after_import_counts_all_requests_witness:
  "let old = [''a'' \<mapsto> (new_stats ''a'' ''a'' 1)\<lparr>ss_TotalRequests := 500, ss_SuccessCount := 500\<rparr>];
       c = ImportMetrics [''a''] old (New 0 [''a''] [] [])
   in ds_GlobalRPS (snd (DashboardSnap 1000000000 [''a''] c)) = 500"
proof -
  let ?old = "[''a'' \<mapsto> (new_stats ''a'' ''a'' 1)\<lparr>ss_TotalRequests := 500, ss_SuccessCount := 500\<rparr>]"
  let ?c = "ImportMetrics [''a''] ?old (New 0 [''a''] [] [])"
  have d: "duration_Seconds (time_Sub 1000000000 0) = 1"
    by code_simp
  have m: "co_servers ?c = [''a'' \<mapsto> (new_stats ''a'' ''a'' 1)\<lparr>ss_TotalRequests := 500, ss_SuccessCount := 500\<rparr>]"
    by (simp add: on_server_def New_def Let_def import_stats_def new_stats_def)
  have o: "range_order (co_servers ?c) [''a'']" unfolding range_order_def m by simp
  have t: "(\<Sum>u \<in> dom (co_servers ?c). stat_of ss_TotalRequests (co_servers ?c) u) = 500"
    unfolding m by simp
  have f: "fdiv (f64_of_int (i64 500)) 1 = 500" by code_simp
  have "duration_Seconds (time_Sub 1000000000 0) > 0" by (simp add: d)
  from rps_after_import_counts_all_requests [OF this o] show ?thesis by (simp only: t d f Let_def)
qed

end
