(* ===== verification/Balancer.thy ===== *)
theory Balancer
  imports Metrics
begin

text \<open>
  The load-balancing algorithms that keep little or no state, \<^verbatim>\<open>src/internal/balancer\<close>:
  \<^verbatim>\<open>roundrobin.go\<close>, \<^verbatim>\<open>leastconn.go\<close> and \<^verbatim>\<open>weighted.go\<close>, with the \<^verbatim>\<open>Algorithm\<close> interface as a locale. An
  algorithm takes its own state, the candidates, the metrics snapshot and the priority, and returns the
  new state and the chosen URL (the empty string when it chooses none).
\<close>

section \<open>The interface\<close>

type_synonym 'st algorithm = "'st \<Rightarrow> url list \<Rightarrow> stats_map \<Rightarrow> string \<Rightarrow> 'st \<times> url"

text \<open>
  What the router relies on: an algorithm answers with one of the candidates or with the empty
  string, and with the empty string when there are none.
\<close>

locale selection =
  fixes select :: "'st algorithm"
  assumes select_none: "snd (select st [] stats pri) = []"
    and select_some: "snd (select st cands stats pri) \<in> set cands \<or> snd (select st cands stats pri) = []"
begin

lemma select_candidate: "snd (select st cands stats pri) \<noteq> [] \<Longrightarrow> snd (select st cands stats pri) \<in> set cands"
  using select_some by blast

end

text \<open>A total algorithm always answers with a candidate when there is one.\<close>

locale total_selection =
  fixes select :: "'st algorithm"
  assumes total_none: "snd (select st [] stats pri) = []"
    and total_some: "cands \<noteq> [] \<Longrightarrow> snd (select st cands stats pri) \<in> set cands"

sublocale total_selection \<subseteq> selection select
proof
  show "snd (select st [] stats pri) = []" for st stats pri by (rule total_none)
  show "snd (select st cands stats pri) \<in> set cands \<or> snd (select st cands stats pri) = []" for st cands stats pri
    using total_some [of cands] total_none by (cases "cands = []") auto
qed

text \<open>A sequence of requests served by one algorithm object.\<close>

fun select_run :: "'st algorithm \<Rightarrow> 'st \<Rightarrow> (url list \<times> stats_map \<times> string) list \<Rightarrow> 'st \<times> url list" where
  "select_run sel st [] = (st, [])"
| "select_run sel st ((cands, stats, pri) # reqs) =
     (let (st1, u) = sel st cands stats pri; (st2, us) = select_run sel st1 reqs in (st2, u # us))"

section \<open>Round robin\<close>

definition RoundRobin_Select :: "(64 word) algorithm" where
  "RoundRobin_Select counter candidates stats priority =
     (if length candidates = 0 then (counter, [])
      else let counter1 = counter + 1; idx = counter1 - 1
           in (counter1, candidates ! (unat idx mod length candidates)))"

section \<open>Least connections\<close>

text \<open>The loop carries \<^verbatim>\<open>best\<close> and \<^verbatim>\<open>bestConn\<close>.\<close>

fun lc_loop :: "url list \<Rightarrow> stats_map \<Rightarrow> url \<times> int \<Rightarrow> url \<times> int" where
  "lc_loop [] stats acc = acc"
| "lc_loop (url # urls) stats (best, bestConn) =
     (case stats url of
        None \<Rightarrow> lc_loop urls stats (best, bestConn)
      | Some s \<Rightarrow>
          (if ss_ActiveConnections s < bestConn
           then lc_loop urls stats (url, ss_ActiveConnections s)
           else lc_loop urls stats (best, bestConn)))"

definition LeastConnections_Select :: "unit algorithm" where
  "LeastConnections_Select st candidates stats priority =
     (if length candidates = 0 then (st, [])
      else (st, fst (lc_loop candidates stats (candidates ! 0, 2 ^ 62))))"

section \<open>Weighted score\<close>

text \<open>
  The score of a server for given weights and a given value of \<^verbatim>\<open>rand.Float64()\<close>. The decimal constants are
  the \<^verbatim>\<open>float64\<close> numbers nearest to them.
\<close>

definition baseScore :: "f64 \<Rightarrow> f64 \<Rightarrow> ServerStats \<Rightarrow> f64" where
  "baseScore latencyWeight loadWeight s =
     fadd (fdiv latencyWeight (fadd 1 (ss_AvgLatencyMs s)))
          (fdiv loadWeight (fadd 1 (f64_of_int (ss_ActiveConnections s))))"

definition weightMultiplier :: "ServerStats \<Rightarrow> f64" where
  "weightMultiplier s = (let w = f64_of_int (ss_Weight s) in if w \<le> 0 then 1 else w)"

definition ws_score :: "f64 \<Rightarrow> f64 \<Rightarrow> f64 \<Rightarrow> ServerStats \<Rightarrow> f64" where
  "ws_score latencyWeight loadWeight rnd s =
     (let jitter = fmul rnd (fl (1 / 1000))
      in fadd (fmul (baseScore latencyWeight loadWeight s) (weightMultiplier s)) jitter)"

text \<open>
  The loop carries \<^verbatim>\<open>bestServer\<close> and \<^verbatim>\<open>bestScore\<close>, and draws one random number for every candidate that has
  statistics. The state of the algorithm is the stream of numbers still to be drawn.
\<close>

fun ws_loop :: "f64 \<Rightarrow> f64 \<Rightarrow> url list \<Rightarrow> stats_map \<Rightarrow> (nat \<Rightarrow> f64) \<Rightarrow> url \<times> f64 \<Rightarrow> (nat \<Rightarrow> f64) \<times> url" where
  "ws_loop lw ow [] stats rnd (bestServer, bestScore) = (rnd, bestServer)"
| "ws_loop lw ow (url # urls) stats rnd (bestServer, bestScore) =
     (case stats url of
        None \<Rightarrow> ws_loop lw ow urls stats rnd (bestServer, bestScore)
      | Some s \<Rightarrow>
          (let score = ws_score lw ow (rnd 0) s; rnd1 = (\<lambda>i. rnd (Suc i))
           in if score > bestScore then ws_loop lw ow urls stats rnd1 (url, score)
              else ws_loop lw ow urls stats rnd1 (bestServer, bestScore)))"

definition WeightedScore_Select :: "(nat \<Rightarrow> f64) algorithm" where
  "WeightedScore_Select rnd candidates stats priority =
     (if length candidates = 0 then (rnd, [])
      else let (latencyWeight, loadWeight) =
                 (if priority = ''HIGH'' then (fl (8 / 10), fl (2 / 10)) else (fl (6 / 10), fl (4 / 10)))
           in ws_loop latencyWeight loadWeight candidates stats rnd (candidates ! 0, - 1))"

section \<open>The interface holds\<close>

lemma lc_loop_in: "fst (lc_loop urls stats (best, k)) \<in> insert best (set urls)"
  by (induction urls arbitrary: best k) (auto split: option.splits)

lemma ws_loop_in: "snd (ws_loop lw ow urls stats rnd (best, k)) \<in> insert best (set urls)"
proof (induction urls arbitrary: best k rnd)
  case (Cons url urls)
  then show ?case by (auto simp: Let_def split: option.splits)
qed simp

interpretation rr: total_selection RoundRobin_Select
  by unfold_locales (simp_all add: RoundRobin_Select_def Let_def)

interpretation lc: total_selection LeastConnections_Select
proof
  show "snd (LeastConnections_Select st [] stats pri) = []" for st stats pri
    by (simp add: LeastConnections_Select_def)
  show "snd (LeastConnections_Select st cands stats pri) \<in> set cands" if "cands \<noteq> []" for cands st stats pri
    using lc_loop_in [of cands stats "cands ! 0" "2 ^ 62"] that
    by (auto simp: LeastConnections_Select_def nth_mem)
qed

interpretation ws: total_selection WeightedScore_Select
proof
  show "snd (WeightedScore_Select st [] stats pri) = []" for st stats pri
    by (simp add: WeightedScore_Select_def)
  show "snd (WeightedScore_Select rnd cands stats pri) \<in> set cands" if "cands \<noteq> []" for cands rnd stats pri
    using ws_loop_in [of _ _ cands stats rnd "cands ! 0" "- 1"] that
    by (auto simp: WeightedScore_Select_def Let_def nth_mem split: prod.splits) (metis insertE nth_mem length_greater_0_conv)+
qed

section \<open>Round robin is fair\<close>

lemma RoundRobin_Select_step:
  "cands \<noteq> [] \<Longrightarrow> RoundRobin_Select c cands stats pri = (c + 1, cands ! (unat c mod length cands))"
  by (simp add: RoundRobin_Select_def Let_def)

lemma rr_run_from:
  assumes "cands \<noteq> []" and "unat c + length xs \<le> 2 ^ 64"
  shows "snd (select_run RoundRobin_Select c (map (Pair cands) xs))
       = map (\<lambda>i. cands ! ((unat c + i) mod length cands)) [0..<length xs]"
  using assms(2)
proof (induction xs arbitrary: c)
  case (Cons x xs)
  obtain stats pri where x: "x = (stats, pri)" by (cases x)
  show ?case
  proof (cases "xs = []")
    case True
    then show ?thesis using assms(1) by (simp add: x RoundRobin_Select_step)
  next
    case False
    then have "unat c + 1 < 2 ^ 64" using Cons.prems by (cases xs) auto
    then have u: "unat (c + 1) = unat c + 1" by (simp add: unat_word_ariths)
    have "snd (select_run RoundRobin_Select (c + 1) (map (Pair cands) xs))
        = map (\<lambda>i. cands ! ((unat c + Suc i) mod length cands)) [0..<length xs]"
      using Cons.IH [of "c + 1"] Cons.prems u by simp
    then show ?thesis
      using assms(1)
      by (simp add: x RoundRobin_Select_step upt_conv_Cons map_Suc_upt [symmetric] case_prod_beta comp_def
          del: upt_Suc)
  qed
qed simp

lemma rounds_mset:
  "xs \<noteq> [] \<Longrightarrow> mset (map (\<lambda>i. xs ! ((a + i) mod length xs)) [0..<m * length xs]) = repeat_mset m (mset xs)"
proof (induction m)
  case (Suc m)
  let ?n = "length xs" and ?f = "\<lambda>i. xs ! ((a + i) mod length xs)"
  have "map ?f [m * ?n..<m * ?n + ?n] = map ?f (map (\<lambda>i. i + m * ?n) [0..<?n])"
    by (simp add: map_add_upt add.commute)
  also have "\<dots> = rotate a xs"
    by (rule nth_equalityI) (simp_all add: nth_rotate add.assoc [symmetric])
  finally have "mset (map ?f [m * ?n..<m * ?n + ?n]) = mset (rotate a xs)" by simp
  also have "\<dots> = mset xs"
    by (metis append_take_drop_id mset_append rotate_drop_take union_commute)
  finally have "mset (map ?f [m * ?n..<m * ?n + ?n]) = mset xs" .
  moreover have "[0..<Suc m * ?n] = [0..<m * ?n] @ [m * ?n..<m * ?n + ?n]"
    using upt_add_eq_append [of 0 "m * ?n" ?n] by (simp add: add.commute)
  ultimately show ?case using Suc by simp
qed simp

text \<open>
  C33. Round robin serves every candidate equally often. While the candidates stay the same and the
  64-bit counter does not wrap, \<open>m\<close> rounds of requests (\<open>m\<close> times the number of candidates) choose every
  candidate exactly \<open>m\<close> times, whatever value the counter starts from.
\<close>

theorem round_robin_fair:
  assumes "cands \<noteq> []" and "length xs = m * length cands" and "unat c + m * length cands \<le> 2 ^ 64"
  shows "mset (snd (select_run RoundRobin_Select c (map (Pair cands) xs))) = repeat_mset m (mset cands)"
  using rr_run_from [of cands c xs] rounds_mset [of cands "unat c" m] assms by simp

theorem round_robin_fair_witness:
  "mset (snd (select_run RoundRobin_Select 5
      (map (Pair [''a'', ''b'']) (replicate 4 (Map.empty, ''LOW''))))) = repeat_mset 2 (mset [''a'', ''b''])"
  by (rule round_robin_fair) simp_all

section \<open>Least connections picks a least loaded server\<close>

abbreviation active :: "stats_map \<Rightarrow> url \<Rightarrow> int" where
  "active stats u \<equiv> ss_ActiveConnections (the (stats u))"

text \<open>The first of the smallest numbers of connections is at position \<open>i\<close>.\<close>

abbreviation first_min :: "url list \<Rightarrow> stats_map \<Rightarrow> nat \<Rightarrow> bool" where
  "first_min xs stats i \<equiv> i < length xs \<and> (\<forall>j < length xs. active stats (xs ! i) \<le> active stats (xs ! j))
     \<and> (\<forall>j < i. active stats (xs ! i) < active stats (xs ! j))"

lemma first_min_Cons:
  "first_min xs stats i \<Longrightarrow> active stats (xs ! i) < active stats x \<Longrightarrow> first_min (x # xs) stats (Suc i)"
  "\<forall>y \<in> set xs. active stats x \<le> active stats y \<Longrightarrow> first_min (x # xs) stats 0"
  by (auto simp: nth_Cons split: nat.splits)

lemma lc_loop_min:
  assumes "set xs \<subseteq> dom stats"
  shows "(\<forall>x \<in> set xs. k \<le> active stats x) \<and> lc_loop xs stats (best, k) = (best, k)
       \<or> (\<exists>i. first_min xs stats i \<and> lc_loop xs stats (best, k) = (xs ! i, active stats (xs ! i)) \<and> active stats (xs ! i) < k)"
  using assms
proof (induction xs arbitrary: best k)
  case (Cons x xs)
  then obtain s where s: "stats x = Some s" and d: "set xs \<subseteq> dom stats" by auto
  show ?case
  proof (cases "active stats x < k")
    case True
    with s have eq: "lc_loop (x # xs) stats (best, k) = lc_loop xs stats (x, active stats x)" by simp
    from Cons.IH [OF d, of "active stats x" x] show ?thesis
    proof (elim disjE exE conjE)
      assume "\<forall>y \<in> set xs. active stats x \<le> active stats y" "lc_loop xs stats (x, active stats x) = (x, active stats x)"
      then show ?thesis using first_min_Cons(2) [of xs stats x] eq True by (intro disjI2 exI [of _ 0]) simp
    next
      fix i
      assume "i < length xs" "\<forall>j < length xs. active stats (xs ! i) \<le> active stats (xs ! j)" "\<forall>j < i. active stats (xs ! i) < active stats (xs ! j)"
        "lc_loop xs stats (x, active stats x) = (xs ! i, active stats (xs ! i))" "active stats (xs ! i) < active stats x"
      then show ?thesis using first_min_Cons(1) [of i xs stats x] eq True by (intro disjI2 exI [of _ "Suc i"]) simp
    qed
  next
    case False
    with s have eq: "lc_loop (x # xs) stats (best, k) = lc_loop xs stats (best, k)" by simp
    from Cons.IH [OF d, of k best] show ?thesis
    proof (elim disjE exE conjE)
      assume "\<forall>y \<in> set xs. k \<le> active stats y" "lc_loop xs stats (best, k) = (best, k)"
      then show ?thesis using eq False by simp
    next
      fix i
      assume "i < length xs" "\<forall>j < length xs. active stats (xs ! i) \<le> active stats (xs ! j)" "\<forall>j < i. active stats (xs ! i) < active stats (xs ! j)"
        "lc_loop xs stats (best, k) = (xs ! i, active stats (xs ! i))" "active stats (xs ! i) < k"
      then show ?thesis using first_min_Cons(1) [of i xs stats x] eq False by (intro disjI2 exI [of _ "Suc i"]) simp
    qed
  qed
qed simp

text \<open>
  C22. Least connections chooses a least loaded candidate, and the first one of them: when every
  candidate has statistics and fewer than \<open>2 ^ 62\<close> active connections, no candidate has fewer
  active connections than the chosen one, and every earlier candidate has more.
\<close>

theorem least_connections_minimal:
  assumes "cands \<noteq> []" and "\<forall>u \<in> set cands. \<exists>s. stats u = Some s \<and> ss_ActiveConnections s < 2 ^ 62"
  shows "\<exists>i < length cands. snd (LeastConnections_Select st cands stats pri) = cands ! i
       \<and> (\<forall>j < length cands. active stats (cands ! i) \<le> active stats (cands ! j))
       \<and> (\<forall>j < i. active stats (cands ! i) < active stats (cands ! j))"
proof -
  have d: "set cands \<subseteq> dom stats" using assms(2) by auto
  have "active stats (cands ! 0) < 2 ^ 62" using assms by (cases cands) auto
  then have "\<not> (\<forall>x \<in> set cands. 2 ^ 62 \<le> active stats x)"
    using assms(1) by (metis length_greater_0_conv nth_mem not_le)
  then show ?thesis using lc_loop_min [OF d, of "2 ^ 62" "cands ! 0"] assms(1)
    by (auto simp: LeastConnections_Select_def)
qed

theorem least_connections_minimal_witness:
  "\<exists>i < length [''a'', ''b'', ''c''].
     snd (LeastConnections_Select () [''a'', ''b'', ''c'']
       (\<lambda>u. Some ((new_stats u u 1)\<lparr>ss_ActiveConnections := if u = ''a'' then 4 else 2\<rparr>)) ''LOW'')
     = [''a'', ''b'', ''c''] ! i"
proof -
  let ?stats = "\<lambda>u. Some ((new_stats u u 1)\<lparr>ss_ActiveConnections := if u = ''a'' then 4 else 2\<rparr>)"
  have "\<forall>u \<in> set [''a'', ''b'', ''c'']. \<exists>s. ?stats u = Some s \<and> ss_ActiveConnections s < 2 ^ 62"
    by simp
  from least_connections_minimal [OF _ this, of "()" "''LOW''"] show ?thesis by blast
qed

section \<open>The weighted score\<close>

text \<open>The score without its random part.\<close>

definition ws_core :: "string \<Rightarrow> ServerStats \<Rightarrow> f64" where
  "ws_core priority s =
     (if priority = ''HIGH'' then fmul (baseScore (fl (8 / 10)) (fl (2 / 10)) s) (weightMultiplier s)
      else fmul (baseScore (fl (6 / 10)) (fl (4 / 10)) s) (weightMultiplier s))"

abbreviation lat_weight :: "string \<Rightarrow> f64" where
  "lat_weight priority \<equiv> (if priority = ''HIGH'' then fl (8 / 10) else fl (6 / 10))"

abbreviation load_weight :: "string \<Rightarrow> f64" where
  "load_weight priority \<equiv> (if priority = ''HIGH'' then fl (2 / 10) else fl (4 / 10))"

text \<open>Jitter only adds, and never more than the constant \<open>0.001\<close>.\<close>

lemma ws_score_bounds:
  assumes "0 \<le> r" and "r < 1"
  shows "ws_core pri s \<le> ws_score (lat_weight pri) (load_weight pri) r s"
    and "ws_score (lat_weight pri) (load_weight pri) r s \<le> fadd (ws_core pri s) (fl (1 / 1000))"
proof -
  have J: "0 \<le> fl (1 / 1000)" by (rule fl_nonneg) simp
  have "0 \<le> fmul r (fl (1 / 1000))" using assms J by (simp add: fmul_nonneg)
  then show "ws_core pri s \<le> ws_score (lat_weight pri) (load_weight pri) r s"
    by (simp add: ws_score_def ws_core_def fadd_ge_left)
  have "r * fl (1 / 1000) \<le> fl (1 / 1000)" using assms J by (simp add: mult_left_le_one_le)
  then have "fmul r (fl (1 / 1000)) \<le> fl (fl (1 / 1000))" unfolding fmul_def by (rule fl_mono)
  then show "ws_score (lat_weight pri) (load_weight pri) r s \<le> fadd (ws_core pri s) (fl (1 / 1000))"
    by (simp add: ws_score_def ws_core_def fadd_mono)
qed

lemma ws_loop_keeps_best:
  assumes "\<And>i. 0 \<le> rnd i \<and> rnd i < 1"
    and "\<And>v t. v \<in> set urls \<Longrightarrow> v \<noteq> u \<Longrightarrow> stats v = Some t \<Longrightarrow> fadd (ws_core pri t) (fl (1 / 1000)) < m"
    and "m \<le> k"
  shows "snd (ws_loop (lat_weight pri) (load_weight pri) urls stats rnd (u, k)) = u"
  using assms
proof (induction urls arbitrary: rnd k)
  case (Cons v urls)
  have IH: "snd (ws_loop (lat_weight pri) (load_weight pri) urls stats rnd' (u, k')) = u"
    if "m \<le> k'" "\<And>i. 0 \<le> rnd' i \<and> rnd' i < 1" for k' rnd'
    using that by (intro Cons.IH) (auto intro: Cons.prems(2))
  have r: "0 \<le> rnd 0" "rnd 0 < 1" using Cons.prems(1) by blast+
  show ?case
  proof (cases "stats v")
    case None
    then show ?thesis using IH [of k rnd] Cons.prems(1,3) by simp
  next
    case (Some t)
    let ?s = "ws_score (lat_weight pri) (load_weight pri) (rnd 0) t"
    have IH1: "snd (ws_loop (lat_weight pri) (load_weight pri) urls stats (\<lambda>i. rnd (Suc i)) (u, k')) = u"
      if "m \<le> k'" for k' using IH [of k' "\<lambda>i. rnd (Suc i)"] that Cons.prems(1) by blast
    show ?thesis
    proof (cases "v = u")
      case True
      then show ?thesis using Some IH1 [of k] IH1 [of ?s] Cons.prems(3) by (auto simp: Let_def)
    next
      case False
      then have "?s < m" using ws_score_bounds(2) [OF r, of pri t] Cons.prems(2) [of v t] Some by force
      then show ?thesis using Some IH1 [of k] Cons.prems(3) by (simp add: Let_def)
    qed
  qed
qed simp

lemma ws_loop_finds_best:
  assumes "\<And>i. 0 \<le> rnd i \<and> rnd i < 1" and "u \<in> set urls" and "stats u = Some s"
    and "\<And>v t. v \<in> set urls \<Longrightarrow> v \<noteq> u \<Longrightarrow> stats v = Some t \<Longrightarrow>
           fadd (ws_core pri t) (fl (1 / 1000)) < ws_core pri s"
    and "k < ws_core pri s"
  shows "snd (ws_loop (lat_weight pri) (load_weight pri) urls stats rnd (b, k)) = u"
  using assms(1,2,4,5)
proof (induction urls arbitrary: rnd b k)
  case (Cons v urls)
  have r: "0 \<le> rnd 0" "rnd 0 < 1" using Cons.prems(1) by blast+
  show ?case
  proof (cases "v = u")
    case True
    let ?s = "ws_score (lat_weight pri) (load_weight pri) (rnd 0) s"
    have ge: "ws_core pri s \<le> ?s" by (rule ws_score_bounds(1) [OF r])
    have "snd (ws_loop (lat_weight pri) (load_weight pri) urls stats (\<lambda>i. rnd (Suc i)) (u, ?s)) = u"
      using Cons.prems ge by (intro ws_loop_keeps_best [where m = "ws_core pri s"]) auto
    then show ?thesis using True assms(3) ge Cons.prems(4) by (simp add: Let_def)
  next
    case False
    then have u: "u \<in> set urls" using Cons.prems(2) by simp
    have IH: "snd (ws_loop (lat_weight pri) (load_weight pri) urls stats rnd' (b', k')) = u"
      if "k' < ws_core pri s" "\<And>i. 0 \<le> rnd' i \<and> rnd' i < 1" for k' b' rnd'
      using that u by (intro Cons.IH) (auto intro: Cons.prems(3))
    show ?thesis
    proof (cases "stats v")
      case None
      then show ?thesis using IH Cons.prems(1,4) by simp
    next
      case (Some t)
      let ?s = "ws_score (lat_weight pri) (load_weight pri) (rnd 0) t"
      have "?s < ws_core pri s"
        using ws_score_bounds(2) [OF r, of pri t] Cons.prems(3) [of v t] False Some by force
      then show ?thesis using Some IH Cons.prems(1,4) by (simp add: Let_def)
    qed
  qed
qed simp

lemma weightMultiplier_pos: "0 < weightMultiplier s"
  by (simp add: weightMultiplier_def Let_def)

lemma fadd_one_pos: "0 \<le> x \<Longrightarrow> 0 < fadd 1 x"
proof -
  assume "0 \<le> x"
  then have "1 \<le> fadd 1 x" using fl_of_int_exact [of 1] by (intro fadd_ge_left) auto
  then show ?thesis by linarith
qed

lemma weights_nonneg: "0 \<le> lat_weight pri" "0 \<le> load_weight pri"
  by (simp_all add: fl_nonneg)

lemma ws_core_eq: "ws_core pri s = fmul (baseScore (lat_weight pri) (load_weight pri) s) (weightMultiplier s)"
  by (simp add: ws_core_def)

lemma baseScore_nonneg:
  "0 \<le> a \<Longrightarrow> 0 \<le> b \<Longrightarrow> 0 \<le> ss_AvgLatencyMs s \<Longrightarrow> 0 \<le> ss_ActiveConnections s \<Longrightarrow> 0 \<le> baseScore a b s"
  unfolding baseScore_def
  by (intro fadd_nonneg fdiv_nonneg less_imp_le [OF fadd_one_pos] f64_of_int_nonneg)

lemma ws_core_nonneg:
  "0 \<le> ss_AvgLatencyMs s \<Longrightarrow> 0 \<le> ss_ActiveConnections s \<Longrightarrow> 0 \<le> ws_core pri s"
  unfolding ws_core_eq
  using weights_nonneg [of pri] weightMultiplier_pos [of s] by (intro fmul_nonneg baseScore_nonneg) simp_all

text \<open>
  The weighted score orders servers the right way, rounding included: a server with no higher latency,
  no more active connections and no smaller weight than another has no smaller score, for either
  priority.
\<close>

theorem weighted_score_monotone:
  assumes "0 \<le> ss_AvgLatencyMs t" and "ss_AvgLatencyMs t \<le> ss_AvgLatencyMs s"
    and "0 \<le> ss_ActiveConnections t" and "ss_ActiveConnections t \<le> ss_ActiveConnections s"
    and "0 < ss_Weight s" and "ss_Weight s \<le> ss_Weight t"
  shows "ws_core pri s \<le> ws_core pri t"
proof -
  have a: "fdiv (lat_weight pri) (fadd 1 (ss_AvgLatencyMs s)) \<le> fdiv (lat_weight pri) (fadd 1 (ss_AvgLatencyMs t))"
    using assms weights_nonneg [of pri] by (intro fdiv_mono fadd_mono fadd_one_pos) simp_all
  have b: "fdiv (load_weight pri) (fadd 1 (f64_of_int (ss_ActiveConnections s)))
      \<le> fdiv (load_weight pri) (fadd 1 (f64_of_int (ss_ActiveConnections t)))"
    using assms weights_nonneg [of pri]
    by (intro fdiv_mono fadd_mono fadd_one_pos f64_of_int_mono f64_of_int_nonneg) simp_all
  have base: "baseScore (lat_weight pri) (load_weight pri) s \<le> baseScore (lat_weight pri) (load_weight pri) t"
    unfolding baseScore_def using a b by (rule fadd_mono)
  have one: "1 \<le> f64_of_int (ss_Weight s)"
    using assms(5) f64_of_int_mono [of 1 "ss_Weight s"] f64_of_int_exact [of 1] by simp
  moreover have "f64_of_int (ss_Weight s) \<le> f64_of_int (ss_Weight t)" using assms(6) by (rule f64_of_int_mono)
  ultimately have "weightMultiplier s \<le> weightMultiplier t" by (simp add: weightMultiplier_def Let_def)
  then show ?thesis
    unfolding ws_core_eq using base assms weights_nonneg [of pri] weightMultiplier_pos [of s]
    by (intro fmul_mono baseScore_nonneg) simp_all
qed

theorem weighted_score_monotone_witness:
  "ws_core ''HIGH'' ((new_stats ''a'' ''a'' 1)\<lparr>ss_AvgLatencyMs := 50\<rparr>) \<le> ws_core ''HIGH'' (new_stats ''b'' ''b'' 2)"
  by (rule weighted_score_monotone) (simp_all add: new_stats_def)

text \<open>
  The jitter breaks ties only. Whatever the random numbers (in \<open>[0, 1)\<close>), a candidate whose score
  exceeds that of every other candidate by more than the jitter bound is the one chosen.
\<close>

theorem weighted_score_clear_winner:
  assumes "\<And>i. 0 \<le> rnd i \<and> rnd i < 1" and "u \<in> set cands" and "stats u = Some s"
    and "0 \<le> ss_AvgLatencyMs s" and "0 \<le> ss_ActiveConnections s"
    and "\<And>v t. v \<in> set cands \<Longrightarrow> v \<noteq> u \<Longrightarrow> stats v = Some t \<Longrightarrow>
           fadd (ws_core pri t) (fl (1 / 1000)) < ws_core pri s"
  shows "snd (WeightedScore_Select rnd cands stats pri) = u"
proof -
  have "- 1 < ws_core pri s" using ws_core_nonneg [OF assms(4,5), of pri] by linarith
  then have "snd (ws_loop (lat_weight pri) (load_weight pri) cands stats rnd (cands ! 0, - 1)) = u"
    using assms by (intro ws_loop_finds_best [where s = s]) auto
  then show ?thesis using assms(2) by (auto simp: WeightedScore_Select_def Let_def split: if_splits)
qed

theorem weighted_score_clear_winner_witness:
  "snd (WeightedScore_Select (\<lambda>i. 1 / 2) [''a'', ''b'']
     [''a'' \<mapsto> (new_stats ''a'' ''a'' 1)\<lparr>ss_AvgLatencyMs := 99\<rparr>, ''b'' \<mapsto> new_stats ''b'' ''b'' 1] ''HIGH'') = ''b''"
proof -
  have c: "fadd (ws_core ''HIGH'' ((new_stats ''a'' ''a'' 1)\<lparr>ss_AvgLatencyMs := 99\<rparr>)) (fl (1 / 1000))
      < ws_core ''HIGH'' (new_stats ''b'' ''b'' 1)"
    by code_simp
  show ?thesis
    by (rule weighted_score_clear_winner [where s = "new_stats ''b'' ''b'' 1"])
      (use c in \<open>auto simp: new_stats_def split: if_splits\<close>)
qed

end
