(* ===== verification/Canary.thy ===== *)
theory Canary
  imports Balancer
begin

text \<open>
  The canary algorithm, \<^verbatim>\<open>src/internal/balancer/canary.go\<close>: smooth weighted round robin over the
  configured weights. \<^verbatim>\<open>Select\<close> holds the mutex while it reads and writes the two weight maps, so
  a call is one step. The claims are about runs of requests over an unchanging set of candidates.
\<close>

section \<open>State and operations\<close>

record Canary =
  ca_serverWeights :: "url \<rightharpoonup> int"
  ca_currentWeights :: "url \<rightharpoonup> int"
  ca_initialized :: bool

definition new_Canary :: Canary where
  "new_Canary = \<lparr>ca_serverWeights = Map.empty, ca_currentWeights = Map.empty, ca_initialized = False\<rparr>"

text \<open>Reading a Go map at an absent key gives the zero value.\<close>

definition map_get :: "('k \<rightharpoonup> int) \<Rightarrow> 'k \<Rightarrow> int" where
  "map_get m k = (case m k of None \<Rightarrow> 0 | Some v \<Rightarrow> v)"

text \<open>
  The loop of \<^verbatim>\<open>initWeights\<close> gives every server of the snapshot its own entry in both maps, so its result does
  not depend on the order in which Go visits them.
\<close>

definition initWeights :: "stats_map \<Rightarrow> Canary \<Rightarrow> Canary" where
  "initWeights stats c =
     (if ca_initialized c then c
      else \<lparr>ca_serverWeights = (\<lambda>u. map_option (\<lambda>s. if ss_Weight s \<le> 0 then 1 else ss_Weight s) (stats u)),
            ca_currentWeights = (\<lambda>u. map_option (\<lambda>s. 0) (stats u)),
            ca_initialized = True\<rparr>)"

text \<open>The total weight of the candidates; a candidate without a weight gets weight 1.\<close>

fun total_loop :: "url list \<Rightarrow> Canary \<times> int \<Rightarrow> Canary \<times> int" where
  "total_loop [] acc = acc"
| "total_loop (url # urls) (c, totalWeight) =
     (case ca_serverWeights c url of
        Some w \<Rightarrow> total_loop urls (c, i64 (totalWeight + w))
      | None \<Rightarrow> total_loop urls
          (c\<lparr>ca_serverWeights := (ca_serverWeights c)(url \<mapsto> 1),
             ca_currentWeights := (ca_currentWeights c)(url \<mapsto> 0)\<rparr>, i64 (totalWeight + 1)))"

text \<open>Add the weight of every candidate to its current weight and find the maximum.\<close>

fun pick_loop :: "url list \<Rightarrow> Canary \<times> url \<times> int \<Rightarrow> Canary \<times> url \<times> int" where
  "pick_loop [] acc = acc"
| "pick_loop (url # urls) (c, best, bestCW) =
     (let cw = i64 (map_get (ca_currentWeights c) url + map_get (ca_serverWeights c) url);
          c1 = c\<lparr>ca_currentWeights := (ca_currentWeights c)(url \<mapsto> cw)\<rparr>
      in if cw > bestCW then pick_loop urls (c1, url, cw) else pick_loop urls (c1, best, bestCW))"

definition Canary_Select :: "Canary algorithm" where
  "Canary_Select c candidates stats priority =
     (if length candidates = 0 then (c, [])
      else let c0 = (if \<not> ca_initialized c then initWeights stats c else c);
               (c1, totalWeight) = total_loop candidates (c0, 0)
           in if totalWeight = 0 then (c1, candidates ! 0)
              else let (c2, best, bestCW) = pick_loop candidates (c1, [], - (2 ^ 30));
                       c3 = (if best \<noteq> []
                             then c2\<lparr>ca_currentWeights := (ca_currentWeights c2)
                                      (best \<mapsto> i64 (map_get (ca_currentWeights c2) best - totalWeight))\<rparr>
                             else c2)
                   in (c3, best))"

section \<open>The interface holds\<close>

lemma pick_loop_in: "fst (snd (pick_loop urls (c, best, k))) \<in> insert best (set urls)"
  by (induction urls arbitrary: c best k) (auto simp: Let_def)

interpretation canary: selection Canary_Select
proof
  show "snd (Canary_Select st [] stats pri) = []" for st stats pri
    by (simp add: Canary_Select_def)
  fix st :: Canary and cands :: "url list" and stats pri
  have "fst (snd (pick_loop cands (c, [], - (2 ^ 30)))) \<in> insert [] (set cands)" for c
    by (rule pick_loop_in)
  then show "snd (Canary_Select st cands stats pri) \<in> set cands \<or> snd (Canary_Select st cands stats pri) = []"
    by (auto simp: Canary_Select_def Let_def case_prod_beta split: prod.splits)
qed

section \<open>One call on an initialized canary\<close>

lemma total_loop_sum:
  assumes "\<And>u. u \<in> set urls \<Longrightarrow> ca_serverWeights c u = Some (w u) \<and> 0 < w u"
    and "0 \<le> t" and "t + sum_list (map w urls) < 2 ^ 63"
  shows "total_loop urls (c, t) = (c, t + sum_list (map w urls))"
  using assms
proof (induction urls arbitrary: t)
  case (Cons u urls)
  have w: "0 < w u" "ca_serverWeights c u = Some (w u)" using Cons.prems(1) by simp_all
  have "0 \<le> sum_list (map w urls)" using Cons.prems(1) by (intro sum_list_nonneg) (auto simp: less_imp_le)
  then have "i64 (t + w u) = t + w u" using Cons.prems(2,3) w by (intro i64_nonneg) auto
  moreover have "total_loop urls (c, t + w u) = (c, t + w u + sum_list (map w urls))"
  proof (rule Cons.IH)
    show "ca_serverWeights c v = Some (w v) \<and> 0 < w v" if "v \<in> set urls" for v
      using Cons.prems(1) that by simp
    show "0 \<le> t + w u" using Cons.prems(2) w by linarith
    show "t + w u + sum_list (map w urls) < 2 ^ 63" using Cons.prems(3) by (simp add: add.assoc)
  qed
  ultimately show ?case using w by (simp add: add.assoc)
qed simp

definition bumped :: "Canary \<Rightarrow> url \<Rightarrow> int" where
  "bumped c u = i64 (map_get (ca_currentWeights c) u + map_get (ca_serverWeights c) u)"

lemma pick_loop_effect:
  assumes "distinct urls"
  shows "\<exists>b k'. pick_loop urls (c, best, k) =
           (c\<lparr>ca_currentWeights := (\<lambda>u. if u \<in> set urls then Some (bumped c u) else ca_currentWeights c u)\<rparr>, b, k')
         \<and> k \<le> k' \<and> (\<forall>u \<in> set urls. bumped c u \<le> k')
         \<and> (b = best \<and> k' = k \<or> b \<in> set urls \<and> k' = bumped c b \<and> k < k')"
  using assms
proof (induction urls arbitrary: c best k)
  case Nil
  then show ?case by simp
next
  case (Cons u urls)
  let ?c = "c\<lparr>ca_currentWeights := (ca_currentWeights c)(u \<mapsto> bumped c u)\<rparr>"
  let ?b = "if k < bumped c u then u else best" and ?k = "max k (bumped c u)"
  have same: "bumped ?c v = bumped c v" if "v \<in> set urls" for v
    using that Cons.prems by (auto simp: bumped_def map_get_def)
  have eq: "pick_loop (u # urls) (c, best, k) = pick_loop urls (?c, ?b, ?k)"
    by (simp add: bumped_def [symmetric] Let_def max_def)
  have "distinct urls" using Cons.prems by simp
  from Cons.IH [OF this, of ?c ?b ?k] obtain b k' where
    r: "pick_loop urls (?c, ?b, ?k) =
        (?c\<lparr>ca_currentWeights := (\<lambda>v. if v \<in> set urls then Some (bumped ?c v) else ca_currentWeights ?c v)\<rparr>, b, k')"
    and k: "?k \<le> k'" "\<forall>v \<in> set urls. bumped ?c v \<le> k'"
    and b: "b = ?b \<and> k' = ?k \<or> b \<in> set urls \<and> k' = bumped ?c b \<and> ?k < k'" by blast
  have m: "(\<lambda>v. if v \<in> set urls then Some (bumped ?c v) else ca_currentWeights ?c v)
      = (\<lambda>v. if v \<in> set (u # urls) then Some (bumped c v) else ca_currentWeights c v)"
    using same Cons.prems by (auto simp: fun_eq_iff)
  show ?case
    unfolding eq r m using k b same by (intro exI [of _ b] exI [of _ k']) (auto simp: max_def split: if_splits)
qed

section \<open>The smooth weighted round robin invariant\<close>

text \<open>
  After \<open>k\<close> requests of which \<open>cnt u\<close> went to \<open>u\<close>, the current weight of \<open>u\<close> is \<open>k\<close> times its weight
  minus \<open>cnt u\<close> times the total weight, and it is above minus the total weight.
\<close>

abbreviation total :: "url list \<Rightarrow> (url \<Rightarrow> int) \<Rightarrow> int" where
  "total cands w \<equiv> (\<Sum>u \<in> set cands. w u)"

abbreviation credit :: "url list \<Rightarrow> (url \<Rightarrow> int) \<Rightarrow> nat \<Rightarrow> (url \<Rightarrow> nat) \<Rightarrow> url \<Rightarrow> int" where
  "credit cands w k cnt u \<equiv> int k * w u - total cands w * int (cnt u)"

definition swrr_inv :: "url list \<Rightarrow> (url \<Rightarrow> int) \<Rightarrow> nat \<Rightarrow> (url \<Rightarrow> nat) \<Rightarrow> Canary \<Rightarrow> bool" where
  "swrr_inv cands w k cnt c \<longleftrightarrow>
     ca_initialized c \<and> (\<Sum>u \<in> set cands. cnt u) = k
     \<and> (\<forall>u \<in> set cands. ca_serverWeights c u = Some (w u)
          \<and> ca_currentWeights c u = Some (credit cands w k cnt u)
          \<and> - total cands w < credit cands w k cnt u)"

text \<open>What the claims assume of the candidates.\<close>

definition swrr_ok :: "url list \<Rightarrow> (url \<Rightarrow> int) \<Rightarrow> bool" where
  "swrr_ok cands w \<longleftrightarrow>
     cands \<noteq> [] \<and> distinct cands \<and> [] \<notin> set cands \<and> (\<forall>u \<in> set cands. 0 < w u)
     \<and> (int (length cands) + 1) * total cands w < 2 ^ 63"

lemma total_pos: "swrr_ok cands w \<Longrightarrow> 0 < total cands w"
  by (intro sum_pos) (auto simp: swrr_ok_def)

lemma sum_credit:
  assumes "(\<Sum>u \<in> set cands. cnt u) = k"
  shows "(\<Sum>u \<in> set cands. credit cands w k cnt u) = 0"
proof -
  have "(\<Sum>u \<in> set cands. credit cands w k cnt u)
      = int k * total cands w - total cands w * int (\<Sum>u \<in> set cands. cnt u)"
    by (simp add: sum_subtractf sum_distrib_left)
  then show ?thesis by (simp add: assms)
qed

lemma credit_upper:
  assumes ok: "swrr_ok cands w" and sm: "(\<Sum>u \<in> set cands. cnt u) = k" and u: "u \<in> set cands"
    and lo: "\<And>v. v \<in> set cands \<Longrightarrow> - total cands w < credit cands w k cnt v"
  shows "credit cands w k cnt u \<le> (int (length cands) - 1) * total cands w"
proof -
  let ?R = "set cands - {u}"
  have "(\<Sum>v \<in> ?R. - total cands w) \<le> (\<Sum>v \<in> ?R. credit cands w k cnt v)"
    using lo by (intro sum_mono) (auto simp: less_imp_le)
  moreover have "credit cands w k cnt u + (\<Sum>v \<in> ?R. credit cands w k cnt v) = 0"
    using sum_credit [OF sm, of w] u by (simp add: sum.remove [of "set cands" u])
  moreover have "int (card ?R) = int (length cands) - 1"
    using ok u by (cases cands) (auto simp: swrr_ok_def distinct_card)
  ultimately show ?thesis by (simp add: algebra_simps)
qed

lemma bumped_credit:
  assumes ok: "swrr_ok cands w" and inv: "swrr_inv cands w k cnt c" and u: "u \<in> set cands"
  shows "bumped c u = credit cands w k cnt u + w u"
proof -
  let ?W = "total cands w"
  have lo: "- ?W < credit cands w k cnt u" and up: "credit cands w k cnt u \<le> (int (length cands) - 1) * ?W"
    using inv ok u credit_upper [OF ok, of cnt k u] by (auto simp: swrr_inv_def)
  have w: "0 < w u" "w u \<le> ?W" using ok u by (auto simp: swrr_ok_def intro: member_le_sum less_imp_le)
  have "?W \<le> int (length cands) * ?W" using ok total_pos [OF ok] by (cases cands) (auto simp: swrr_ok_def)
  moreover have "int (length cands) * ?W + ?W < 2 ^ 63"
    using ok by (simp add: swrr_ok_def algebra_simps)
  ultimately have "?W < 2 ^ 63" and "int (length cands) * ?W < 2 ^ 63"
    using total_pos [OF ok] by linarith+
  then have "in_i64 (credit cands w k cnt u + w u)"
    using lo up w by (simp add: in_i64_def algebra_simps)
  with inv u show ?thesis by (simp add: bumped_def map_get_def swrr_inv_def i64_id)
qed

text \<open>Some candidate has a positive bumped weight, so the largest one is positive.\<close>

lemma exists_positive_bump:
  assumes ok: "swrr_ok cands w" and inv: "swrr_inv cands w k cnt c"
  shows "\<exists>u \<in> set cands. 0 < bumped c u"
proof (rule ccontr)
  assume "\<not> (\<exists>u \<in> set cands. 0 < bumped c u)"
  then have "(\<Sum>u \<in> set cands. bumped c u) \<le> 0" by (intro sum_nonpos) (auto simp: not_less)
  moreover have "(\<Sum>u \<in> set cands. bumped c u) = (\<Sum>u \<in> set cands. credit cands w k cnt u + w u)"
    using bumped_credit [OF ok inv] by (intro sum.cong) auto
  moreover have "\<dots> = total cands w"
    using sum_credit [of cnt cands k w] inv by (simp add: swrr_inv_def sum.distrib)
  ultimately show False using total_pos [OF ok] by linarith
qed

lemma Canary_Select_unfold:
  assumes ok: "swrr_ok cands w" and inv: "swrr_inv cands w k cnt c"
  shows "\<exists>b \<in> set cands. 0 < bumped c b
     \<and> Canary_Select c cands stats pri =
         (c\<lparr>ca_currentWeights := (\<lambda>u. if u \<in> set cands then Some (bumped c u) else ca_currentWeights c u)
              (b \<mapsto> i64 (bumped c b - total cands w))\<rparr>, b)"
proof -
  have d: "distinct cands" "cands \<noteq> []" "[] \<notin> set cands" using ok by (auto simp: swrr_ok_def)
  have W: "sum_list (map w cands) = total cands w" using d by (simp add: sum_list_distinct_conv_sum_set)
  have "total cands w \<le> (int (length cands) + 1) * total cands w"
    using total_pos [OF ok] by (simp add: algebra_simps)
  then have small: "total cands w < 2 ^ 63" using ok by (simp add: swrr_ok_def)
  have t: "total_loop cands (c, 0) = (c, total cands w)"
    using total_loop_sum [of cands c w 0] ok inv small by (auto simp: W swrr_inv_def swrr_ok_def)
  obtain b k' where p: "pick_loop cands (c, [], - 1073741824) =
      (c\<lparr>ca_currentWeights := (\<lambda>u. if u \<in> set cands then Some (bumped c u) else ca_currentWeights c u)\<rparr>, b, k')"
    and k': "\<forall>u \<in> set cands. bumped c u \<le> k'"
    and b: "b = [] \<and> k' = - 1073741824 \<or> b \<in> set cands \<and> k' = bumped c b"
    using pick_loop_effect [OF d(1), of c "[]" "- 1073741824"] by blast
  have "0 < k'" using exists_positive_bump [OF ok inv] k' by force
  with b have b': "b \<in> set cands" "k' = bumped c b" by auto
  then have "b \<noteq> []" using d by auto
  have i: "ca_initialized c" using inv by (simp add: swrr_inv_def)
  have "Canary_Select c cands stats pri =
      (c\<lparr>ca_currentWeights := (\<lambda>u. if u \<in> set cands then Some (bumped c u) else ca_currentWeights c u)
           (b \<mapsto> i64 (bumped c b - total cands w))\<rparr>, b)"
    using d total_pos [OF ok] \<open>b \<noteq> []\<close> b' by (simp add: Canary_Select_def t p i map_get_def)
  with b' \<open>0 < k'\<close> show ?thesis by blast
qed

lemma swrr_step:
  assumes ok: "swrr_ok cands w" and inv: "swrr_inv cands w k cnt c"
  shows "\<exists>b \<in> set cands. snd (Canary_Select c cands stats pri) = b
     \<and> swrr_inv cands w (Suc k) (cnt(b := Suc (cnt b))) (fst (Canary_Select c cands stats pri))"
proof -
  let ?W = "total cands w"
  obtain b where b: "b \<in> set cands" "0 < bumped c b" and eq: "Canary_Select c cands stats pri =
      (c\<lparr>ca_currentWeights := (\<lambda>u. if u \<in> set cands then Some (bumped c u) else ca_currentWeights c u)
           (b \<mapsto> i64 (bumped c b - ?W))\<rparr>, b)"
    using Canary_Select_unfold [OF ok inv, of stats pri] by blast
  let ?cnt = "cnt(b := Suc (cnt b))"
  have bu: "bumped c u = credit cands w k cnt u + w u" if "u \<in> set cands" for u
    using bumped_credit [OF ok inv that] .
  have nb: "i64 (bumped c b - ?W) = credit cands w (Suc k) ?cnt b"
  proof -
    have "bumped c b < 2 ^ 63" using in_i64_i64 by (simp add: bumped_def in_i64_def)
    moreover have "?W \<le> (int (length cands) + 1) * ?W" using total_pos [OF ok] by (simp add: algebra_simps)
    then have "?W < 2 ^ 63" using ok by (simp add: swrr_ok_def)
    ultimately have "in_i64 (bumped c b - ?W)" using b total_pos [OF ok] by (simp add: in_i64_def)
    then have "i64 (bumped c b - ?W) = bumped c b - ?W" by (rule i64_id)
    also have "\<dots> = credit cands w (Suc k) ?cnt b" using bu [OF b(1)] by (simp add: algebra_simps)
    finally show ?thesis .
  qed
  have "(\<Sum>u \<in> set cands. ?cnt u) = Suc k"
  proof -
    have "(\<Sum>u \<in> set cands. ?cnt u) = ?cnt b + (\<Sum>u \<in> set cands - {b}. ?cnt u)"
      using b(1) by (simp only: sum.remove [OF finite_set b(1)])
    also have "(\<Sum>u \<in> set cands - {b}. ?cnt u) = (\<Sum>u \<in> set cands - {b}. cnt u)"
      by (rule sum.cong) auto
    finally have "(\<Sum>u \<in> set cands. ?cnt u) = Suc (\<Sum>u \<in> set cands. cnt u)"
      by (simp add: sum.remove [OF finite_set b(1), of cnt])
    then show ?thesis using inv b(1) by (simp add: swrr_inv_def)
  qed
  moreover have "credit cands w (Suc k) ?cnt u = bumped c u" if "u \<in> set cands" "u \<noteq> b" for u
    using bu [OF that(1)] that(2) by (simp add: algebra_simps)
  moreover have "- ?W < bumped c u" if "u \<in> set cands" for u
    using bu [OF that] inv ok that by (auto simp: swrr_inv_def swrr_ok_def intro: less_trans add_strict_mono)
  moreover have "- ?W < credit cands w (Suc k) ?cnt b" using nb bu [OF b(1)] b(2) by (simp add: algebra_simps)
  ultimately have "swrr_inv cands w (Suc k) ?cnt (fst (Canary_Select c cands stats pri))"
    using inv nb by (auto simp: swrr_inv_def eq)
  then show ?thesis using b(1) by (simp add: eq)
qed

section \<open>Runs\<close>

lemma swrr_run:
  assumes ok: "swrr_ok cands w" and inv: "swrr_inv cands w k cnt c"
  shows "let (c', us) = select_run Canary_Select c (map (Pair cands) xs)
         in set us \<subseteq> set cands \<and> length us = length xs
            \<and> swrr_inv cands w (k + length xs) (\<lambda>u. cnt u + count_list us u) c'"
  using inv
proof (induction xs arbitrary: c k cnt)
  case (Cons x xs)
  obtain stats pri where x: "x = (stats, pri)" by (cases x)
  obtain c1 b where s1: "Canary_Select c cands stats pri = (c1, b)" by fastforce
  have b: "b \<in> set cands" and inv1: "swrr_inv cands w (Suc k) (cnt(b := Suc (cnt b))) c1"
    using swrr_step [OF ok Cons.prems, of stats pri] by (simp_all add: s1)
  obtain c2 us where s2: "select_run Canary_Select c1 (map (Pair cands) xs) = (c2, us)" by fastforce
  have eq: "(\<lambda>u. (cnt(b := Suc (cnt b))) u + count_list us u) = (\<lambda>u. cnt u + count_list (b # us) u)"
    by auto
  from Cons.IH [OF inv1] b show ?case by (simp add: x s1 s2 eq [simplified])
qed simp

text \<open>
  The weight that the first call gives to a server, and the state of a canary that has read its
  weights and served nothing.
\<close>

definition configured_weight :: "stats_map \<Rightarrow> url \<Rightarrow> int" where
  "configured_weight stats u =
     (case stats u of None \<Rightarrow> 1 | Some s \<Rightarrow> if ss_Weight s \<le> 0 then 1 else ss_Weight s)"

lemma swrr_inv_init:
  assumes "swrr_ok cands (configured_weight stats)" and "set cands \<subseteq> dom stats"
  shows "swrr_inv cands (configured_weight stats) 0 (\<lambda>u. 0) (initWeights stats new_Canary)"
  using assms total_pos [OF assms(1)]
  by (auto simp: swrr_inv_def initWeights_def new_Canary_def configured_weight_def dom_def split: option.splits)

lemma first_run:
  assumes "cands \<noteq> []"
  shows "select_run Canary_Select new_Canary (map (Pair cands) ((stats, pri) # xs))
       = select_run Canary_Select (initWeights stats new_Canary) (map (Pair cands) ((stats, pri) # xs))"
proof -
  have "Canary_Select new_Canary cands stats pri = Canary_Select (initWeights stats new_Canary) cands stats pri"
    using assms by (simp add: Canary_Select_def new_Canary_def initWeights_def)
  then show ?thesis by simp
qed

lemma swrr_first_run:
  assumes ok: "swrr_ok cands (configured_weight stats)" and st: "set cands \<subseteq> dom stats"
    and us: "us = snd (select_run Canary_Select new_Canary (map (Pair cands) ((stats, pri) # xs)))"
  shows "set us \<subseteq> set cands" and "(\<Sum>u \<in> set cands. count_list us u) = Suc (length xs)"
    and "u \<in> set cands \<Longrightarrow>
      - total cands (configured_weight stats)
        < credit cands (configured_weight stats) (Suc (length xs)) (count_list us) u"
proof -
  have "cands \<noteq> []" using ok by (simp add: swrr_ok_def)
  then have us': "us = snd (select_run Canary_Select (initWeights stats new_Canary) (map (Pair cands) ((stats, pri) # xs)))"
    using us first_run by metis
  note r = swrr_run [OF ok swrr_inv_init [OF ok st], of "(stats, pri) # xs", folded us']
  show "set us \<subseteq> set cands" using r us' by (auto simp: Let_def case_prod_beta)
  show "(\<Sum>u \<in> set cands. count_list us u) = Suc (length xs)"
    using r us' by (simp add: Let_def case_prod_beta swrr_inv_def)
  show "- total cands (configured_weight stats)
        < credit cands (configured_weight stats) (Suc (length xs)) (count_list us) u" if "u \<in> set cands"
    using r us' that by (simp add: Let_def case_prod_beta swrr_inv_def)
qed

text \<open>
  C10. The canary split is exact. A new canary that serves \<open>m\<close> times the total weight of its candidates, while they
  stay the same, sends exactly \<open>m\<close> times its configured weight to every candidate (with 90 and 10
  configured, exactly 10 in every 100 requests). Weights of zero or less count as 1; the weights must be small
  enough for the 64-bit sums.
\<close>

theorem canary_exact_split:
  assumes "swrr_ok cands (configured_weight stats)" and "set cands \<subseteq> dom stats"
    and "int (length ((stats, pri) # xs)) = m * (\<Sum>u \<in> set cands. configured_weight stats u)"
    and "v \<in> set cands"
  shows "int (count_list (snd (select_run Canary_Select new_Canary (map (Pair cands) ((stats, pri) # xs)))) v)
       = m * configured_weight stats v"
proof -
  let ?w = "configured_weight stats" and ?W = "total cands (configured_weight stats)"
  define us where "us = snd (select_run Canary_Select new_Canary (map (Pair cands) ((stats, pri) # xs)))"
  note r = swrr_first_run [OF assms(1,2) us_def]
  have W: "0 < ?W" by (rule total_pos [OF assms(1)])
  have k: "int (Suc (length xs)) = m * ?W" using assms(3) by simp
  have le: "int (count_list us u) \<le> m * ?w u" if "u \<in> set cands" for u
  proof -
    have "- ?W < m * ?W * ?w u - ?W * int (count_list us u)"
      using r(3) [OF that] by (simp only: k)
    then have "?W * (int (count_list us u) - m * ?w u) < ?W * 1" by (simp add: algebra_simps)
    then show ?thesis using W by (simp only: mult_less_cancel_left_pos)
  qed
  have eq: "(\<Sum>u \<in> set cands. int (count_list us u)) = (\<Sum>u \<in> set cands. m * ?w u)"
    using r(2) k by (simp add: sum_distrib_left [symmetric] of_nat_sum [symmetric] del: of_nat_sum)
  show ?thesis
  proof (rule ccontr)
    assume "int (count_list (snd (select_run Canary_Select new_Canary (map (Pair cands) ((stats, pri) # xs)))) v)
      \<noteq> m * ?w v"
    then have "int (count_list us v) < m * ?w v" using le [OF assms(4)] by (simp add: us_def)
    then have "(\<Sum>u \<in> set cands. int (count_list us u)) < (\<Sum>u \<in> set cands. m * ?w u)"
      using le assms(4) by (intro sum_strict_mono_ex1) auto
    with eq show False by simp
  qed
qed

theorem canary_exact_split_witness:
  "int (count_list (snd (select_run Canary_Select new_Canary (map (Pair [''a'', ''b''])
      (replicate 4 ([''a'' \<mapsto> new_stats ''a'' ''a'' 3, ''b'' \<mapsto> new_stats ''b'' ''b'' 1], ''LOW''))))) ''a'') = 3"
proof -
  let ?st = "[''a'' \<mapsto> new_stats ''a'' ''a'' 3, ''b'' \<mapsto> new_stats ''b'' ''b'' 1]"
  have w: "configured_weight ?st ''a'' = 3" "configured_weight ?st ''b'' = 1"
    by (simp_all add: configured_weight_def new_stats_def)
  have ok: "swrr_ok [''a'', ''b''] (configured_weight ?st)" by (simp add: swrr_ok_def w)
  have "int (count_list (snd (select_run Canary_Select new_Canary
      (map (Pair [''a'', ''b'']) ((?st, ''LOW'') # replicate 3 (?st, ''LOW''))))) ''a'')
      = 1 * configured_weight ?st ''a''"
    by (rule canary_exact_split [OF ok]) (simp_all add: w)
  then show ?thesis by (simp add: w numeral_eq_Suc)
qed

text \<open>
  The canary split is smooth: at every point of the run, not only after whole rounds, a
  candidate has received less than one request more than its proportional share.
\<close>

theorem canary_never_ahead:
  assumes "swrr_ok cands (configured_weight stats)" and "set cands \<subseteq> dom stats" and "v \<in> set cands"
  shows "(\<Sum>u \<in> set cands. configured_weight stats u)
           * (int (count_list (snd (select_run Canary_Select new_Canary (map (Pair cands) ((stats, pri) # xs)))) v) - 1)
       < int (length ((stats, pri) # xs)) * configured_weight stats v"
  using swrr_first_run(3) [OF assms(1,2) refl assms(3), where pri = pri and xs = xs] by (simp add: algebra_simps)

theorem canary_never_ahead_witness:
  "4 * (int (count_list (snd (select_run Canary_Select new_Canary (map (Pair [''a'', ''b''])
      [([''a'' \<mapsto> new_stats ''a'' ''a'' 3, ''b'' \<mapsto> new_stats ''b'' ''b'' 1], ''LOW''), (Map.empty, ''LOW'')]))) ''a'') - 1)
   < 2 * 3"
proof -
  let ?st = "[''a'' \<mapsto> new_stats ''a'' ''a'' 3, ''b'' \<mapsto> new_stats ''b'' ''b'' 1]"
  have w: "configured_weight ?st ''a'' = 3" "configured_weight ?st ''b'' = 1"
    by (simp_all add: configured_weight_def new_stats_def)
  have ok: "swrr_ok [''a'', ''b''] (configured_weight ?st)" by (simp add: swrr_ok_def w)
  show ?thesis
    using canary_never_ahead [OF ok, where v = "''a''" and pri = "''LOW''" and xs = "[(Map.empty, ''LOW'')]"]
    by (simp add: w)
qed

end
