(* ===== verification/Drift.thy ===== *)
theory Drift
  imports Canary
begin

text \<open>
  How far the current weights of the canary algorithm can drift apart while the candidates change from call to call, as servers fail, recover and are excluded. They
  stay bounded, so that the smallest number from which \<^verbatim>\<open>Select\<close> searches the maximum, \<^verbatim>\<open>-1 << 30\<close>, is below all of them and a candidate is always found.
\<close>

section \<open>The weights as numbers\<close>

text \<open>
  \<open>V\<close> are the servers, \<open>w\<close> their weights, \<open>cur\<close> their current weights, which sum up to zero. The sum over any \<open>k\<close> of \<open>n\<close> servers is bounded from below by \<open>k (n - k)\<close> times
  twice the total weight.
\<close>

definition swrr_bounded :: "url set \<Rightarrow> (url \<Rightarrow> int) \<Rightarrow> (url \<Rightarrow> int) \<Rightarrow> bool" where
  "swrr_bounded V w cur \<longleftrightarrow> sum cur V = 0
     \<and> (\<forall>S \<subseteq> V. - (2 * sum w V * int (card S) * (int (card V) - int (card S))) \<le> sum cur S)"

text \<open>One call: the candidates \<open>C\<close> gain their weights, and the chosen one, \<open>x\<close>, loses their sum.\<close>

definition swrr_next :: "url set \<Rightarrow> (url \<Rightarrow> int) \<Rightarrow> url \<Rightarrow> (url \<Rightarrow> int) \<Rightarrow> url \<Rightarrow> int" where
  "swrr_next C w x cur u = cur u + (if u \<in> C then w u else 0) - (if u = x then sum w C else 0)"

lemma sum_swrr_next:
  assumes "finite S"
  shows "sum (swrr_next C w x cur) S = sum cur S + sum w (S \<inter> C) - (if x \<in> S then sum w C else 0)"
  using assms by (simp add: swrr_next_def sum.distrib sum_subtractf sum.inter_restrict)

text \<open>
  The servers of \<open>S\<close> lose only when the chosen \<open>x\<close> is among them and another candidate \<open>y\<close> is not. Then \<open>x\<close> and \<open>y\<close> are close to each other, and the bounds for one server more and
  for one server less leave room for the loss.
\<close>

lemma swrr_outflow:
  assumes V: "finite V" "\<forall>u \<in> V. 0 < w u" and S: "S \<subseteq> V" "x \<in> S" and y: "y \<in> V - S" "cur y + w y \<le> cur x + w x"
    and b: "swrr_bounded V w cur"
  shows "- (2 * sum w V * int (card S) * (int (card V) - int (card S))) + sum w V \<le> sum cur S"
proof -
  have f: "finite S" using S(1) V(1) by (rule finite_subset)
  define k n T where "k = int (card S)" and "n = int (card V)" and "T = sum w V"
  have c: "int (card (insert y S)) = k + 1" "int (card (S - {x})) = k - 1"
    using f y(1) S(2) by (auto simp: k_def card_Suc_Diff1 dest: card_Suc_Diff1)
  have "- (2 * T * (k + 1) * (n - (k + 1))) \<le> sum cur (insert y S)"
    using b S(1) y(1) c(1) unfolding swrr_bounded_def T_def n_def by (metis DiffD1 insert_subset)
  moreover have "- (2 * T * (k - 1) * (n - (k - 1))) \<le> sum cur (S - {x})"
    using b S(1) c(2) unfolding swrr_bounded_def T_def n_def by (metis Diff_subset subset_trans)
  moreover have "sum cur (insert y S) = sum cur S + cur y" "sum cur (S - {x}) = sum cur S - cur x"
    using f y(1) S(2) by (simp_all add: sum_diff1)
  moreover have "w x \<le> T" "0 < w y" using V S y(1) by (auto simp: T_def intro: member_le_sum less_imp_le)
  then have "- T \<le> cur x - cur y" using y(2) by linarith
  moreover have "2 * T * (k + 1) * (n - (k + 1)) + 2 * T * (k - 1) * (n - (k - 1)) = 4 * T * k * (n - k) - 4 * T"
    by (simp add: algebra_simps)
  moreover have "0 \<le> T" unfolding T_def using V(2) by (intro sum_nonneg) (auto simp: less_imp_le)
  ultimately have "- (2 * T * k * (n - k)) + T \<le> sum cur S" by linarith
  then show ?thesis by (simp add: k_def n_def T_def)
qed

lemma swrr_bounded_next:
  assumes V: "finite V" "\<forall>u \<in> V. 0 < w u" and C: "C \<subseteq> V" "x \<in> C" "\<forall>y \<in> C. cur y + w y \<le> cur x + w x"
    and b: "swrr_bounded V w cur"
  shows "swrr_bounded V w (swrr_next C w x cur)"
  unfolding swrr_bounded_def
proof (intro conjI allI impI)
  show "sum (swrr_next C w x cur) V = 0"
    using b C by (simp add: sum_swrr_next [OF V(1)] swrr_bounded_def Int_absorb1 subset_iff)
  fix S assume S: "S \<subseteq> V"
  have f: "finite S" "finite C" using S C(1) V(1) by (auto intro: finite_subset)
  have pos: "0 \<le> sum w D" if "D \<subseteq> V" for D using that V(2) by (intro sum_nonneg) (auto simp: less_imp_le)
  let ?g = "- (2 * sum w V * int (card S) * (int (card V) - int (card S)))"
  have g: "?g \<le> sum cur S" using b S by (simp add: swrr_bounded_def)
  consider (out) "x \<notin> S" | (inside) "x \<in> S" "C \<subseteq> S" | (flow) y where "x \<in> S" "y \<in> C" "y \<notin> S" by blast
  then show "?g \<le> sum (swrr_next C w x cur) S"
  proof cases
    case out
    have "0 \<le> sum w (S \<inter> C)" using C(1) by (intro pos) blast
    then show ?thesis using out g by (simp add: sum_swrr_next [OF f(1)])
  next
    case inside
    then show ?thesis using g by (simp add: sum_swrr_next [OF f(1)] Int_absorb1)
  next
    case flow
    have "?g + sum w V \<le> sum cur S" using swrr_outflow [OF V S flow(1) _ _ b, of y] flow C by auto
    moreover have "sum w C \<le> sum w V" using C(1) V by (intro sum_mono2) (auto simp: less_imp_le)
    moreover have "0 \<le> sum w (S \<inter> C)" using C(1) by (intro pos) blast
    ultimately show ?thesis using flow(1) by (simp add: sum_swrr_next [OF f(1)])
  qed
qed

lemma swrr_bounded_single:
  assumes "finite V" "\<forall>u \<in> V. 0 < w u" "swrr_bounded V w cur" "u \<in> V"
  shows "\<bar>cur u\<bar> \<le> 2 * sum w V * (int (card V) - 1)"
proof -
  have "1 \<le> card V" using assms(1,4) by (simp add: Suc_le_eq card_gt_0_iff) blast
  then have c: "int (card (V - {u})) = int (card V) - 1" using assms(1,4) by (simp add: of_nat_diff)
  have "- (2 * sum w V * int (card {u}) * (int (card V) - int (card {u}))) \<le> sum cur {u}"
    using assms(3,4) unfolding swrr_bounded_def by blast
  moreover have "- (2 * sum w V * int (card (V - {u})) * (int (card V) - int (card (V - {u})))) \<le> sum cur (V - {u})"
    using assms(3) unfolding swrr_bounded_def by blast
  moreover have "sum cur (V - {u}) = - cur u" using assms(1,3,4) by (simp add: sum_diff1 swrr_bounded_def)
  ultimately show ?thesis unfolding c by (simp add: abs_le_iff)
qed


section \<open>The algorithm\<close>

text \<open>A canary that has read its weights has those of \<open>w\<close>, and its current weights are bounded.\<close>

definition canary_fits :: "url set \<Rightarrow> (url \<Rightarrow> int) \<Rightarrow> Canary \<Rightarrow> bool" where
  "canary_fits V w c \<longleftrightarrow> (ca_initialized c \<longrightarrow>
     (\<forall>u \<in> V. ca_serverWeights c u = Some (w u)) \<and> swrr_bounded V w (map_get (ca_currentWeights c)))"

text \<open>Weights that are small enough for the bound to stay above \<^verbatim>\<open>-1 << 30\<close>.\<close>

definition weights_fit :: "url set \<Rightarrow> (url \<Rightarrow> int) \<Rightarrow> bool" where
  "weights_fit V w \<longleftrightarrow> finite V \<and> [] \<notin> V \<and> (\<forall>u \<in> V. 0 < w u) \<and> sum w V * int (card V) \<le> 2 ^ 29"

lemma canary_fits_init:
  assumes "\<forall>u \<in> V. stats u \<noteq> None \<and> configured_weight stats u = w u" and "weights_fit V w" and "canary_fits V w c"
  shows "canary_fits V w (initWeights stats c)" and "ca_initialized (initWeights stats c)"
proof -
  have z: "swrr_bounded V w (map_get (\<lambda>u. map_option (\<lambda>s. 0) (stats u)))"
  proof -
    have m: "map_get (\<lambda>u. map_option (\<lambda>s. 0) (stats u)) = (\<lambda>u. 0)" by (auto simp: map_get_def fun_eq_iff split: option.splits)
    have "0 \<le> sum w V" using assms(2) by (intro sum_nonneg) (auto simp: weights_fit_def less_imp_le)
    then show ?thesis using assms(2) card_mono [of V] unfolding swrr_bounded_def m weights_fit_def by simp
  qed
  have "map_option (\<lambda>s. if ss_Weight s \<le> 0 then 1 else ss_Weight s) (stats u) = Some (w u)" if "u \<in> V" for u
    using assms(1) that by (cases "stats u") (auto simp: configured_weight_def)
  with z show "canary_fits V w (initWeights stats c)" using assms(3) by (simp add: canary_fits_def initWeights_def)
  show "ca_initialized (initWeights stats c)" by (simp add: initWeights_def)
qed

lemma weights_fit_bump:
  assumes "weights_fit V w" and "swrr_bounded V w cur" and "u \<in> V"
  shows "\<bar>cur u\<bar> \<le> 2 ^ 30 - 2 * w u" and "w u \<le> 2 ^ 29" and "0 < w u" and "sum w V \<le> 2 ^ 29"
proof -
  have V: "finite V" "\<forall>u \<in> V. 0 < w u" and l: "sum w V * int (card V) \<le> 2 ^ 29" using assms(1) by (simp_all add: weights_fit_def)
  show p: "0 < w u" using V assms(3) by simp
  have m: "w u \<le> sum w V" using V assms(3) by (intro member_le_sum) (auto simp: less_imp_le)
  have "1 \<le> int (card V)" using V(1) assms(3) by (auto simp: Suc_le_eq card_gt_0_iff)
  then have "sum w V * 1 \<le> sum w V * int (card V)" using p m by (intro mult_left_mono) auto
  then show "sum w V \<le> 2 ^ 29" "w u \<le> 2 ^ 29" using l m by linarith+
  have "2 * sum w V * (int (card V) - 1) = 2 * (sum w V * int (card V)) - 2 * sum w V" by (simp add: algebra_simps)
  then show "\<bar>cur u\<bar> \<le> 2 ^ 30 - 2 * w u"
    using swrr_bounded_single [OF V assms(2,3)] l m by simp
qed

lemma Canary_Select_fits:
  assumes fit: "weights_fit V w" "canary_fits V w c" and st: "\<forall>u \<in> V. stats u \<noteq> None \<and> configured_weight stats u = w u"
    and cands: "distinct cands" "cands \<noteq> []" "set cands \<subseteq> V"
  shows "snd (Canary_Select c cands stats pri) \<in> set cands \<and> canary_fits V w (fst (Canary_Select c cands stats pri))"
proof -
  define c0 where "c0 = initWeights stats c"
  have i: "ca_initialized c0" "\<forall>u \<in> V. ca_serverWeights c0 u = Some (w u)" "swrr_bounded V w (map_get (ca_currentWeights c0))"
    using canary_fits_init [OF st fit] by (simp_all add: c0_def canary_fits_def)
  let ?cur = "map_get (ca_currentWeights c0)" and ?W = "sum w (set cands)"
  have V: "finite V" "\<forall>u \<in> V. 0 < w u" "[] \<notin> V" using fit(1) by (simp_all add: weights_fit_def)
  note bd = weights_fit_bump [OF fit(1) i(3)]
  obtain v where v: "v \<in> set cands" using cands(2) by (cases cands) auto
  have "?W \<le> sum w V" using V cands(3) by (intro sum_mono2) (auto simp: less_imp_le)
  then have W: "?W \<le> 2 ^ 29" using bd(4) v cands(3) by (meson order_trans subsetD)
  have Wp: "0 < ?W" using V cands by (intro sum_pos) auto
  have t: "total_loop cands (c0, 0) = (c0, ?W)"
    using total_loop_sum [of cands c0 w 0] i(2) V(2) cands W by (auto simp: sum_list_distinct_conv_sum_set)
  have bu: "bumped c0 u = ?cur u + w u \<and> \<bar>?cur u + w u\<bar> \<le> 2 ^ 30 \<and> - (2 ^ 30) < ?cur u + w u" if "u \<in> set cands" for u
  proof -
    have u: "u \<in> V" using that cands(3) by blast
    have "\<bar>?cur u + w u\<bar> \<le> 2 ^ 30 \<and> - (2 ^ 30) < ?cur u + w u" using bd(1-3) [OF u] by (simp add: abs_le_iff)
    moreover have "map_get (ca_serverWeights c0) u = w u" using i(2) u by (simp add: map_get_def)
    moreover have "in_i64 (?cur u + w u)" using calculation(1) by (simp add: in_i64_def abs_le_iff)
    ultimately show ?thesis by (simp add: bumped_def i64_id)
  qed
  obtain b k' where p: "pick_loop cands (c0, [], - 1073741824) =
      (c0\<lparr>ca_currentWeights := (\<lambda>u. if u \<in> set cands then Some (bumped c0 u) else ca_currentWeights c0 u)\<rparr>, b, k')"
    and k': "\<forall>u \<in> set cands. bumped c0 u \<le> k'" "b = [] \<and> k' = - 1073741824 \<or> b \<in> set cands \<and> k' = bumped c0 b"
    using pick_loop_effect [OF cands(1), of c0 "[]" "- 1073741824"] by blast
  have "k' \<noteq> - 1073741824" using bu [OF v] k'(1) v by fastforce
  then have b: "b \<in> set cands" "k' = bumped c0 b" using k'(2) by auto
  have ne: "b \<noteq> []" using b(1) cands(3) V(3) by blast
  let ?c1 = "c0\<lparr>ca_currentWeights := (\<lambda>u. if u \<in> set cands then Some (bumped c0 u) else ca_currentWeights c0 u)
           (b \<mapsto> i64 (bumped c0 b - ?W))\<rparr>"
  have "(if \<not> ca_initialized c then initWeights stats c else c) = c0" by (simp add: c0_def initWeights_def)
  then have sel: "Canary_Select c cands stats pri = (?c1, b)"
    using cands(2) Wp ne b(1) by (simp add: Canary_Select_def t p map_get_def cong: if_cong)
  have nb: "i64 (bumped c0 b - ?W) = bumped c0 b - ?W"
    using bu [OF b(1)] W Wp by (intro i64_id) (auto simp: in_i64_def abs_le_iff)
  have "map_get (ca_currentWeights ?c1) = swrr_next (set cands) w b ?cur"
    using bu b(1) nb by (auto simp: fun_eq_iff swrr_next_def map_get_def)
  moreover have "swrr_bounded V w (swrr_next (set cands) w b ?cur)"
    using k'(1) b bu by (intro swrr_bounded_next [OF V(1,2) cands(3) _ _ i(3)]) auto
  ultimately have "canary_fits V w ?c1" using i(2) by (simp add: canary_fits_def)
  then show ?thesis using b(1) by (simp add: sel)
qed

end
