(* ===== verification/Dispatch.thy ===== *)
theory Dispatch
  imports Breaker Drift
begin

text \<open>
  The per-service router, \<^verbatim>\<open>src/internal/balancer/router.go\<close>, and the choice of the algorithm object
  (\<^verbatim>\<open>getAlgorithm\<close> of \<^verbatim>\<open>src/internal/service/manager.go\<close>). The Go struct holds pointers to the collector, to the
  breakers and to the algorithm object; the record here holds the objects themselves.
\<close>

section \<open>The algorithm object\<close>

datatype Algorithm =
    RoundRobin "64 word"
  | LeastConnections
  | CanaryAlgo Canary
  | WeightedScore

text \<open>
  The dynamic dispatch of \<^verbatim>\<open>algo.Select\<close>. The state is the object and the stream of numbers that
  \<^verbatim>\<open>rand.Float64()\<close> will return.
\<close>

fun Algorithm_Select :: "(Algorithm \<times> (nat \<Rightarrow> f64)) algorithm" where
  "Algorithm_Select (RoundRobin n, rnd) cands stats pri =
     (let (n1, u) = RoundRobin_Select n cands stats pri in ((RoundRobin n1, rnd), u))"
| "Algorithm_Select (LeastConnections, rnd) cands stats pri =
     (let (x, u) = LeastConnections_Select () cands stats pri in ((LeastConnections, rnd), u))"
| "Algorithm_Select (CanaryAlgo c, rnd) cands stats pri =
     (let (c1, u) = Canary_Select c cands stats pri in ((CanaryAlgo c1, rnd), u))"
| "Algorithm_Select (WeightedScore, rnd) cands stats pri =
     (let (rnd1, u) = WeightedScore_Select rnd cands stats pri in ((WeightedScore, rnd1), u))"

definition getAlgorithm :: "string \<Rightarrow> Algorithm" where
  "getAlgorithm name =
     (if name = ''roundrobin'' then RoundRobin 0
      else if name = ''leastconn'' then LeastConnections
      else if name = ''canary'' then CanaryAlgo new_Canary
      else WeightedScore)"

lemma snd_Algorithm_Select:
  "snd (Algorithm_Select (RoundRobin n, rnd) cands stats pri) = snd (RoundRobin_Select n cands stats pri)"
  "snd (Algorithm_Select (LeastConnections, rnd) cands stats pri) = snd (LeastConnections_Select () cands stats pri)"
  "snd (Algorithm_Select (CanaryAlgo c, rnd) cands stats pri) = snd (Canary_Select c cands stats pri)"
  "snd (Algorithm_Select (WeightedScore, rnd) cands stats pri) = snd (WeightedScore_Select rnd cands stats pri)"
  by (simp_all add: case_prod_beta Let_def)

interpretation algo: selection Algorithm_Select
proof
  fix st :: "Algorithm \<times> (nat \<Rightarrow> f64)" and stats pri
  obtain a rnd where st: "st = (a, rnd)" by (cases st)
  show "snd (Algorithm_Select st [] stats pri) = []"
    unfolding st by (cases a) (simp_all only: snd_Algorithm_Select
        rr.select_none lc.select_none ws.select_none canary.select_none)
  show "snd (Algorithm_Select st cands stats pri) \<in> set cands \<or> snd (Algorithm_Select st cands stats pri) = []" for cands
    unfolding st by (cases a) (simp_all only: snd_Algorithm_Select
        rr.select_some lc.select_some ws.select_some canary.select_some)
qed

lemma Algorithm_Select_other:
  assumes "\<And>c. a \<noteq> CanaryAlgo c" and "cands \<noteq> []"
  shows "snd (Algorithm_Select (a, rnd) cands stats pri) \<in> set cands"
    and "fst (fst (Algorithm_Select (a, rnd) cands stats pri)) \<noteq> CanaryAlgo c"
  using assms
  by (cases a; simp only: snd_Algorithm_Select rr.total_some lc.total_some ws.total_some; simp add: Let_def case_prod_beta)+

section \<open>The router\<close>

record Router =
  ro_servers :: "url list"
  ro_metrics :: Collector
  ro_breakers :: "url \<rightharpoonup> Breaker"
  ro_algo :: Algorithm

definition NewRouter :: "url list \<Rightarrow> Collector \<Rightarrow> (url \<rightharpoonup> Breaker) \<Rightarrow> Algorithm \<Rightarrow> Router" where
  "NewRouter servers m b algo =
     \<lparr>ro_servers = servers, ro_metrics = m, ro_breakers = b, ro_algo = algo\<rparr>"

text \<open>
  The candidate loop. Each \<^verbatim>\<open>IsOpen\<close> reads the clock anew: \<open>tf url\<close> is its reading for \<open>url\<close>. A healthy server without a
  breaker is a nil dereference.
\<close>

fun candidate_loop ::
  "(url \<Rightarrow> time) \<Rightarrow> url list \<Rightarrow> url set \<Rightarrow> stats_map \<Rightarrow> (url \<rightharpoonup> Breaker) \<Rightarrow> url list \<Rightarrow> url list result" where
  "candidate_loop tf [] excludedMap stats breakers candidates = Inr candidates"
| "candidate_loop tf (url # urls) excludedMap stats breakers candidates =
     (if url \<in> excludedMap then candidate_loop tf urls excludedMap stats breakers candidates
      else case stats url of
          None \<Rightarrow> candidate_loop tf urls excludedMap stats breakers candidates
        | Some s \<Rightarrow>
            (if \<not> ss_IsHealthy s then candidate_loop tf urls excludedMap stats breakers candidates
             else case breakers url of
                 None \<Rightarrow> Inl (GoPanic ''nil breaker'')
               | Some b \<Rightarrow>
                   (if \<not> IsOpen (tf url) b
                    then candidate_loop tf urls excludedMap stats breakers (candidates @ [url])
                    else candidate_loop tf urls excludedMap stats breakers candidates)))"

text \<open>
  \<^verbatim>\<open>Select\<close>: \<open>tc\<close> is the clock reading of the final \<^verbatim>\<open>CanSend\<close>. It returns the router with the algorithm object and
  the breaker of the chosen server updated, the rest of the random numbers, and the URL or the fault.
\<close>

definition Router_Select ::
  "(url \<Rightarrow> time) \<Rightarrow> time \<Rightarrow> (nat \<Rightarrow> f64) \<Rightarrow> string \<Rightarrow> url list \<Rightarrow> Router \<Rightarrow> (Router \<times> (nat \<Rightarrow> f64)) \<times> url result" where
  "Router_Select tf tc rnd priority excluded r =
     (let stats = Snapshot (ro_metrics r); excludedMap = set excluded
      in case candidate_loop tf (ro_servers r) excludedMap stats (ro_breakers r) [] of
           Inl e \<Rightarrow> ((r, rnd), Inl e)
         | Inr candidates \<Rightarrow>
             (if length candidates = 0 then ((r, rnd), Inl (GoError ''no healthy servers available''))
              else let ((algo1, rnd1), chosen) = Algorithm_Select (ro_algo r, rnd) candidates stats priority;
                       r1 = r\<lparr>ro_algo := algo1\<rparr>
                   in if chosen = [] then ((r1, rnd1), Inl (GoError ''routing algorithm returned no server''))
                      else case ro_breakers r1 chosen of
                          None \<Rightarrow> ((r1, rnd1), Inl (GoPanic ''nil breaker''))
                        | Some b \<Rightarrow>
                            (let (b1, ok) = CanSend tc b; r2 = r1\<lparr>ro_breakers := (ro_breakers r1)(chosen \<mapsto> b1)\<rparr>
                             in if \<not> ok then ((r2, rnd1), Inl (GoError ''chosen server circuit is open''))
                                else ((r2, rnd1), Inr chosen))))"

section \<open>The candidates\<close>

text \<open>A server that the loop lets through.\<close>

definition eligible :: "(url \<Rightarrow> time) \<Rightarrow> url set \<Rightarrow> stats_map \<Rightarrow> (url \<rightharpoonup> Breaker) \<Rightarrow> url \<Rightarrow> bool" where
  "eligible tf excl stats breakers u \<longleftrightarrow>
     u \<notin> excl \<and> (\<exists>s. stats u = Some s \<and> ss_IsHealthy s) \<and> (\<exists>b. breakers u = Some b \<and> \<not> IsOpen (tf u) b)"

lemma candidate_loop_filter:
  "candidate_loop tf urls excl stats breakers acc = Inr cs \<Longrightarrow> cs = acc @ filter (eligible tf excl stats breakers) urls"
proof (induction urls arbitrary: acc)
  case (Cons u urls)
  from Cons.prems show ?case
    by (auto simp: eligible_def split: if_splits option.splits dest!: Cons.IH)
qed simp

lemma candidate_loop_total:
  "set urls \<subseteq> dom breakers \<Longrightarrow>
   candidate_loop tf urls excl stats breakers acc = Inr (acc @ filter (eligible tf excl stats breakers) urls)"
  by (induction urls arbitrary: acc) (auto simp: eligible_def split: option.splits)

section \<open>What a selection guarantees\<close>

text \<open>
  C9. The router only sends to a server that may be sent to. A URL returned by \<^verbatim>\<open>Select\<close> is one of the service's
  servers, is not excluded, is healthy, and has a breaker that did not read as open when the candidates were
  filtered and that admitted the request; the call changes nothing but the algorithm object and
  that breaker.
\<close>

theorem router_select_safe:
  assumes "Router_Select tf tc rnd pri excl r = ((r', rnd'), Inr u)"
  shows "u \<in> set (ro_servers r) \<and> u \<notin> set excl
       \<and> (\<exists>s. co_servers (ro_metrics r) u = Some s \<and> ss_IsHealthy s)
       \<and> (\<exists>b. ro_breakers r u = Some b \<and> \<not> IsOpen (tf u) b \<and> snd (CanSend tc b)
            \<and> ro_breakers r' = (ro_breakers r)(u \<mapsto> fst (CanSend tc b)))
       \<and> ro_servers r' = ro_servers r \<and> ro_metrics r' = ro_metrics r"
proof -
  let ?stats = "Snapshot (ro_metrics r)"
  obtain cs where cs: "candidate_loop tf (ro_servers r) (set excl) ?stats (ro_breakers r) [] = Inr cs"
    using assms by (auto simp: Router_Select_def Let_def split: sum.splits)
  obtain a1 rnd1 v where v: "Algorithm_Select (ro_algo r, rnd) cs ?stats pri = ((a1, rnd1), v)"
    by (metis surj_pair)
  have u: "v = u" "u \<noteq> []"
    and b: "\<exists>b. ro_breakers r u = Some b \<and> snd (CanSend tc b)
        \<and> r' = r\<lparr>ro_algo := a1, ro_breakers := (ro_breakers r)(u \<mapsto> fst (CanSend tc b))\<rparr>"
    using assms cs v
    by (auto simp: Router_Select_def Let_def case_prod_beta split: if_splits option.splits)
  have "u \<in> set cs" using algo.select_candidate [of "(ro_algo r, rnd)" cs ?stats pri] v u by simp
  then have "u \<in> set (ro_servers r)" and "eligible tf (set excl) ?stats (ro_breakers r) u"
    using candidate_loop_filter [OF cs] by simp_all
  with b show ?thesis by (auto simp: eligible_def Snapshot_def)
qed

text \<open>A router as \<^verbatim>\<open>buildInstance\<close> makes it: every server has a breaker, and no URL is empty.\<close>

definition router_ok :: "Router \<Rightarrow> bool" where
  "router_ok r \<longleftrightarrow> set (ro_servers r) \<subseteq> dom (ro_breakers r) \<and> [] \<notin> set (ro_servers r)"

lemma router_select_none:
  assumes "router_ok r" and "\<And>u. u \<in> set (ro_servers r) \<Longrightarrow> \<not> eligible tf (set excl) (co_servers (ro_metrics r)) (ro_breakers r) u"
  shows "Router_Select tf tc rnd pri excl r = ((r, rnd), Inl (GoError ''no healthy servers available''))"
proof -
  have "filter (eligible tf (set excl) (co_servers (ro_metrics r)) (ro_breakers r)) (ro_servers r) = []"
    using assms(2) by (simp add: filter_empty_conv)
  then show ?thesis
    using assms(1) by (simp add: Router_Select_def router_ok_def candidate_loop_total Snapshot_def Let_def)
qed

section \<open>Routers in use\<close>

text \<open>
  The states of a router over time: calls of \<^verbatim>\<open>Select\<close> and, in between, anything that requests, health checks and reloads do to the
  collector and the breakers. None of these adds or removes a breaker or changes a configured weight.
\<close>

inductive router_reachable :: "Router \<Rightarrow> Router \<Rightarrow> bool" for r0 where
  start: "router_reachable r0 r0"
| select: "router_reachable r0 r \<Longrightarrow> Router_Select tf tc rnd pri excl r = ((r', rnd'), x) \<Longrightarrow> router_reachable r0 r'"
| change: "router_reachable r0 r \<Longrightarrow> dom b = dom (ro_breakers r)
    \<Longrightarrow> (\<And>u. map_option ss_Weight (co_servers m u) = map_option ss_Weight (co_servers (ro_metrics r) u))
    \<Longrightarrow> router_reachable r0 (r\<lparr>ro_metrics := m, ro_breakers := b\<rparr>)"

text \<open>What the canary algorithm needs: servers that differ, with statistics, and weights far from the limits of its search for the maximum.\<close>

definition canary_servers :: "url list \<Rightarrow> stats_map \<Rightarrow> bool" where
  "canary_servers servers stats \<longleftrightarrow> distinct servers \<and> set servers \<subseteq> dom stats
     \<and> (\<Sum>u \<in> set servers. configured_weight stats u) * int (length servers) \<le> 2 ^ 29"

definition router_inv :: "url list \<Rightarrow> (url \<Rightarrow> int) \<Rightarrow> Router \<Rightarrow> bool" where
  "router_inv servers w r \<longleftrightarrow> ro_servers r = servers \<and> set servers \<subseteq> dom (ro_breakers r) \<and> [] \<notin> set servers \<and> (\<forall>c. ro_algo r = CanaryAlgo c \<longrightarrow>
     distinct servers \<and> weights_fit (set servers) w \<and> canary_fits (set servers) w c
     \<and> (\<forall>u \<in> set servers. co_servers (ro_metrics r) u \<noteq> None \<and> configured_weight (co_servers (ro_metrics r)) u = w u))"

lemma configured_weight_pos: "0 < configured_weight stats u"
  by (simp add: configured_weight_def split: option.splits)

lemma router_inv_New:
  assumes "set servers \<subseteq> dom b" and "[] \<notin> set servers" and "name = ''canary'' \<Longrightarrow> canary_servers servers (co_servers m)"
  shows "router_inv servers (configured_weight (co_servers m)) (NewRouter servers m b (getAlgorithm name))"
  using assms
  by (auto simp: router_inv_def NewRouter_def router_ok_def getAlgorithm_def canary_servers_def weights_fit_def canary_fits_def
      new_Canary_def configured_weight_pos distinct_card split: if_splits)

text \<open>On such a router every algorithm answers with a candidate, and the canary algorithm keeps its weights bounded.\<close>

lemma Algorithm_Select_inv:
  assumes "router_inv servers w r" and cs: "cs = filter P servers" "cs \<noteq> []"
    and sel: "Algorithm_Select (ro_algo r, rnd) cs (co_servers (ro_metrics r)) pri = ((a, rnd1), u)"
  shows "u \<in> set cs \<and> router_inv servers w (r\<lparr>ro_algo := a\<rparr>)"
proof (cases "\<exists>c. ro_algo r = CanaryAlgo c")
  case True
  then obtain c where c: "ro_algo r = CanaryAlgo c" by blast
  then have "distinct cs" "set cs \<subseteq> set servers" using assms(1) cs(1) by (auto simp: router_inv_def)
  then have "u \<in> set cs \<and> canary_fits (set servers) w (fst (Canary_Select c cs (co_servers (ro_metrics r)) pri))"
    using Canary_Select_fits [of "set servers" w c "co_servers (ro_metrics r)" cs pri] assms c
    by (auto simp: router_inv_def Let_def case_prod_beta)
  then show ?thesis using assms c by (auto simp: router_inv_def router_ok_def Let_def case_prod_beta)
next
  case False
  then have "u \<in> set cs" "\<And>c. a \<noteq> CanaryAlgo c"
    using Algorithm_Select_other [OF _ cs(2), of "ro_algo r" rnd "co_servers (ro_metrics r)" pri] sel by auto
  then show ?thesis using assms(1) by (auto simp: router_inv_def router_ok_def)
qed

lemma router_inv_candidates:
  assumes "router_inv servers w r"
  shows "candidate_loop tf (ro_servers r) excl stats (ro_breakers r) [] = Inr (filter (eligible tf excl stats (ro_breakers r)) servers)"
proof -
  have "ro_servers r = servers" "set servers \<subseteq> dom (ro_breakers r)" using assms by (auto simp: router_inv_def router_ok_def)
  then show ?thesis by (simp add: candidate_loop_total)
qed

lemma router_inv_select:
  assumes "router_inv servers w r" and "Router_Select tf tc rnd pri excl r = ((r', rnd'), x)"
  shows "router_inv servers w r'"
proof -
  let ?stats = "co_servers (ro_metrics r)"
  let ?cs = "filter (eligible tf (set excl) ?stats (ro_breakers r)) servers"
  have l: "candidate_loop tf (ro_servers r) (set excl) ?stats (ro_breakers r) [] = Inr ?cs"
    using router_inv_candidates [OF assms(1)] .
  show ?thesis
  proof (cases "?cs = []")
    case True
    then show ?thesis using assms l by (simp add: Router_Select_def Snapshot_def)
  next
    case False
    obtain a rnd1 u where sel: "Algorithm_Select (ro_algo r, rnd) ?cs ?stats pri = ((a, rnd1), u)" by (metis surj_pair)
    have i: "u \<in> set ?cs" "router_inv servers w (r\<lparr>ro_algo := a\<rparr>)" using Algorithm_Select_inv [OF assms(1) refl False sel] by blast+
    then obtain b where "ro_breakers r u = Some b" by (auto simp: eligible_def)
    then have "r' = r\<lparr>ro_algo := a\<rparr> \<or> (\<exists>b1. r' = r\<lparr>ro_algo := a, ro_breakers := (ro_breakers r)(u \<mapsto> b1)\<rparr>)"
      using assms(2) l False sel by (auto simp: Router_Select_def Snapshot_def Let_def case_prod_beta split: if_splits)
    then show ?thesis using i(2) by (auto simp: router_inv_def router_ok_def)
  qed
qed

lemma configured_weight_cong:
  assumes "map_option ss_Weight (m u) = map_option ss_Weight (m' u)"
  shows "configured_weight m u = configured_weight m' u \<and> (m u = None \<longleftrightarrow> m' u = None)"
  using assms by (cases "m u"; cases "m' u") (simp_all add: configured_weight_def)

lemma router_reachable_inv:
  assumes "router_reachable r0 r" and "router_inv servers w r0"
  shows "router_inv servers w r"
  using assms
proof (induction rule: router_reachable.induct)
  case (change r b m)
  have "configured_weight (co_servers m) u = configured_weight (co_servers (ro_metrics r)) u
      \<and> (co_servers m u = None \<longleftrightarrow> co_servers (ro_metrics r) u = None)" for u
    by (rule configured_weight_cong) (rule change.hyps(3))
  then show ?case using change.IH [OF change.prems] change.hyps(2) by (simp add: router_inv_def router_ok_def)
qed (auto intro: router_inv_select)

lemma router_select_some:
  assumes inv: "router_inv servers w r"
    and v: "v \<in> set servers" "eligible tf (set excl) (co_servers (ro_metrics r)) (ro_breakers r) v"
    and clock: "\<And>u. u \<in> set servers \<Longrightarrow> tf u \<le> tc"
  shows "\<exists>r' rnd' u. Router_Select tf tc rnd pri excl r = ((r', rnd'), Inr u)"
proof -
  let ?stats = "co_servers (ro_metrics r)"
  let ?cs = "filter (eligible tf (set excl) ?stats (ro_breakers r)) servers"
  have cs: "candidate_loop tf (ro_servers r) (set excl) ?stats (ro_breakers r) [] = Inr ?cs"
    using router_inv_candidates [OF inv] .
  have ne: "?cs \<noteq> []" using v by (auto simp: filter_empty_conv)
  obtain a1 rnd1 u where sel: "Algorithm_Select (ro_algo r, rnd) ?cs ?stats pri = ((a1, rnd1), u)"
    by (metis surj_pair)
  then have "u \<in> set ?cs" using Algorithm_Select_inv [OF inv refl ne sel] by blast
  then obtain b where u: "u \<in> set servers" "ro_breakers r u = Some b" "\<not> IsOpen (tf u) b"
    by (auto simp: eligible_def)
  have "snd (CanSend tc b)" using breaker_gate.filtered_is_admitted [OF u(3) clock [OF u(1)]] .
  moreover have "u \<noteq> []" using inv u(1) by (auto simp: router_ok_def router_inv_def)
  ultimately show ?thesis
    using cs ne sel u(2) by (auto simp: Router_Select_def Snapshot_def Let_def case_prod_beta)
qed

text \<open>
  C4. The router finds a server exactly when there is one. Whatever algorithm was configured, after any sequence of selections, with any changes of health, metrics and breakers in
  between and with clock readings that do not run backwards, \<^verbatim>\<open>Select\<close> returns a URL if and only if some server is not excluded,
  healthy and behind a breaker that is not open; so, without other goroutines in between, neither the error
  ``chosen server circuit is open'' nor the error ``routing algorithm returned no server'' occurs. For the canary algorithm the number of servers times their total weight is at most \<open>2 ^ 29\<close>, so
  that no current weight reaches the number from which it searches the maximum.
\<close>

theorem router_select_available:
  assumes "router_reachable (NewRouter servers m b (getAlgorithm name)) r"
    and "set servers \<subseteq> dom b" and "[] \<notin> set servers" and "name = ''canary'' \<Longrightarrow> canary_servers servers (co_servers m)"
    and "\<And>u. u \<in> set servers \<Longrightarrow> tf u \<le> tc"
  shows "(\<exists>u. snd (Router_Select tf tc rnd pri excl r) = Inr u)
     \<longleftrightarrow> (\<exists>v \<in> set servers. eligible tf (set excl) (co_servers (ro_metrics r)) (ro_breakers r) v)"
proof -
  have inv: "router_inv servers (configured_weight (co_servers m)) r"
    by (rule router_reachable_inv [OF assms(1) router_inv_New [OF assms(2-4)]])
  then have ok: "router_ok r" "ro_servers r = servers" by (simp_all add: router_inv_def router_ok_def)
  show ?thesis
    using router_select_none [OF ok(1), where tf = tf and excl = excl and tc = tc and rnd = rnd and pri = pri, unfolded ok(2)]
      router_select_some [OF inv _ _ assms(5), where excl = excl and rnd = rnd and pri = pri]
    by fastforce
qed

text \<open>A router with two servers, for the witnesses: the first one is open.\<close>

definition demo_router :: Router where
  "demo_router =
     NewRouter [''a'', ''b''] (New 0 [''a'', ''b''] [] [])
       [''a'' \<mapsto> (NewBreaker 1 10)\<lparr>br_state := StateOpen, br_lastFailureTime := 100\<rparr>, ''b'' \<mapsto> NewBreaker 1 10]
       LeastConnections"

lemmas demo_router_defs =
  demo_router_def NewRouter_def New_def new_stats_def breaker_defs time_Sub_def

lemma demo_router_select:
  "Router_Select (\<lambda>u. 105) 106 rnd ''LOW'' [] demo_router
     = ((demo_router, rnd), Inr ''b'')"
  by (simp add: demo_router_defs Router_Select_def Snapshot_def LeastConnections_Select_def)

theorem router_select_safe_witness:
  "''b'' \<in> set (ro_servers demo_router) \<and> (\<exists>s. co_servers (ro_metrics demo_router) ''b'' = Some s \<and> ss_IsHealthy s)
     \<and> (\<exists>b. ro_breakers demo_router ''b'' = Some b \<and> \<not> IsOpen 105 b \<and> snd (CanSend 106 b))"
  using router_select_safe [OF demo_router_select] by blast

text \<open>The same servers behind the canary algorithm, and the router after one request.\<close>

definition demo_canary_router :: Router where
  "demo_canary_router = NewRouter [''a'', ''b''] (ro_metrics demo_router) (ro_breakers demo_router) (getAlgorithm ''canary'')"

lemma demo_canary_simps:
  "co_servers (ro_metrics demo_router) = [''a'' \<mapsto> new_stats ''a'' ''a'' 1, ''b'' \<mapsto> new_stats ''b'' ''b'' 1]"
  by (simp add: demo_router_defs)

lemma demo_canary_select:
  "\<exists>a. Router_Select (\<lambda>u. 105) 106 (\<lambda>i. 0) ''LOW'' [] demo_canary_router = ((demo_canary_router\<lparr>ro_algo := a\<rparr>, \<lambda>i. 0), Inr ''b'')"
  by (simp add: demo_canary_router_def demo_router_defs Router_Select_def Snapshot_def getAlgorithm_def Canary_Select_def new_Canary_def initWeights_def i64_def map_get_def)

theorem router_select_available_witness:
  "\<exists>u. snd (Router_Select (\<lambda>u. 105) 106 (\<lambda>i. 0) ''LOW'' []
      (fst (fst (Router_Select (\<lambda>u. 105) 106 (\<lambda>i. 0) ''LOW'' [] demo_canary_router)))) = Inr u"
proof -
  define r where "r = fst (fst (Router_Select (\<lambda>u. 105) 106 (\<lambda>i. 0) ''LOW'' [] demo_canary_router))"
  obtain a where sel: "Router_Select (\<lambda>u. 105) 106 (\<lambda>i. 0) ''LOW'' [] demo_canary_router = ((demo_canary_router\<lparr>ro_algo := a\<rparr>, \<lambda>i. 0), Inr ''b'')"
    using demo_canary_select by blast
  then have "router_reachable demo_canary_router r"
    using router_reachable.select [OF router_reachable.start sel] by (simp add: r_def)
  then have reach: "router_reachable (NewRouter [''a'', ''b''] (ro_metrics demo_router) (ro_breakers demo_router) (getAlgorithm ''canary'')) r"
    by (simp add: demo_canary_router_def)
  have cs: "canary_servers [''a'', ''b''] (co_servers (ro_metrics demo_router))"
    by (simp add: canary_servers_def demo_canary_simps configured_weight_def new_stats_def)
  have d: "set [''a'', ''b''] \<subseteq> dom (ro_breakers demo_router)" by (simp add: demo_router_def NewRouter_def)
  have "(\<exists>u. snd (Router_Select (\<lambda>u. 105) 106 (\<lambda>i. 0) ''LOW'' [] r) = Inr u)
     \<longleftrightarrow> (\<exists>v \<in> set [''a'', ''b'']. eligible (\<lambda>u. 105) (set []) (co_servers (ro_metrics r)) (ro_breakers r) v)"
    by (rule router_select_available [OF reach d _ cs]) simp_all
  moreover have "ro_metrics r = ro_metrics demo_router \<and> ro_breakers r ''b'' = Some (NewBreaker 1 10)"
    using sel by (simp add: r_def demo_canary_router_def NewRouter_def demo_router_def)
  ultimately show ?thesis unfolding r_def [symmetric]
    by (simp add: eligible_def demo_canary_simps new_stats_def breaker_defs)
qed

end
