(* ===== verification/GoText.thy ===== *)
theory GoText
  imports Prelude
begin

text \<open>
  The functions of packages \<^verbatim>\<open>strings\<close>, \<^verbatim>\<open>unicode\<close> and \<^verbatim>\<open>net/textproto\<close> that the routing code and the
  middlewares call, on strings as sequences of bytes. A rule or a header value that comes out of
  \<^verbatim>\<open>encoding/json\<close> is valid UTF-8, where the bytes below 128 are exactly the ASCII characters; a loop over
  the runes of such a string that only tests for ASCII characters is therefore a loop over its bytes.
\<close>

section \<open>Character classes\<close>

definition byte :: "char \<Rightarrow> nat" where
  "byte c = of_char c"

text \<open>\<^verbatim>\<open>unicode.IsSpace(rune(b))\<close> and \<^verbatim>\<open>unicode.IsLetter(rune(b))\<close> for a byte: the Latin-1 part of Unicode.\<close>

definition IsSpace :: "char \<Rightarrow> bool" where
  "IsSpace c \<longleftrightarrow> (let n = byte c in (9 \<le> n \<and> n \<le> 13) \<or> n = 32 \<or> n = 133 \<or> n = 160)"

definition IsLetter :: "char \<Rightarrow> bool" where
  "IsLetter c \<longleftrightarrow> (let n = byte c in
     (65 \<le> n \<and> n \<le> 90) \<or> (97 \<le> n \<and> n \<le> 122) \<or> n = 170 \<or> n = 181 \<or> n = 186
     \<or> (192 \<le> n \<and> n \<noteq> 215 \<and> n \<noteq> 247))"

text \<open>\<^verbatim>\<open>string(rune(b))\<close>, the UTF-8 encoding of a rune below 256, as \<^verbatim>\<open>%c\<close> prints it.\<close>

definition rune_string :: "char \<Rightarrow> string" where
  "rune_string c =
     (let n = byte c in if n < 128 then [c] else [char_of (192 + n div 64), char_of (128 + n mod 64)])"

section \<open>Trimming\<close>

text \<open>
  \<^verbatim>\<open>strings.TrimSpace\<close> removes leading and trailing runes with the property White Space. A string starts (ends) with
  such a rune exactly when it starts (ends) with its encoding, so the function is a matter of prefixes and suffixes.
\<close>

definition space_encodings :: "string list" where
  "space_encodings = map (map char_of)
     ([[9], [10], [11], [12], [13], [32], [194, 133], [194, 160], [225, 154, 128],
       [226, 128, 168], [226, 128, 169], [226, 128, 175], [226, 129, 159], [227, 128, 128]]
      @ map (\<lambda>i. [226, 128, 128 + i]) [0 ..< 11 :: nat])"

function trim_with :: "string list \<Rightarrow> string \<Rightarrow> string" where
  "trim_with encs s =
     (case find (\<lambda>e. e \<noteq> [] \<and> HasPrefix s e) encs of
        None \<Rightarrow> s
      | Some e \<Rightarrow> trim_with encs (drop (length e) s))"
  by pat_completeness auto
termination
proof (relation "measure (\<lambda>(encs, s). length s)")
  show "wf (measure (\<lambda>(encs, s). length s))" by simp
next
  fix encs :: "string list" and s e
  assume "find (\<lambda>e. e \<noteq> [] \<and> HasPrefix s e) encs = Some e"
  then have "e \<noteq> []" and "HasPrefix s e" by (auto simp: find_Some_iff)
  then show "((encs, drop (length e) s), encs, s) \<in> measure (\<lambda>(encs, s). length s)"
    by (auto simp: HasPrefix_iff)
qed

declare trim_with.simps [simp del]

definition TrimSpace :: "string \<Rightarrow> string" where
  "TrimSpace s =
     rev (trim_with (map rev space_encodings) (rev (trim_with space_encodings s)))"

text \<open>A byte that no encoding of a white space rune starts or ends with.\<close>

definition solid :: "char \<Rightarrow> bool" where
  "solid c \<longleftrightarrow> (let n = byte c in 32 < n \<and> n < 128)"

lemma trim_with_solid:
  assumes "s = [] \<or> (\<forall>e \<in> set encs. e \<noteq> [] \<longrightarrow> hd e \<noteq> hd s)"
  shows "trim_with encs s = s"
proof -
  have "find (\<lambda>e. e \<noteq> [] \<and> HasPrefix s e) encs = None"
    using assms by (auto simp: find_None_iff HasPrefix_iff)
  then show ?thesis by (simp add: trim_with.simps [of encs s])
qed

lemma solid_not_space:
  assumes "solid c" and "e \<in> set space_encodings"
  shows "hd e \<noteq> c \<and> last e \<noteq> c"
proof -
  have "\<forall>e \<in> set space_encodings. \<not> solid (hd e) \<and> \<not> solid (last e)"
    by (simp add: space_encodings_def solid_def byte_def upt_rec Let_def)
  with assms show ?thesis by blast
qed

lemma space_encodings_nonempty: "[] \<notin> set space_encodings"
  by (auto simp: space_encodings_def)

lemma TrimSpace_solid [simp]:
  assumes "s = [] \<or> solid (hd s) \<and> solid (last s)"
  shows "TrimSpace s = s"
proof -
  have l: "trim_with space_encodings s = s"
    using assms solid_not_space by (intro trim_with_solid) blast
  have "trim_with (map rev space_encodings) (rev s) = rev s"
    using assms solid_not_space space_encodings_nonempty
    by (intro trim_with_solid) (auto simp: hd_rev)
  with l show ?thesis by (simp add: TrimSpace_def)
qed

section \<open>Searching, case and splitting\<close>

text \<open>\<^verbatim>\<open>strings.Index(s, "(")\<close> for a one-byte pattern; \<open>None\<close> stands for \<^verbatim>\<open>-1\<close>.\<close>

fun IndexByte :: "string \<Rightarrow> char \<Rightarrow> nat option" where
  "IndexByte [] c = None"
| "IndexByte (x # xs) c = (if x = c then Some 0 else map_option Suc (IndexByte xs c))"

text \<open>
  \<^verbatim>\<open>strings.ToUpper\<close> on ASCII. The code applies it to the method name of a rule, which is then compared with
  the method of a request, an ASCII token.
\<close>

definition upper_byte :: "char \<Rightarrow> char" where
  "upper_byte c = (let n = byte c in if 97 \<le> n \<and> n \<le> 122 then char_of (n - 32) else c)"

definition lower_byte :: "char \<Rightarrow> char" where
  "lower_byte c = (let n = byte c in if 65 \<le> n \<and> n \<le> 90 then char_of (n + 32) else c)"

definition ToUpper :: "string \<Rightarrow> string" where
  "ToUpper s = map upper_byte s"

lemma IndexByte_append: "c \<notin> set xs \<Longrightarrow> IndexByte (xs @ c # ys) c = Some (length xs)"
  by (induction xs) auto

lemma IndexByte_Some: "IndexByte s c = Some i \<Longrightarrow> i < length s \<and> s ! i = c \<and> c \<notin> set (take i s)"
proof (induction s arbitrary: i)
  case (Cons x xs)
  then show ?case by (auto split: if_splits)
qed simp

lemma IndexByte_None: "IndexByte s c = None \<longleftrightarrow> c \<notin> set s"
  by (induction s) auto

end
