(* ===== verification/Http.thy ===== *)
theory Http
  imports GoText
begin

text \<open>
  The parts of \<^verbatim>\<open>net/http\<close> and \<^verbatim>\<open>net\<close> that the handlers work on: header maps with their canonical keys, the request
  with the values that middlewares put into its context, and \<^verbatim>\<open>net.SplitHostPort\<close>.
\<close>

section \<open>Headers\<close>

type_synonym Header = "string \<rightharpoonup> string list"

definition alpha_byte :: "char \<Rightarrow> bool" where
  "alpha_byte c \<longleftrightarrow> (let n = byte c in (65 \<le> n \<and> n \<le> 90) \<or> (97 \<le> n \<and> n \<le> 122))"

definition digit_byte :: "char \<Rightarrow> bool" where
  "digit_byte c \<longleftrightarrow> 48 \<le> byte c \<and> byte c \<le> 57"

definition validHeaderFieldByte :: "char \<Rightarrow> bool" where
  "validHeaderFieldByte c \<longleftrightarrow> alpha_byte c \<or> digit_byte c
     \<or> byte c \<in> {33, 35, 36, 37, 38, 39, 42, 43, 45, 46, 94, 95, 96, 124, 126}"

fun canonical_loop :: "bool \<Rightarrow> string \<Rightarrow> string" where
  "canonical_loop upper [] = []"
| "canonical_loop upper (c # cs) =
     (let c1 = (if upper then upper_byte c else lower_byte c) in c1 # canonical_loop (c1 = CHR ''-'') cs)"

definition CanonicalHeaderKey :: "string \<Rightarrow> string" where
  "CanonicalHeaderKey s = (if list_all validHeaderFieldByte s then canonical_loop True s else s)"

definition Header_Get :: "Header \<Rightarrow> string \<Rightarrow> string" where
  "Header_Get h key =
     (case h (CanonicalHeaderKey key) of Some (v # vs) \<Rightarrow> v | _ \<Rightarrow> [])"

definition Header_Set :: "string \<Rightarrow> string \<Rightarrow> Header \<Rightarrow> Header" where
  "Header_Set key v h = h(CanonicalHeaderKey key \<mapsto> [v])"

definition Header_Add :: "string \<Rightarrow> string \<Rightarrow> Header \<Rightarrow> Header" where
  "Header_Add key v h =
     (let k = CanonicalHeaderKey key
      in h(k \<mapsto> (case h k of None \<Rightarrow> [] | Some vs \<Rightarrow> vs) @ [v]))"

definition Header_Del :: "string \<Rightarrow> Header \<Rightarrow> Header" where
  "Header_Del key h = h(CanonicalHeaderKey key := None)"

lemma Header_Get_Set [simp]:
  "Header_Get (Header_Set k v h) k' =
     (if CanonicalHeaderKey k = CanonicalHeaderKey k' then v else Header_Get h k')"
  by (simp add: Header_Get_def Header_Set_def)

lemma Header_Get_Del [simp]:
  "Header_Get (Header_Del k h) k' =
     (if CanonicalHeaderKey k = CanonicalHeaderKey k' then [] else Header_Get h k')"
  by (simp add: Header_Get_def Header_Del_def)

lemma lower_upper_byte [simp]: "upper_byte (lower_byte c) = upper_byte c"
  by (auto simp: upper_byte_def lower_byte_def byte_def Let_def)

lemma upper_lower_byte [simp]: "lower_byte (upper_byte c) = lower_byte c"
  by (auto simp: upper_byte_def lower_byte_def byte_def Let_def)

lemma upper_byte_idem [simp]: "upper_byte (upper_byte c) = upper_byte c"
  by (auto simp: upper_byte_def byte_def Let_def)

lemma lower_byte_idem [simp]: "lower_byte (lower_byte c) = lower_byte c"
  by (auto simp: lower_byte_def byte_def Let_def)

lemma canonical_loop_idem [simp]: "canonical_loop u (canonical_loop u s) = canonical_loop u s"
  by (induction s arbitrary: u) (auto simp: Let_def)

lemma upper_byte_cases: "upper_byte c = c \<or> alpha_byte c \<and> alpha_byte (upper_byte c)"
  by (auto simp: alpha_byte_def upper_byte_def byte_def Let_def)

lemma lower_byte_cases: "lower_byte c = c \<or> alpha_byte c \<and> alpha_byte (lower_byte c)"
  by (auto simp: alpha_byte_def lower_byte_def byte_def Let_def)

lemma valid_case [simp]:
  "validHeaderFieldByte (upper_byte c) = validHeaderFieldByte c"
  "validHeaderFieldByte (lower_byte c) = validHeaderFieldByte c"
  using upper_byte_cases [of c] lower_byte_cases [of c] unfolding validHeaderFieldByte_def by metis+

lemma valid_canonical_loop [simp]:
  "list_all validHeaderFieldByte (canonical_loop u s) = list_all validHeaderFieldByte s"
  by (induction s arbitrary: u) (auto simp: Let_def)

lemma CanonicalHeaderKey_idem [simp]: "CanonicalHeaderKey (CanonicalHeaderKey s) = CanonicalHeaderKey s"
  by (simp add: CanonicalHeaderKey_def)

text \<open>The canonical forms of the names that the program uses.\<close>

lemma canonical_names [simp]:
  "CanonicalHeaderKey ''X-Backend-URL'' = ''X-Backend-Url''" "CanonicalHeaderKey ''X-Handled-By'' = ''X-Handled-By''"
  "CanonicalHeaderKey ''X-Retry-Count'' = ''X-Retry-Count''" "CanonicalHeaderKey ''X-Attempts'' = ''X-Attempts''"
  "CanonicalHeaderKey ''X-Real-IP'' = ''X-Real-Ip''" "CanonicalHeaderKey ''X-Forwarded-For'' = ''X-Forwarded-For''"
  "CanonicalHeaderKey ''X-Forwarded-Proto'' = ''X-Forwarded-Proto''" "CanonicalHeaderKey ''X-Forwarded-Host'' = ''X-Forwarded-Host''"
  "CanonicalHeaderKey ''X-Request-ID'' = ''X-Request-Id''" "CanonicalHeaderKey ''X-Priority'' = ''X-Priority''"
  "CanonicalHeaderKey ''Content-Type'' = ''Content-Type''" "CanonicalHeaderKey ''Content-Length'' = ''Content-Length''"
  "CanonicalHeaderKey ''X-Content-Type-Options'' = ''X-Content-Type-Options''"
  "CanonicalHeaderKey ''WWW-Authenticate'' = ''Www-Authenticate''" "CanonicalHeaderKey ''Authorization'' = ''Authorization''"
  "CanonicalHeaderKey ''Retry-After'' = ''Retry-After''"
  by code_simp+

section \<open>Requests\<close>

text \<open>
  The context of a request is a list of immutable values; only the keys that this program uses occur.
\<close>

record Context =
  cx_requestID :: "string option"
  cx_priority :: "string option"
  cx_attempt :: "int option"
  cx_excluded :: "url list option"
  cx_deadline :: "time option"

definition background :: Context where
  "background = \<lparr>cx_requestID = None, cx_priority = None, cx_attempt = None, cx_excluded = None, cx_deadline = None\<rparr>"

text \<open>
  \<open>rq_Header\<close> and \<open>rq_Body\<close> are shared by all copies that \<^verbatim>\<open>WithContext\<close> makes: the header map is one object, and the body
  is one stream, which cannot be read any more once it has been closed. A request without a body has \<^verbatim>\<open>http.NoBody\<close>.
\<close>

datatype ReqBody = NoBody | OpenBody string | ClosedBody

record Request =
  rq_Method :: string
  rq_Path :: string
  rq_RequestURI :: string
  rq_Host :: string
  rq_RemoteAddr :: string
  rq_TLS :: bool
  rq_Header :: Header
  rq_Body :: ReqBody
  rq_ctx :: Context

definition WithContext :: "Context \<Rightarrow> Request \<Rightarrow> Request" where
  "WithContext ctx r = r\<lparr>rq_ctx := ctx\<rparr>"

lemma WithContext_simps [simp]:
  "rq_Path (WithContext ctx r) = rq_Path r" "rq_Header (WithContext ctx r) = rq_Header r" "rq_Body (WithContext ctx r) = rq_Body r"
  "rq_ctx (WithContext ctx r) = ctx" "rq_Method (WithContext ctx r) = rq_Method r" "rq_RequestURI (WithContext ctx r) = rq_RequestURI r"
  "rq_RemoteAddr (WithContext ctx r) = rq_RemoteAddr r"
  by (simp_all add: WithContext_def)

section \<open>Host and port\<close>

fun LastIndexByte :: "string \<Rightarrow> char \<Rightarrow> nat option" where
  "LastIndexByte [] c = None"
| "LastIndexByte (x # xs) c =
     (case LastIndexByte xs c of Some i \<Rightarrow> Some (Suc i) | None \<Rightarrow> if x = c then Some 0 else None)"

text \<open>\<^verbatim>\<open>net.SplitHostPort\<close>, of whose results the program uses the host and whether there is an error.\<close>

definition SplitHostPort :: "string \<Rightarrow> string result" where
  "SplitHostPort s =
     (case LastIndexByte s CHR '':'' of
        None \<Rightarrow> Inl (GoError ''missing port in address'')
      | Some i \<Rightarrow>
          (let finish = (\<lambda>host j k.
                 if CHR ''['' \<in> set (drop j s) then Inl (GoError ''unexpected '[' in address'')
                 else if CHR '']'' \<in> set (drop k s) then Inl (GoError ''unexpected ']' in address'')
                 else Inr host)
           in if s ! 0 = CHR ''[''
              then (case IndexByte s CHR '']'' of
                      None \<Rightarrow> Inl (GoError ''missing ']' in address'')
                    | Some end \<Rightarrow>
                        (if end + 1 = length s then Inl (GoError ''missing port in address'')
                         else if end + 1 = i then finish (take (end - 1) (drop 1 s)) 1 (end + 1)
                         else if s ! (end + 1) = CHR '':'' then Inl (GoError ''too many colons in address'')
                         else Inl (GoError ''missing port in address'')))
              else let host = take i s
                   in if CHR '':'' \<in> set host then Inl (GoError ''too many colons in address'')
                      else finish host 0 0))"

lemma LastIndexByte_append [simp]: "c \<notin> set ys \<Longrightarrow> LastIndexByte (xs @ c # ys) c = Some (length xs)"
proof (induction xs)
  case Nil
  have "c \<notin> set zs \<Longrightarrow> LastIndexByte zs c = None" for zs by (induction zs) auto
  with Nil show ?case by simp
qed auto

lemma SplitHostPort_host:
  assumes "CHR '':'' \<notin> set host" and "CHR '':'' \<notin> set port"
    and "CHR ''['' \<notin> set host \<union> set port" and "CHR '']'' \<notin> set host \<union> set port"
  shows "SplitHostPort (host @ CHR '':'' # port) = Inr host"
proof -
  have "(host @ CHR '':'' # port) ! 0 \<noteq> CHR ''[''"
    using assms(3) by (cases host) auto
  with assms show ?thesis by (simp add: SplitHostPort_def)
qed

end
