(* ===== verification/Json.thy ===== *)
theory Json
  imports GoFloat Http
begin

text \<open>
  Decoded JSON and the rules by which \<^verbatim>\<open>encoding/json\<close> stores it into Go values. A value that does not fit is an error; the
  decoder of Go goes on to the end and then reports the first such error, and as no caller looks at the value after an error,
  the readers here stop at it. The text of these errors is left out.
\<close>

section \<open>Values\<close>

text \<open>A number is kept as its literal has it: \<open>JInt\<close> for an integer without fraction and exponent, \<open>JFloat\<close> for every other.\<close>

datatype json =
    JNull
  | JBool bool
  | JInt int
  | JFloat f64
  | JStr string
  | JArr "json list"
  | JObj "(string \<times> json) list"

section \<open>Readers\<close>

text \<open>A reader takes the JSON value and the Go value that is in place; \<^verbatim>\<open>null\<close> leaves that as it is.\<close>

type_synonym 'a reader = "json \<Rightarrow> 'a \<Rightarrow> 'a result"

definition type_error :: "'a result" where
  "type_error = Inl (GoError ''json: cannot unmarshal'')"

fun read_bool :: "bool reader" where
  "read_bool JNull old = Inr old"
| "read_bool (JBool b) old = Inr b"
| "read_bool j old = type_error"

fun read_string :: "string reader" where
  "read_string JNull old = Inr old"
| "read_string (JStr s) old = Inr s"
| "read_string j old = type_error"

fun read_int :: "int reader" where
  "read_int JNull old = Inr old"
| "read_int (JInt n) old = (if in_i64 n then Inr n else type_error)"
| "read_int j old = type_error"

fun read_float :: "f64 reader" where
  "read_float JNull old = Inr old"
| "read_float (JInt n) old = (if \<bar>f64_of_int n\<bar> < 2 ^ 1024 then Inr (f64_of_int n) else type_error)"
| "read_float (JFloat x) old = Inr x"
| "read_float j old = type_error"

text \<open>An array goes into a slice element by element; what the slice holds is overwritten in place.\<close>

fun read_elements :: "json list \<Rightarrow> string list \<Rightarrow> string list result" where
  "read_elements [] old = Inr []"
| "read_elements (j # js) old =
     (case read_string j (case old of [] \<Rightarrow> [] | s # ss \<Rightarrow> s) of
        Inl e \<Rightarrow> Inl e
      | Inr s \<Rightarrow> map_sum id (\<lambda>ss. s # ss) (read_elements js (case old of [] \<Rightarrow> [] | s # ss \<Rightarrow> ss)))"

fun read_strings :: "string list reader" where
  "read_strings JNull old = Inr []"
| "read_strings (JArr js) old = read_elements js old"
| "read_strings j old = type_error"

text \<open>
  Keys are compared without regard to case, as Unicode folds it: besides the ASCII letters, the Kelvin sign stands for \<^verbatim>\<open>k\<close> and the
  long s for \<^verbatim>\<open>s\<close>; no other character folds to an ASCII one.
\<close>

fun fold_name :: "string \<Rightarrow> string" where
  "fold_name [] = []"
| "fold_name (c # cs) =
     (if byte c = 0xE2 \<and> take 2 (map byte cs) = [0x84, 0xAA] then CHR ''K'' # fold_name (drop 2 cs)
      else if byte c = 0xC5 \<and> take 1 (map byte cs) = [0xBF] then CHR ''S'' # fold_name (drop 1 cs)
      else upper_byte c # fold_name cs)"

definition same_key :: "string \<Rightarrow> string \<Rightarrow> bool" where
  "same_key name key \<longleftrightarrow> fold_name key = fold_name name"

text \<open>The fields of a struct: their names, each with what reading it does to the struct. Keys that name no field are ignored.\<close>

type_synonym 'a fields = "(string \<times> 'a reader) list"

definition field :: "string \<Rightarrow> ('a \<Rightarrow> 'b) \<Rightarrow> ('b \<Rightarrow> 'a \<Rightarrow> 'a) \<Rightarrow> 'b reader \<Rightarrow> string \<times> 'a reader" where
  "field name get put read = (name, \<lambda>j x. map_sum id (\<lambda>v. put v x) (read j (get x)))"

fun read_field :: "'a fields \<Rightarrow> string \<Rightarrow> 'a reader" where
  "read_field [] key j x = Inr x"
| "read_field ((name, read) # fs) key j x = (if same_key name key then read j x else read_field fs key j x)"

fun read_members :: "'a fields \<Rightarrow> (string \<times> json) list \<Rightarrow> 'a \<Rightarrow> 'a result" where
  "read_members fs [] x = Inr x"
| "read_members fs ((key, j) # ms) x =
     (case read_field fs key j x of Inl e \<Rightarrow> Inl e | Inr x1 \<Rightarrow> read_members fs ms x1)"

fun read_struct :: "'a fields \<Rightarrow> 'a reader" where
  "read_struct fs JNull old = Inr old"
| "read_struct fs (JObj ms) old = read_members fs ms old"
| "read_struct fs j old = type_error"

text \<open>\<^verbatim>\<open>json.Unmarshal\<close> of a \<^verbatim>\<open>json.RawMessage\<close>, which is empty when its key was absent.\<close>

definition Unmarshal :: "'a reader \<Rightarrow> json option \<Rightarrow> 'a \<Rightarrow> 'a result" where
  "Unmarshal read raw zero =
     (case raw of None \<Rightarrow> Inl (GoError ''unexpected end of JSON input'') | Some j \<Rightarrow> read j zero)"

section \<open>Decoding never panics\<close>

fun no_panic :: "'a result \<Rightarrow> bool" where
  "no_panic (Inr x) \<longleftrightarrow> True"
| "no_panic (Inl (GoError e)) \<longleftrightarrow> True"
| "no_panic (Inl (GoPanic e)) \<longleftrightarrow> False"

lemma no_panic_simps [simp]: "no_panic type_error" "no_panic (map_sum id f x) = no_panic x"
  by (simp add: type_error_def) (cases x rule: no_panic.cases; simp)

lemma no_panic_case: "no_panic x \<Longrightarrow> (\<And>a. x = Inr a \<Longrightarrow> no_panic (f a)) \<Longrightarrow> no_panic (case x of Inl e \<Rightarrow> Inl e | Inr a \<Rightarrow> f a)"
  by (cases x rule: no_panic.cases) auto

lemma no_panic_readers [simp]:
  "no_panic (read_bool j b)" "no_panic (read_string j s)" "no_panic (read_int j i)" "no_panic (read_float j x)"
  by (cases j; simp)+

lemma no_panic_elements [simp]: "no_panic (read_elements js old)"
  by (induction js old rule: read_elements.induct) (auto intro!: no_panic_case)

lemma no_panic_strings [simp]: "no_panic (read_strings j old)"
  by (cases j) simp_all

lemma no_panic_field: "(\<And>j y. no_panic (read j y)) \<Longrightarrow> no_panic (snd (field name get put read) j x)"
  by (simp add: field_def)

lemma no_panic_read_field: "\<forall>f \<in> set fs. \<forall>j x. no_panic (snd f j x) \<Longrightarrow> no_panic (read_field fs key j x)"
  by (induction fs key j x rule: read_field.induct) auto

lemma no_panic_members: "\<forall>f \<in> set fs. \<forall>j x. no_panic (snd f j x) \<Longrightarrow> no_panic (read_members fs ms x)"
  by (induction fs ms x rule: read_members.induct) (auto intro!: no_panic_case no_panic_read_field)

lemma no_panic_struct: "\<forall>f \<in> set fs. \<forall>j x. no_panic (snd f j x) \<Longrightarrow> no_panic (read_struct fs j x)"
  by (cases j) (simp_all add: no_panic_members)

lemma no_panic_Unmarshal [simp]: "(\<And>j. no_panic (read j x)) \<Longrightarrow> no_panic (Unmarshal read raw x)"
  by (simp add: Unmarshal_def split: option.splits)

end
