(* ===== verification/Config.thy ===== *)
theory Config
  imports Json
begin

text \<open>
  The configuration, \<^verbatim>\<open>src/config/config.go\<close>: its structs, the defaults, the validation, and \<^verbatim>\<open>Load\<close> from the point where the
  file has been read and decoded. A pointer is an \<open>option\<close>; where the code ranges over a map, the order of the keys is an
  argument. The program does not own the file system, so the creation of the log directory is left out.
\<close>

section \<open>Data\<close>

record HealthCheckConfig =
  hc_Path :: string
  hc_IntervalSec :: int
  hc_TimeoutSec :: int
  hc_ExpectedStatus :: int

record CircuitBreakerConfig =
  cb_Threshold :: int
  cb_RecoveryTimeoutSec :: int

record LoadBalancerConfig =
  lb_Algorithm :: string
  lb_Sticky :: bool

record ServerConfig =
  sv_URL :: url
  sv_Name :: string
  sv_Weight :: int
  sv_DelayMs :: int
  sv_HealthCheck :: HealthCheckConfig

record RouterConfig =
  rc_Rule :: string
  rc_Priority :: int
  rc_Middlewares :: "string list"
  rc_Service :: string

record ServiceConfig =
  sc_LoadBalancer :: "LoadBalancerConfig option"
  sc_HealthCheck :: "HealthCheckConfig option"
  sc_CircuitBreaker :: "CircuitBreakerConfig option"
  sc_Canary :: bool
  sc_Servers :: "ServerConfig list"

record DashboardAuth =
  da_Username :: string
  da_Password :: string

text \<open>\<^verbatim>\<open>json.RawMessage\<close> holds the text of one JSON value, here that value; it is empty when the key is absent.\<close>

record MiddlewareConfig =
  mc_Type :: string
  mc_Config :: "json option"

record TimeoutConfig =
  tc_HighSec :: int
  tc_MediumSec :: int
  tc_LowSec :: int

record TLSConfig =
  tl_Enabled :: bool
  tl_CertFile :: string
  tl_KeyFile :: string
  tl_AutoGenerate :: bool

record EntryPointConfig =
  ep_Address :: string
  ep_Protocol :: string
  ep_Middlewares :: "string list"
  ep_TLS :: "TLSConfig option"

record ConfigCORS =
  cc_AllowedOrigins :: "string list"
  cc_AllowedMethods :: "string list"
  cc_AllowedHeaders :: "string list"

record Config =
  cf_ListenPort :: int
  cf_DashboardPort :: int
  cf_Servers :: "ServerConfig list"
  cf_Algorithm :: string
  cf_HealthInterval :: int
  cf_BreakerThreshold :: int
  cf_BreakerTimeoutSec :: int
  cf_MetricsIntervalSec :: int
  cf_MaxRetries :: int
  cf_ShutdownTimeoutSec :: int
  cf_RateLimitRPS :: f64
  cf_RateLimitBurst :: int
  cf_PerAttemptTimeoutSec :: int
  cf_RetryBackoffMs :: int
  cf_RetryBackoffMaxMs :: int
  cf_AccessLogPath :: string
  cf_DashboardAuth :: DashboardAuth
  cf_TLS :: TLSConfig
  cf_CORS :: ConfigCORS
  cf_HotReload :: bool
  cf_Middlewares :: "string \<rightharpoonup> MiddlewareConfig option"
  cf_Timeouts :: TimeoutConfig
  cf_EntryPoints :: "string \<rightharpoonup> EntryPointConfig option"
  cf_Routers :: "string \<rightharpoonup> RouterConfig option"
  cf_Services :: "string \<rightharpoonup> ServiceConfig option"

section \<open>Defaults\<close>

text \<open>\<^verbatim>\<open>if x == 0 { x = d }\<close> and \<^verbatim>\<open>if x == "" { x = d }\<close>.\<close>

definition default_int :: "'a::zero \<Rightarrow> 'a \<Rightarrow> 'a" where
  "default_int d x = (if x = 0 then d else x)"

definition default_str :: "string \<Rightarrow> string \<Rightarrow> string" where
  "default_str d x = (if x = [] then d else x)"

definition global_defaults :: "Config \<Rightarrow> Config" where
  "global_defaults c =
     c\<lparr>cf_ListenPort := default_int 8080 (cf_ListenPort c),
       cf_DashboardPort := default_int 8081 (cf_DashboardPort c),
       cf_HealthInterval := default_int 5 (cf_HealthInterval c),
       cf_BreakerThreshold := default_int 3 (cf_BreakerThreshold c),
       cf_BreakerTimeoutSec := default_int 15 (cf_BreakerTimeoutSec c),
       cf_MetricsIntervalSec := default_int 10 (cf_MetricsIntervalSec c),
       cf_Algorithm := default_str ''weighted'' (cf_Algorithm c),
       cf_MaxRetries := default_int 3 (cf_MaxRetries c),
       cf_ShutdownTimeoutSec := default_int 15 (cf_ShutdownTimeoutSec c),
       cf_RateLimitRPS := default_int 100 (cf_RateLimitRPS c),
       cf_RateLimitBurst := default_int 200 (cf_RateLimitBurst c),
       cf_PerAttemptTimeoutSec := default_int 5 (cf_PerAttemptTimeoutSec c),
       cf_RetryBackoffMs := default_int 100 (cf_RetryBackoffMs c),
       cf_RetryBackoffMaxMs := default_int 5000 (cf_RetryBackoffMaxMs c),
       cf_AccessLogPath := default_str ''access.log'' (cf_AccessLogPath c),
       cf_Timeouts :=
         \<lparr>tc_HighSec = default_int 5 (tc_HighSec (cf_Timeouts c)),
          tc_MediumSec = default_int 10 (tc_MediumSec (cf_Timeouts c)),
          tc_LowSec = default_int 20 (tc_LowSec (cf_Timeouts c))\<rparr>\<rparr>"

text \<open>The defaults of a health check, from given values.\<close>

definition health_defaults :: "HealthCheckConfig \<Rightarrow> HealthCheckConfig \<Rightarrow> HealthCheckConfig" where
  "health_defaults d h =
     \<lparr>hc_Path = default_str (hc_Path d) (hc_Path h),
      hc_IntervalSec = default_int (hc_IntervalSec d) (hc_IntervalSec h),
      hc_TimeoutSec = default_int (hc_TimeoutSec d) (hc_TimeoutSec h),
      hc_ExpectedStatus = default_int (hc_ExpectedStatus d) (hc_ExpectedStatus h)\<rparr>"

definition standard_health :: "Config \<Rightarrow> HealthCheckConfig" where
  "standard_health c =
     \<lparr>hc_Path = ''/health'', hc_IntervalSec = cf_HealthInterval c, hc_TimeoutSec = 2, hc_ExpectedStatus = 200\<rparr>"

definition legacy_server_defaults :: "Config \<Rightarrow> Config" where
  "legacy_server_defaults c =
     c\<lparr>cf_Servers := map (\<lambda>s. s\<lparr>sv_HealthCheck := health_defaults (standard_health c) (sv_HealthCheck s)\<rparr>) (cf_Servers c)\<rparr>"

definition empty_service :: "ServerConfig list \<Rightarrow> ServiceConfig" where
  "empty_service servers =
     \<lparr>sc_LoadBalancer = None, sc_HealthCheck = None, sc_CircuitBreaker = None, sc_Canary = False, sc_Servers = servers\<rparr>"

definition server_defaults :: "HealthCheckConfig \<Rightarrow> ServerConfig \<Rightarrow> ServerConfig" where
  "server_defaults h s =
     s\<lparr>sv_Weight := default_int 1 (sv_Weight s), sv_HealthCheck := health_defaults h (sv_HealthCheck s)\<rparr>"

text \<open>The body of the loop over the services.\<close>

definition service_defaults :: "Config \<Rightarrow> ServiceConfig \<Rightarrow> ServiceConfig" where
  "service_defaults c svc =
     (let h = health_defaults (standard_health c)
                (case sc_HealthCheck svc of None \<Rightarrow> \<lparr>hc_Path = [], hc_IntervalSec = 0, hc_TimeoutSec = 0, hc_ExpectedStatus = 0\<rparr>
                                          | Some h \<Rightarrow> h);
          b = (case sc_CircuitBreaker svc of None \<Rightarrow> \<lparr>cb_Threshold = 0, cb_RecoveryTimeoutSec = 0\<rparr> | Some b \<Rightarrow> b);
          l = (case sc_LoadBalancer svc of None \<Rightarrow> \<lparr>lb_Algorithm = [], lb_Sticky = False\<rparr> | Some l \<Rightarrow> l)
      in svc\<lparr>sc_HealthCheck := Some h,
             sc_CircuitBreaker := Some \<lparr>cb_Threshold = default_int (cf_BreakerThreshold c) (cb_Threshold b),
                                        cb_RecoveryTimeoutSec = default_int (cf_BreakerTimeoutSec c) (cb_RecoveryTimeoutSec b)\<rparr>,
             sc_LoadBalancer := Some (l\<lparr>lb_Algorithm := default_str (cf_Algorithm c) (lb_Algorithm l)\<rparr>),
             sc_Servers := map (server_defaults h) (sc_Servers svc)\<rparr>)"

text \<open>
  The loop over the services, in the order \<open>ks\<close>. The value of a key can be a nil pointer, when the file says \<^verbatim>\<open>null\<close>: the
  loop dereferences it.
\<close>

fun services_loop :: "string list \<Rightarrow> Config \<Rightarrow> Config result" where
  "services_loop [] c = Inr c"
| "services_loop (k # ks) c =
     (case cf_Services c k of
        None \<Rightarrow> services_loop ks c
      | Some None \<Rightarrow> Inl (GoPanic ''nil service'')
      | Some (Some svc) \<Rightarrow>
          services_loop ks (c\<lparr>cf_Services := (cf_Services c)(k \<mapsto> Some (service_defaults c svc))\<rparr>))"

definition legacy_entrypoint :: "int \<Rightarrow> EntryPointConfig" where
  "legacy_entrypoint port = \<lparr>ep_Address = '':'' @ Itoa port, ep_Protocol = ''http'', ep_Middlewares = [], ep_TLS = None\<rparr>"

definition legacy_entrypoints :: "Config \<Rightarrow> Config" where
  "legacy_entrypoints c =
     (let web = legacy_entrypoint (cf_ListenPort c);
          web1 = (if tl_Enabled (cf_TLS c) then web\<lparr>ep_Protocol := ''https'', ep_TLS := Some (cf_TLS c)\<rparr> else web)
      in c\<lparr>cf_EntryPoints := [''web'' \<mapsto> Some web1, ''dashboard'' \<mapsto> Some (legacy_entrypoint (cf_DashboardPort c))]\<rparr>)"

definition entrypoint_defaults :: "EntryPointConfig \<Rightarrow> EntryPointConfig" where
  "entrypoint_defaults ep = ep\<lparr>ep_Protocol := default_str ''http'' (ep_Protocol ep)\<rparr>"

fun entrypoints_loop :: "string list \<Rightarrow> Config \<Rightarrow> Config result" where
  "entrypoints_loop [] c = Inr c"
| "entrypoints_loop (k # ks) c =
     (case cf_EntryPoints c k of
        None \<Rightarrow> entrypoints_loop ks c
      | Some None \<Rightarrow> Inl (GoPanic ''nil entrypoint'')
      | Some (Some ep) \<Rightarrow>
          entrypoints_loop ks (c\<lparr>cf_EntryPoints := (cf_EntryPoints c)(k \<mapsto> Some (entrypoint_defaults ep))\<rparr>))"

text \<open>
  \<open>ks\<close> and \<open>es\<close> are the keys of \<^verbatim>\<open>cfg.Services\<close> and \<^verbatim>\<open>cfg.EntryPoints\<close> in the order of the loops. When the flat list of
  servers becomes the service \<^verbatim>\<open>default\<close>, the two share the array, so the loop writes its defaults into the flat list as well.
\<close>

definition setDefaults :: "string list \<Rightarrow> string list \<Rightarrow> Config \<Rightarrow> Config result" where
  "setDefaults ks es c0 =
     (let c = legacy_server_defaults (global_defaults c0);
          wrap = (length ks = 0 \<and> length (cf_Servers c) > 0);
          c1 = (if wrap then c\<lparr>cf_Services := [''default'' \<mapsto> Some (empty_service (cf_Servers c))]\<rparr> else c)
      in case services_loop (if wrap then [''default''] else ks) c1 of
           Inl e \<Rightarrow> Inl e
         | Inr c2 \<Rightarrow>
             (let c3 = (case cf_Services c2 ''default'' of
                          Some (Some svc) \<Rightarrow> if wrap then c2\<lparr>cf_Servers := sc_Servers svc\<rparr> else c2
                        | _ \<Rightarrow> c2)
              in if length es = 0 then entrypoints_loop [''web'', ''dashboard''] (legacy_entrypoints c3)
                 else entrypoints_loop es c3))"

section \<open>Validation and loading\<close>

fun validate_servers :: "string \<Rightarrow> ServerConfig list \<Rightarrow> (url \<rightharpoonup> string) \<Rightarrow> (url \<rightharpoonup> string) result" where
  "validate_servers svcName [] seen = Inr seen"
| "validate_servers svcName (srv # srvs) seen =
     (case seen (sv_URL srv) of
        Some existingSvc \<Rightarrow> Inl (GoError (''backend URL '' @ dquoted (sv_URL srv)
            @ '' is configured in multiple services ('' @ dquoted existingSvc @ '' and '' @ dquoted svcName @ '')''))
      | None \<Rightarrow> validate_servers svcName srvs (seen(sv_URL srv \<mapsto> svcName)))"

fun validate_loop :: "string list \<Rightarrow> Config \<Rightarrow> (url \<rightharpoonup> string) \<Rightarrow> unit result" where
  "validate_loop [] c seen = Inr ()"
| "validate_loop (k # ks) c seen =
     (case cf_Services c k of
        None \<Rightarrow> validate_loop ks c seen
      | Some None \<Rightarrow> Inl (GoPanic ''nil service'')
      | Some (Some svc) \<Rightarrow>
          (case validate_servers k (sc_Servers svc) seen of
             Inl e \<Rightarrow> Inl e
           | Inr seen1 \<Rightarrow> validate_loop ks c seen1))"

definition validate :: "string list \<Rightarrow> Config \<Rightarrow> unit result" where
  "validate ks c = validate_loop ks c Map.empty"

text \<open>
  \<^verbatim>\<open>Load\<close>; \<open>decoded\<close> is the outcome of \<^verbatim>\<open>os.ReadFile\<close> and \<^verbatim>\<open>json.Unmarshal\<close>, \<open>vs\<close> the order in which \<^verbatim>\<open>validate\<close> visits the services.
\<close>

definition Load :: "string list \<Rightarrow> string list \<Rightarrow> string list \<Rightarrow> Config result \<Rightarrow> Config result" where
  "Load ks es vs decoded =
     (case decoded of
        Inl err \<Rightarrow> Inl err
      | Inr cfg \<Rightarrow>
          (case setDefaults ks es cfg of
             Inl e \<Rightarrow> Inl e
           | Inr cfg1 \<Rightarrow> (case validate vs cfg1 of Inl err \<Rightarrow> Inl err | Inr u \<Rightarrow> Inr cfg1)))"

section \<open>What the defaults guarantee\<close>

definition health_ready :: "HealthCheckConfig \<Rightarrow> bool" where
  "health_ready h \<longleftrightarrow> hc_Path h \<noteq> [] \<and> hc_IntervalSec h \<noteq> 0 \<and> hc_TimeoutSec h \<noteq> 0 \<and> hc_ExpectedStatus h \<noteq> 0"

definition service_ready :: "ServiceConfig \<Rightarrow> bool" where
  "service_ready svc \<longleftrightarrow>
     (\<exists>l. sc_LoadBalancer svc = Some l \<and> lb_Algorithm l \<noteq> [])
     \<and> (\<exists>b. sc_CircuitBreaker svc = Some b \<and> cb_Threshold b \<noteq> 0 \<and> cb_RecoveryTimeoutSec b \<noteq> 0)
     \<and> (\<exists>h. sc_HealthCheck svc = Some h \<and> health_ready h)
     \<and> (\<forall>s \<in> set (sc_Servers svc). sv_Weight s \<noteq> 0 \<and> health_ready (sv_HealthCheck s))"

definition globals_ready :: "Config \<Rightarrow> bool" where
  "globals_ready c \<longleftrightarrow>
     cf_ListenPort c \<noteq> 0 \<and> cf_DashboardPort c \<noteq> 0 \<and> cf_HealthInterval c \<noteq> 0 \<and> cf_BreakerThreshold c \<noteq> 0
     \<and> cf_BreakerTimeoutSec c \<noteq> 0 \<and> cf_MetricsIntervalSec c \<noteq> 0 \<and> cf_Algorithm c \<noteq> [] \<and> cf_MaxRetries c \<noteq> 0
     \<and> cf_ShutdownTimeoutSec c \<noteq> 0 \<and> cf_RateLimitRPS c \<noteq> 0 \<and> cf_RateLimitBurst c \<noteq> 0
     \<and> cf_PerAttemptTimeoutSec c \<noteq> 0 \<and> cf_RetryBackoffMs c \<noteq> 0 \<and> cf_RetryBackoffMaxMs c \<noteq> 0
     \<and> cf_AccessLogPath c \<noteq> [] \<and> tc_HighSec (cf_Timeouts c) \<noteq> 0 \<and> tc_MediumSec (cf_Timeouts c) \<noteq> 0
     \<and> tc_LowSec (cf_Timeouts c) \<noteq> 0"

definition config_ready :: "Config \<Rightarrow> bool" where
  "config_ready c \<longleftrightarrow>
     globals_ready c
     \<and> (\<forall>s \<in> set (cf_Servers c). health_ready (sv_HealthCheck s))
     \<and> (\<forall>k p. cf_Services c k = Some p \<longrightarrow> (\<exists>svc. p = Some svc \<and> service_ready svc))
     \<and> (cf_Services c = Map.empty \<longrightarrow> cf_Servers c = [])
     \<and> (\<forall>k p. cf_EntryPoints c k = Some p \<longrightarrow> (\<exists>ep. p = Some ep \<and> ep_Protocol ep \<noteq> []))
     \<and> cf_EntryPoints c \<noteq> Map.empty"

lemma default_ready [simp]:
  "d \<noteq> 0 \<Longrightarrow> default_int d x \<noteq> 0" "e \<noteq> [] \<Longrightarrow> default_str e y \<noteq> []"
  "x \<noteq> 0 \<Longrightarrow> default_int d x = x" "y \<noteq> [] \<Longrightarrow> default_str e y = y"
  by (simp_all add: default_int_def default_str_def)

lemma health_defaults_ready: "health_ready d \<Longrightarrow> health_ready (health_defaults d h)"
  by (simp add: health_ready_def health_defaults_def)

lemma health_defaults_id: "health_ready h \<Longrightarrow> health_defaults d h = h"
  by (simp add: health_ready_def health_defaults_def)

lemma globals_ready_defaults: "globals_ready (global_defaults c)"
  by (simp add: globals_ready_def global_defaults_def)

lemma global_defaults_id: "globals_ready c \<Longrightarrow> global_defaults c = c"
  by (rule Config.equality) (simp_all add: globals_ready_def global_defaults_def)

lemma standard_health_ready: "globals_ready c \<Longrightarrow> health_ready (standard_health c)"
  by (simp add: globals_ready_def standard_health_def health_ready_def)

lemma service_defaults_ready:
  assumes "globals_ready c"
  shows "service_ready (service_defaults c svc)"
  using assms standard_health_ready [OF assms]
  by (auto simp: service_ready_def service_defaults_def server_defaults_def Let_def globals_ready_def health_defaults_ready)

lemma service_defaults_id:
  assumes "service_ready svc"
  shows "service_defaults c svc = svc"
proof -
  have "server_defaults h s = s" if "s \<in> set (sc_Servers svc)" for h s
    using assms that by (simp add: service_ready_def server_defaults_def health_defaults_id)
  then have "map (server_defaults h) (sc_Servers svc) = sc_Servers svc" for h by (simp add: map_idI)
  with assms show ?thesis
    by (auto simp: service_ready_def service_defaults_def Let_def health_defaults_id)
qed

text \<open>The loops, for a list of keys without repetitions.\<close>

lemma service_defaults_cong [simp]: "service_defaults (c\<lparr>cf_Services := m\<rparr>) = service_defaults c"
  by (simp add: fun_eq_iff service_defaults_def standard_health_def)

definition update_on :: "'k list \<Rightarrow> ('v \<Rightarrow> 'v) \<Rightarrow> ('k \<rightharpoonup> 'v option) \<Rightarrow> ('k \<rightharpoonup> 'v option)" where
  "update_on ks f m = (\<lambda>k. if k \<in> set ks then map_option (map_option f) (m k) else m k)"

lemma update_on_simps [simp]:
  "update_on [] f m = m"
  "m k = None \<Longrightarrow> update_on (k # ks) f m = update_on ks f m"
  "m k = Some (Some v) \<Longrightarrow> k \<notin> set ks \<Longrightarrow> update_on ks f (m(k \<mapsto> Some (f v))) = update_on (k # ks) f m"
  by (auto simp: update_on_def fun_eq_iff)

lemma services_loop_eq:
  assumes "distinct ks"
  shows "services_loop ks c =
    (if \<exists>k \<in> set ks. cf_Services c k = Some None then Inl (GoPanic ''nil service'')
     else Inr (c\<lparr>cf_Services := update_on ks (service_defaults c) (cf_Services c)\<rparr>))"
  using assms
proof (induction ks arbitrary: c)
  case (Cons k ks)
  show ?case
  proof (cases "cf_Services c k")
    case None
    then show ?thesis using Cons by simp
  next
    case (Some p)
    show ?thesis
    proof (cases p)
      case None
      then show ?thesis using Some by simp
    next
      case v: (Some v)
      let ?c = "c\<lparr>cf_Services := (cf_Services c)(k \<mapsto> Some (service_defaults c v))\<rparr>"
      have d: "distinct ks" "k \<notin> set ks" using Cons.prems by simp_all
      have e: "(\<exists>j \<in> set ks. cf_Services ?c j = Some None) = (\<exists>j \<in> set (k # ks). cf_Services c j = Some None)"
        using d(2) Some v by auto
      have u: "update_on ks (service_defaults c) ((cf_Services c)(k \<mapsto> Some (service_defaults c v))) = update_on (k # ks) (service_defaults c) (cf_Services c)"
        using d(2) Some v by (simp del: fun_upd_apply)
      show ?thesis using Cons.IH [OF d(1), of ?c] unfolding e by (simp add: Some v u del: fun_upd_apply)
    qed
  qed
qed simp

lemma entrypoints_loop_eq:
  assumes "distinct ks"
  shows "entrypoints_loop ks c =
    (if \<exists>k \<in> set ks. cf_EntryPoints c k = Some None then Inl (GoPanic ''nil entrypoint'')
     else Inr (c\<lparr>cf_EntryPoints := update_on ks entrypoint_defaults (cf_EntryPoints c)\<rparr>))"
  using assms
proof (induction ks arbitrary: c)
  case (Cons k ks)
  show ?case
  proof (cases "cf_EntryPoints c k")
    case None
    then show ?thesis using Cons by simp
  next
    case (Some p)
    show ?thesis
    proof (cases p)
      case None
      then show ?thesis using Some by simp
    next
      case v: (Some v)
      let ?c = "c\<lparr>cf_EntryPoints := (cf_EntryPoints c)(k \<mapsto> Some (entrypoint_defaults v))\<rparr>"
      have d: "distinct ks" "k \<notin> set ks" using Cons.prems by simp_all
      have e: "(\<exists>j \<in> set ks. cf_EntryPoints ?c j = Some None) = (\<exists>j \<in> set (k # ks). cf_EntryPoints c j = Some None)"
        using d(2) Some v by auto
      have u: "update_on ks (entrypoint_defaults) ((cf_EntryPoints c)(k \<mapsto> Some (entrypoint_defaults v))) = update_on (k # ks) entrypoint_defaults (cf_EntryPoints c)"
        using d(2) Some v by (simp del: fun_upd_apply)
      show ?thesis using Cons.IH [OF d(1), of ?c] unfolding e by (simp add: Some v u del: fun_upd_apply)
    qed
  qed
qed simp

lemma globals_ready_cong [simp]:
  "globals_ready (c\<lparr>cf_Services := m\<rparr>) = globals_ready c"
  "globals_ready (c\<lparr>cf_Servers := srvs\<rparr>) = globals_ready c"
  "globals_ready (c\<lparr>cf_EntryPoints := e\<rparr>) = globals_ready c"
  by (simp_all add: globals_ready_def)

lemma legacy_simps [simp]:
  "globals_ready (legacy_server_defaults (global_defaults c))"
  "cf_Services (legacy_server_defaults (global_defaults c)) = cf_Services c"
  "cf_EntryPoints (legacy_server_defaults (global_defaults c)) = cf_EntryPoints c"
  "length (cf_Servers (legacy_server_defaults (global_defaults c))) = length (cf_Servers c)"
  using globals_ready_defaults [of c]
  by (simp_all add: legacy_server_defaults_def, simp_all add: global_defaults_def)

lemma legacy_servers_ready:
  "s \<in> set (cf_Servers (legacy_server_defaults (global_defaults c))) \<Longrightarrow> health_ready (sv_HealthCheck s)"
  using standard_health_ready [OF globals_ready_defaults]
  by (auto simp: legacy_server_defaults_def health_defaults_ready)

text \<open>The state before the entrypoints: globals, servers and services are ready.\<close>

definition services_ready :: "Config \<Rightarrow> bool" where
  "services_ready c \<longleftrightarrow>
     globals_ready c
     \<and> (\<forall>s \<in> set (cf_Servers c). health_ready (sv_HealthCheck s))
     \<and> (\<forall>k p. cf_Services c k = Some p \<longrightarrow> (\<exists>svc. p = Some svc \<and> service_ready svc))
     \<and> (cf_Services c = Map.empty \<longrightarrow> cf_Servers c = [])"

lemma update_on_ready:
  assumes "dom m \<subseteq> set ks" and "\<forall>k \<in> set ks. m k \<noteq> Some None" and "\<And>v. P (f v)"
  shows "update_on ks f m k = Some p \<Longrightarrow> \<exists>v. p = Some v \<and> P v"
  using assms by (auto simp: update_on_def split: if_splits) (metis not_None_eq option.map(2))

lemma services_ready_loop:
  assumes "globals_ready c" and "\<forall>s \<in> set (cf_Servers c). health_ready (sv_HealthCheck s)"
    and "range_order (cf_Services c) ks" and "services_loop ks c = Inr c'"
    and "cf_Services c = Map.empty \<Longrightarrow> cf_Servers c = []"
  shows "services_ready c'" and "dom (cf_Services c') = dom (cf_Services c)" and "cf_EntryPoints c' = cf_EntryPoints c"
proof -
  have nn: "\<forall>k \<in> set ks. cf_Services c k \<noteq> Some None"
    and c': "c' = c\<lparr>cf_Services := update_on ks (service_defaults c) (cf_Services c)\<rparr>"
    using assms(3,4) by (auto simp: range_order_def services_loop_eq split: if_splits)
  show dom: "dom (cf_Services c') = dom (cf_Services c)" and "cf_EntryPoints c' = cf_EntryPoints c"
    by (auto simp: c' update_on_def split: if_splits)
  have "cf_Services c' = Map.empty \<longleftrightarrow> cf_Services c = Map.empty" using dom by (metis dom_eq_empty_conv)
  moreover have "\<exists>svc. p = Some svc \<and> service_ready svc" if "cf_Services c' k = Some p" for k p
    using update_on_ready [OF _ nn, where P = service_ready and f = "service_defaults c", of k p] service_defaults_ready [of c] that assms(1,3) by (simp add: c' range_order_def)
  ultimately show "services_ready c'" using assms(1,2,5) by (simp add: services_ready_def c')
qed

lemma entrypoints_ready_loop:
  assumes "services_ready c" and "range_order (cf_EntryPoints c) ks" and "cf_EntryPoints c \<noteq> Map.empty"
    and "entrypoints_loop ks c = Inr c'"
  shows "config_ready c'"
proof -
  have nn: "\<forall>k \<in> set ks. cf_EntryPoints c k \<noteq> Some None"
    and c': "c' = c\<lparr>cf_EntryPoints := update_on ks entrypoint_defaults (cf_EntryPoints c)\<rparr>"
    using assms(2,4) by (auto simp: range_order_def entrypoints_loop_eq split: if_splits)
  have "dom (cf_EntryPoints c') = dom (cf_EntryPoints c)" by (auto simp: c' update_on_def split: if_splits)
  then have "cf_EntryPoints c' \<noteq> Map.empty" using assms(3) by (metis dom_eq_empty_conv)
  moreover have "\<exists>ep. p = Some ep \<and> ep_Protocol ep \<noteq> []" if "cf_EntryPoints c' k = Some p" for k p
    using update_on_ready [OF _ nn, where P = "\<lambda>ep. ep_Protocol ep \<noteq> []" and f = entrypoint_defaults, of k p]
      that assms(2) by (simp add: c' range_order_def entrypoint_defaults_def)
  ultimately show ?thesis using assms(1) by (simp add: services_ready_def config_ready_def c')
qed

text \<open>The configuration that the services loop of \<open>setDefaults\<close> starts from, and its list of keys.\<close>

definition wraps :: "string list \<Rightarrow> Config \<Rightarrow> bool" where
  "wraps ks c0 \<longleftrightarrow> length ks = 0 \<and> length (cf_Servers (legacy_server_defaults (global_defaults c0))) > 0"

definition wrapped :: "string list \<Rightarrow> Config \<Rightarrow> Config" where
  "wrapped ks c0 =
     (let c = legacy_server_defaults (global_defaults c0)
      in if wraps ks c0 then c\<lparr>cf_Services := [''default'' \<mapsto> Some (empty_service (cf_Servers c))]\<rparr> else c)"

definition write_back :: "bool \<Rightarrow> Config \<Rightarrow> Config" where
  "write_back w c =
     (case cf_Services c ''default'' of
        Some (Some svc) \<Rightarrow> if w then c\<lparr>cf_Servers := sc_Servers svc\<rparr> else c
      | _ \<Rightarrow> c)"

lemma setDefaults_steps:
  "setDefaults ks es c0 =
     (case services_loop (if wraps ks c0 then [''default''] else ks) (wrapped ks c0) of
        Inl e \<Rightarrow> Inl e
      | Inr c2 \<Rightarrow>
          (let c3 = write_back (wraps ks c0) c2
           in if length es = 0 then entrypoints_loop [''web'', ''dashboard''] (legacy_entrypoints c3)
              else entrypoints_loop es c3))"
  unfolding setDefaults_def wrapped_def wraps_def write_back_def Let_def by (rule refl)

text \<open>Without configured entrypoints, the settings of TLS become those of the entrypoint \<^verbatim>\<open>web\<close>.\<close>

lemma services_loop_frame:
  "services_loop ks c = Inr c1 \<Longrightarrow> cf_TLS c1 = cf_TLS c"
  by (induction ks c rule: services_loop.induct) (auto split: option.splits)

lemma legacy_listens:
  assumes "setDefaults ks [] c0 = Inr c"
  shows "cf_TLS c = cf_TLS c0" and "tl_Enabled (cf_TLS c) \<Longrightarrow> \<exists>web. cf_EntryPoints c ''web'' = Some (Some web) \<and> ep_Address web = '':'' @ Itoa (cf_ListenPort c)
     \<and> ep_Protocol web = ''https'' \<and> ep_TLS web = Some (cf_TLS c)"
proof -
  obtain c2 where c2: "services_loop (if wraps ks c0 then [''default''] else ks) (wrapped ks c0) = Inr c2"
    and c: "entrypoints_loop [''web'', ''dashboard''] (legacy_entrypoints (write_back (wraps ks c0) c2)) = Inr c"
    using assms by (auto simp: setDefaults_steps Let_def split: sum.splits)
  have "cf_TLS (wrapped ks c0) = cf_TLS c0" by (simp add: wrapped_def Let_def legacy_server_defaults_def global_defaults_def)
  then have t: "cf_TLS (write_back (wraps ks c0) c2) = cf_TLS c0"
    using services_loop_frame [OF c2] by (simp add: write_back_def split: option.splits)
  from c t show "cf_TLS c = cf_TLS c0" by (auto simp: legacy_entrypoints_def Let_def)
  from c show "tl_Enabled (cf_TLS c) \<Longrightarrow> \<exists>web. cf_EntryPoints c ''web'' = Some (Some web) \<and> ep_Address web = '':'' @ Itoa (cf_ListenPort c)
     \<and> ep_Protocol web = ''https'' \<and> ep_TLS web = Some (cf_TLS c)"
    by (auto simp: legacy_entrypoints_def Let_def legacy_entrypoint_def entrypoint_defaults_def default_str_def split: if_splits)
qed

lemma wraps_iff: "wraps ks c0 \<longleftrightarrow> ks = [] \<and> cf_Servers c0 \<noteq> []"
proof -
  have "length (cf_Servers (legacy_server_defaults (global_defaults c0))) = length (cf_Servers c0)" by (rule legacy_simps(4))
  then show ?thesis unfolding wraps_def by (metis length_0_conv length_greater_0_conv)
qed

lemma write_back_ready:
  assumes "services_ready c"
  shows "services_ready (write_back w c)" and "cf_EntryPoints (write_back w c) = cf_EntryPoints c"
proof -
  have "\<forall>s \<in> set (sc_Servers svc). health_ready (sv_HealthCheck s)" if "cf_Services c ''default'' = Some (Some svc)" for svc
    using assms that by (auto simp: services_ready_def service_ready_def)
  then show "services_ready (write_back w c)"
    using assms by (auto simp: write_back_def services_ready_def split: option.splits)
  show "cf_EntryPoints (write_back w c) = cf_EntryPoints c" by (simp add: write_back_def split: option.splits)
qed

lemma legacy_servers_empty [simp]:
  "cf_Servers (legacy_server_defaults (global_defaults c)) = [] \<longleftrightarrow> cf_Servers c = []"
  by (metis legacy_simps(4) length_0_conv)

lemma dom_empty [simp]: "{} = dom m \<longleftrightarrow> m = Map.empty"
  by (metis dom_eq_empty_conv)

lemma wrapped_facts:
  assumes "range_order (cf_Services c0) ks"
  shows "globals_ready (wrapped ks c0)"
    and "s \<in> set (cf_Servers (wrapped ks c0)) \<Longrightarrow> health_ready (sv_HealthCheck s)"
    and "range_order (cf_Services (wrapped ks c0)) (if wraps ks c0 then [''default''] else ks)"
    and "cf_Services (wrapped ks c0) = Map.empty \<Longrightarrow> cf_Servers (wrapped ks c0) = []"
    and "cf_EntryPoints (wrapped ks c0) = cf_EntryPoints c0"
  using assms legacy_servers_ready [of s c0]
  by (auto simp: wrapped_def wraps_def range_order_def Let_def split: if_splits)

lemma setDefaults_ready:
  assumes "range_order (cf_Services c0) ks" and "range_order (cf_EntryPoints c0) es" and "setDefaults ks es c0 = Inr c'"
  shows "config_ready c'"
proof -
  obtain c2 where c2: "services_loop (if wraps ks c0 then [''default''] else ks) (wrapped ks c0) = Inr c2"
    using assms(3) by (cases "services_loop (if wraps ks c0 then [''default''] else ks) (wrapped ks c0)") (auto simp: setDefaults_steps)
  note w = wrapped_facts [OF assms(1)]
  have r2: "services_ready c2" and e2: "cf_EntryPoints c2 = cf_EntryPoints c0"
    using services_ready_loop [OF w(1) _ w(3) c2 w(4)] w(2,5) by auto
  define c3 where "c3 = write_back (wraps ks c0) c2"
  have r3: "services_ready c3" and e3: "cf_EntryPoints c3 = cf_EntryPoints c0"
    using write_back_ready [OF r2] e2 by (simp_all add: c3_def)
  show ?thesis
  proof (cases "length es = 0")
    case True
    have "services_ready (legacy_entrypoints c3)" using r3 by (simp add: services_ready_def legacy_entrypoints_def Let_def)
    then show ?thesis
      using True assms(3) c2
      by (intro entrypoints_ready_loop [of "legacy_entrypoints c3" "[''web'', ''dashboard'']"])
        (auto simp: setDefaults_steps Let_def c3_def [symmetric] legacy_entrypoints_def range_order_def)
  next
    case False
    then have "cf_EntryPoints c3 \<noteq> Map.empty" using assms(2) e3 by (auto simp: range_order_def)
    then show ?thesis
      using False assms(2,3) c2 r3 e3
      by (intro entrypoints_ready_loop [of c3 es]) (auto simp: setDefaults_steps Let_def c3_def [symmetric])
  qed
qed

lemma update_on_id:
  assumes "\<And>k v. m k = Some (Some v) \<Longrightarrow> f v = v" and "\<And>k p. m k = Some p \<Longrightarrow> p \<noteq> None"
  shows "update_on ks f m = m"
proof
  fix k show "update_on ks f m k = m k"
    using assms(1) [of k] assms(2) [of k] by (cases "m k"; cases "the (m k)") (auto simp: update_on_def)
qed

lemma setDefaults_id:
  assumes "config_ready c" and "range_order (cf_Services c) ks" and "range_order (cf_EntryPoints c) es"
  shows "setDefaults ks es c = Inr c"
proof -
  have g: "globals_ready c" using assms(1) by (simp add: config_ready_def)
  have S: "\<exists>svc. p = Some svc \<and> service_ready svc" if "cf_Services c k = Some p" for k p
    using assms(1) that unfolding config_ready_def by blast
  have E: "\<exists>ep. p = Some ep \<and> ep_Protocol ep \<noteq> []" if "cf_EntryPoints c k = Some p" for k p
    using assms(1) that unfolding config_ready_def by blast
  have "map (\<lambda>s. s\<lparr>sv_HealthCheck := health_defaults (standard_health c) (sv_HealthCheck s)\<rparr>) (cf_Servers c) = cf_Servers c"
    using assms(1) by (intro map_idI) (simp add: config_ready_def health_defaults_id)
  then have l: "legacy_server_defaults (global_defaults c) = c"
    using global_defaults_id [OF g] by (simp add: legacy_server_defaults_def)
  have "\<not> wraps ks c" using assms(1,2) by (auto simp: wraps_iff config_ready_def range_order_def)
  moreover have "es \<noteq> []" using assms(1,3) by (auto simp: config_ready_def range_order_def)
  moreover have "services_loop ks c = Inr c"
  proof -
    have "update_on ks (service_defaults c) (cf_Services c) = cf_Services c"
      by (intro update_on_id) (auto dest!: S intro!: service_defaults_id)
    then show ?thesis using assms(2) by (auto simp: services_loop_eq range_order_def dest!: S)
  qed
  moreover have "entrypoints_loop es c = Inr c"
  proof -
    have "update_on es entrypoint_defaults (cf_EntryPoints c) = cf_EntryPoints c"
      by (intro update_on_id) (auto dest!: E simp: entrypoint_defaults_def)
    then show ?thesis using assms(3) by (auto simp: entrypoints_loop_eq range_order_def dest!: E)
  qed
  ultimately show ?thesis by (simp add: setDefaults_steps wrapped_def l Let_def write_back_def split: option.splits)
qed

section \<open>Validation\<close>

definition service_urls :: "Config \<Rightarrow> string \<Rightarrow> url list" where
  "service_urls c k = (case cf_Services c k of Some (Some svc) \<Rightarrow> map sv_URL (sc_Servers svc) | _ \<Rightarrow> [])"

text \<open>Every backend URL occurs once in the whole configuration.\<close>

definition urls_unique :: "Config \<Rightarrow> bool" where
  "urls_unique c \<longleftrightarrow>
     (\<forall>k. distinct (service_urls c k))
     \<and> (\<forall>k k' u. u \<in> set (service_urls c k) \<longrightarrow> u \<in> set (service_urls c k') \<longrightarrow> k = k')"

lemma validate_servers_iff:
  "(\<exists>seen'. validate_servers k srvs seen = Inr seen')
     \<longleftrightarrow> distinct (map sv_URL srvs) \<and> set (map sv_URL srvs) \<inter> dom seen = {}"
  "validate_servers k srvs seen = Inr seen' \<Longrightarrow> dom seen' = dom seen \<union> set (map sv_URL srvs)"
  by (induction k srvs seen rule: validate_servers.induct) (auto split: option.splits)

lemma validate_loop_iff:
  assumes "\<forall>k \<in> set ks. cf_Services c k \<noteq> Some None"
  shows "validate_loop ks c seen = Inr ()
     \<longleftrightarrow> distinct (concat (map (service_urls c) ks)) \<and> set (concat (map (service_urls c) ks)) \<inter> dom seen = {}"
  using assms
proof (induction ks arbitrary: seen)
  case (Cons k ks)
  show ?case
  proof (cases "cf_Services c k")
    case None
    then show ?thesis using Cons by (simp add: service_urls_def)
  next
    case (Some p)
    then obtain svc where svc: "p = Some svc" using Cons.prems by (cases p) auto
    then have u: "service_urls c k = map sv_URL (sc_Servers svc)" using Some by (simp add: service_urls_def)
    show ?thesis
    proof (cases "validate_servers k (sc_Servers svc) seen")
      case (Inl e)
      then show ?thesis using validate_servers_iff(1) [of k "sc_Servers svc" seen] Some svc u by auto
    next
      case (Inr seen')
      then show ?thesis
        using validate_servers_iff(1) [of k "sc_Servers svc" seen] validate_servers_iff(2) [OF Inr] Cons Some svc u by auto
    qed
  qed
qed simp

lemma urls_unique_iff:
  assumes "range_order (cf_Services c) ks"
  shows "urls_unique c \<longleftrightarrow> distinct (concat (map (service_urls c) ks))"
proof -
  have out: "service_urls c k = []" if "k \<notin> set ks" for k
    using that assms by (auto simp: service_urls_def range_order_def split: option.splits)
  have "distinct ks" using assms by (simp add: range_order_def)
  then show ?thesis
    using out unfolding urls_unique_def distinct_concat_map [OF \<open>distinct ks\<close>]
    by (smt (verit) disjoint_iff distinct.simps(1) empty_iff list.set(1))
qed

lemma validate_iff:
  assumes "range_order (cf_Services c) ks" and "\<forall>k. cf_Services c k \<noteq> Some None"
  shows "validate ks c = Inr () \<longleftrightarrow> urls_unique c"
  using validate_loop_iff [of ks c Map.empty] assms by (simp add: validate_def urls_unique_iff)

text \<open>
  Validation accepts a configuration exactly when no backend URL occurs twice in it, within a service or across
  services, whatever the order in which the services are visited.
\<close>

theorem validate_exact:
  assumes "range_order (cf_Services c) ks" and "\<forall>k. cf_Services c k \<noteq> Some None"
  shows "validate ks c = Inr () \<longleftrightarrow> urls_unique c"
  by (rule validate_iff [OF assms])

lemma load_ready:
  assumes "range_order (cf_Services c0) ks" and "range_order (cf_EntryPoints c0) es"
    and "range_order (cf_Services c) vs" and "Load ks es vs (Inr c0) = Inr c"
  shows "config_ready c \<and> urls_unique c"
proof -
  have s: "setDefaults ks es c0 = Inr c" and v: "validate vs c = Inr ()"
    using assms(4) by (auto simp: Load_def split: sum.splits)
  have r: "config_ready c" by (rule setDefaults_ready [OF assms(1,2) s])
  then have "\<forall>k. cf_Services c k \<noteq> Some None" by (auto simp: config_ready_def)
  with r v assms(3) show ?thesis by (simp add: validate_iff)
qed

text \<open>
  C14. Whatever \<^verbatim>\<open>Load\<close> returns can be used by the rest of the program: no port, threshold, timeout or retry setting is zero, every service has
  a load balancer, a circuit breaker and a health check with all their fields set, every server has a weight and a
  complete health check, every entrypoint has a protocol, there is an entrypoint, and every backend URL
  belongs to one server of one service.
\<close>

theorem load_config_ready:
  assumes "range_order (cf_Services c0) ks" and "range_order (cf_EntryPoints c0) es"
    and "range_order (cf_Services c) vs" and "Load ks es vs (Inr c0) = Inr c"
  shows "config_ready c \<and> urls_unique c"
  by (rule load_ready [OF assms])

text \<open>
  Defaults are stable: applying \<^verbatim>\<open>setDefaults\<close> to a configuration that it has completed changes nothing, so a configuration that
  is written out and loaded again is the same.
\<close>

theorem set_defaults_idempotent:
  assumes "range_order (cf_Services c0) ks" and "range_order (cf_EntryPoints c0) es" and "setDefaults ks es c0 = Inr c"
    and "range_order (cf_Services c) ks'" and "range_order (cf_EntryPoints c) es'"
  shows "setDefaults ks' es' c = Inr c"
  by (rule setDefaults_id [OF setDefaults_ready [OF assms(1-3)] assms(4,5)])

text \<open>
  C25. A \<^verbatim>\<open>null\<close> in the file stops the program: \<^verbatim>\<open>setDefaults\<close> panics exactly when some service or some entrypoint of the file
  is \<^verbatim>\<open>null\<close>, and it never reports an error.
\<close>

theorem set_defaults_panics_on_null:
  assumes "range_order (cf_Services c0) ks" and "range_order (cf_EntryPoints c0) es"
  shows "if (\<exists>k. cf_Services c0 k = Some None) \<or> (\<exists>k. cf_EntryPoints c0 k = Some None)
     then \<exists>s. setDefaults ks es c0 = Inl (GoPanic s) else \<exists>c. setDefaults ks es c0 = Inr c"
proof -
  let ?ks = "if wraps ks c0 then [''default''] else ks"
  note w = wrapped_facts [OF assms(1)]
  have n: "(\<exists>k \<in> set ?ks. cf_Services (wrapped ks c0) k = Some None) = (\<exists>k. cf_Services c0 k = Some None)"
    using assms(1) by (auto simp: wrapped_def wraps_def Let_def range_order_def)
  have l: "services_loop ?ks (wrapped ks c0) =
    (if \<exists>k. cf_Services c0 k = Some None then Inl (GoPanic ''nil service'')
     else Inr (wrapped ks c0\<lparr>cf_Services := update_on ?ks (service_defaults (wrapped ks c0)) (cf_Services (wrapped ks c0))\<rparr>))"
    using w(3) services_loop_eq [of ?ks "wrapped ks c0"] unfolding n [symmetric] range_order_def by blast
  show ?thesis
  proof (cases "\<exists>k. cf_Services c0 k = Some None")
    case True
    then show ?thesis using l by (simp add: setDefaults_steps)
  next
    case False
    then obtain c2 where c2: "services_loop ?ks (wrapped ks c0) = Inr c2" and e2: "cf_EntryPoints c2 = cf_EntryPoints c0"
      using l w(5) by simp
    have e3: "cf_EntryPoints (write_back (wraps ks c0) c2) = cf_EntryPoints c0"
      using e2 by (simp add: write_back_def split: option.splits)
    have leg: "\<exists>c. entrypoints_loop [''web'', ''dashboard''] (legacy_entrypoints c3) = Inr c" for c3
      by (simp add: legacy_entrypoints_def Let_def)
    show ?thesis
      using False c2 e3 leg assms(2) entrypoints_loop_eq [of es "write_back (wraps ks c0) c2"]
      by (auto simp: setDefaults_steps Let_def range_order_def)
  qed
qed

text \<open>A file with two servers, one router and TLS, and the same with a service that is \<^verbatim>\<open>null\<close>, for the witnesses.\<close>

definition no_health :: HealthCheckConfig where
  "no_health = \<lparr>hc_Path = [], hc_IntervalSec = 0, hc_TimeoutSec = 0, hc_ExpectedStatus = 0\<rparr>"

definition demo_server :: "url \<Rightarrow> ServerConfig" where
  "demo_server u = \<lparr>sv_URL = u, sv_Name = u, sv_Weight = 0, sv_DelayMs = 0, sv_HealthCheck = no_health\<rparr>"

definition demo_config :: Config where
  "demo_config =
     \<lparr>cf_ListenPort = 0, cf_DashboardPort = 0, cf_Servers = [demo_server ''http://a'', demo_server ''http://b''],
      cf_Algorithm = [], cf_HealthInterval = 0, cf_BreakerThreshold = 0, cf_BreakerTimeoutSec = 0,
      cf_MetricsIntervalSec = 0, cf_MaxRetries = 0, cf_ShutdownTimeoutSec = 0, cf_RateLimitRPS = 0,
      cf_RateLimitBurst = 0, cf_PerAttemptTimeoutSec = 0, cf_RetryBackoffMs = 0, cf_RetryBackoffMaxMs = 0,
      cf_AccessLogPath = [], cf_DashboardAuth = \<lparr>da_Username = [], da_Password = []\<rparr>,
      cf_TLS = \<lparr>tl_Enabled = True, tl_CertFile = ''c.pem'', tl_KeyFile = [], tl_AutoGenerate = True\<rparr>,
      cf_CORS = \<lparr>cc_AllowedOrigins = [], cc_AllowedMethods = [], cc_AllowedHeaders = []\<rparr>,
      cf_HotReload = False, cf_Middlewares = Map.empty,
      cf_Timeouts = \<lparr>tc_HighSec = 0, tc_MediumSec = 0, tc_LowSec = 0\<rparr>,
      cf_EntryPoints = Map.empty,
      cf_Routers = [''r'' \<mapsto> Some \<lparr>rc_Rule = ''PathPrefix('/')'', rc_Priority = 1, rc_Middlewares = [''headers''], rc_Service = ''default''\<rparr>],
      cf_Services = Map.empty\<rparr>"

lemma demo_config_simps [simp]:
  "cf_Services demo_config = Map.empty" "cf_EntryPoints demo_config = Map.empty"
  by (simp_all add: demo_config_def)

lemma range_order_empty [simp]: "range_order Map.empty []"
  by (simp add: range_order_def)

lemma demo_defaults:
  "\<exists>c. setDefaults [] [] demo_config = Inr c \<and> range_order (cf_Services c) [''default'']
     \<and> range_order (cf_EntryPoints c) [''web'', ''dashboard'']
     \<and> service_urls c ''default'' = [''http://a'', ''http://b'']
     \<and> cf_Routers c = cf_Routers demo_config \<and> cf_Middlewares c = Map.empty
     \<and> (\<exists>p q. cf_EntryPoints c = [''web'' \<mapsto> Some p, ''dashboard'' \<mapsto> Some q] \<and> ep_Middlewares p = [] \<and> ep_Middlewares q = [])
     \<and> cf_TLS c = cf_TLS demo_config \<and> cf_MetricsIntervalSec c = 10"
  by (simp add: setDefaults_def demo_config_def Let_def legacy_server_defaults_def global_defaults_def default_int_def
      legacy_entrypoints_def range_order_def service_urls_def service_defaults_def empty_service_def server_defaults_def
      demo_server_def insert_commute legacy_entrypoint_def, intro exI conjI, rule refl)
    (simp_all add: entrypoint_defaults_def)

theorem validate_exact_witness: "\<exists>c. validate [''default''] c = Inr () \<and> urls_unique c \<and> service_urls c ''default'' \<noteq> []"
proof -
  obtain c where c: "setDefaults [] [] demo_config = Inr c" "range_order (cf_Services c) [''default'']"
    "service_urls c ''default'' = [''http://a'', ''http://b'']" using demo_defaults by blast
  have r: "config_ready c" by (rule setDefaults_ready [OF _ _ c(1)]) simp_all
  have "\<forall>k. cf_Services c k \<noteq> Some None" using r unfolding config_ready_def by blast
  moreover have "urls_unique c" using c(3) by (simp add: urls_unique_iff [OF c(2)])
  ultimately show ?thesis using validate_exact [OF c(2)] c(3) by auto
qed

lemma demo_load:
  "\<exists>c. Load [] [] [''default''] (Inr demo_config) = Inr c \<and> range_order (cf_Services c) [''default'']
     \<and> service_urls c ''default'' = [''http://a'', ''http://b'']
     \<and> cf_Routers c = cf_Routers demo_config \<and> cf_Middlewares c = Map.empty
     \<and> (\<exists>p q. cf_EntryPoints c = [''web'' \<mapsto> Some p, ''dashboard'' \<mapsto> Some q] \<and> ep_Middlewares p = [] \<and> ep_Middlewares q = [])
     \<and> cf_TLS c = cf_TLS demo_config \<and> cf_MetricsIntervalSec c = 10"
proof -
  obtain c where c: "setDefaults [] [] demo_config = Inr c" "range_order (cf_Services c) [''default'']"
    "service_urls c ''default'' = [''http://a'', ''http://b'']" "cf_Routers c = cf_Routers demo_config" "cf_Middlewares c = Map.empty"
    "\<exists>p q. cf_EntryPoints c = [''web'' \<mapsto> Some p, ''dashboard'' \<mapsto> Some q] \<and> ep_Middlewares p = [] \<and> ep_Middlewares q = []"
    "cf_TLS c = cf_TLS demo_config" "cf_MetricsIntervalSec c = 10" using demo_defaults by blast
  have r: "config_ready c" by (rule setDefaults_ready [OF _ _ c(1)]) simp_all
  have n: "\<forall>k. cf_Services c k \<noteq> Some None" using r unfolding config_ready_def by blast
  have "validate [''default''] c = Inr ()" unfolding validate_iff [OF c(2) n] using c(3) by (simp add: urls_unique_iff [OF c(2)])
  then have "Load [] [] [''default''] (Inr demo_config) = Inr c" by (simp add: Load_def c(1))
  with c show ?thesis by blast
qed

theorem load_config_ready_witness:
  "\<exists>c. Load [] [] [''default''] (Inr demo_config) = Inr c \<and> config_ready c \<and> urls_unique c"
  using demo_load load_config_ready [of demo_config "[]" "[]" _ "[''default'']"] by fastforce

theorem set_defaults_idempotent_witness:
  "\<exists>c. setDefaults [] [] demo_config = Inr c \<and> setDefaults [''default''] [''web'', ''dashboard''] c = Inr c"
proof -
  obtain c where c: "setDefaults [] [] demo_config = Inr c" "range_order (cf_Services c) [''default'']"
    "range_order (cf_EntryPoints c) [''web'', ''dashboard'']" using demo_defaults by blast
  then show ?thesis using set_defaults_idempotent [of demo_config "[]" "[]" c] by simp
qed

theorem set_defaults_panics_on_null_witness:
  "\<exists>s. setDefaults [''x''] [] (demo_config\<lparr>cf_Services := [''x'' \<mapsto> None]\<rparr>) = Inl (GoPanic s)"
proof -
  let ?c = "demo_config\<lparr>cf_Services := [''x'' \<mapsto> None]\<rparr>"
  have "range_order (cf_Services ?c) [''x'']" and "range_order (cf_EntryPoints ?c) []"
    and "cf_Services ?c ''x'' = Some None" by (simp_all add: range_order_def)
  then show ?thesis using set_defaults_panics_on_null [of ?c "[''x'']" "[]"] by (auto split: if_splits)
qed

end
