(* ===== verification/Monitor.thy ===== *)
theory Monitor
  imports Breaker Metrics Config
begin

text \<open>
  The health monitor of a service, \<^verbatim>\<open>src/internal/health/monitor.go\<close>: one health check against a server, and the goroutines that
  run the checks, started and stopped through channels. The state of a check is the collector and the breakers
  that the monitor shares with the router. The monitor makes all its channels itself, so a channel is its number.
\<close>

section \<open>One health check\<close>

text \<open>
  What a check gets from outside: the outcome of \<^verbatim>\<open>client.Get\<close> (an error or the status of the response), the reading of the clock in
  \<^verbatim>\<open>RecordFailure\<close>, and the time stamps that \<^verbatim>\<open>SetHealth\<close> and \<^verbatim>\<open>SetCircuitState\<close> write.
\<close>

record check_env =
  ce_response :: "int result"
  ce_now :: time
  ce_healthStamp :: string
  ce_circuitStamp :: string

type_synonym breaker_map = "url \<rightharpoonup> Breaker"

definition check_failed :: "check_env \<Rightarrow> url \<Rightarrow> Collector \<Rightarrow> breaker_map \<Rightarrow> Collector \<times> breaker_map result" where
  "check_failed e url c bs =
     (let c1 = SetHealth (ce_healthStamp e) url False c
      in case bs url of
           None \<Rightarrow> (c1, Inl (GoPanic ''nil breaker''))
         | Some b \<Rightarrow>
             (let b1 = RecordFailure (ce_now e) b
              in (SetCircuitState (ce_circuitStamp e) url (Breaker_State b1) c1, Inr (bs(url \<mapsto> b1)))))"

definition check :: "check_env \<Rightarrow> ServerConfig \<Rightarrow> Collector \<Rightarrow> breaker_map \<Rightarrow> Collector \<times> breaker_map result" where
  "check e server c bs =
     (let url = sv_URL server
      in case ce_response e of
           Inl err \<Rightarrow> check_failed e url c bs
         | Inr status \<Rightarrow>
             (if status \<noteq> hc_ExpectedStatus (sv_HealthCheck server) then check_failed e url c bs
              else let c1 = SetHealth (ce_healthStamp e) url True c
                   in case bs url of
                        None \<Rightarrow> (c1, Inl (GoPanic ''nil breaker''))
                      | Some b \<Rightarrow>
                          (let (b1, recovered) = RecordSuccess b;
                               c2 = (if recovered then ClearLatencies url c1 else c1)
                           in (SetCircuitState (ce_circuitStamp e) url (Breaker_State b1) c2, Inr (bs(url \<mapsto> b1))))))"

section \<open>Goroutines and channels\<close>

text \<open>
  \<open>mo_next\<close> is the number of channels made so far, \<open>mo_closed\<close> the channels that have been closed, and \<open>mo_running\<close> the goroutines
  that have not returned, each with its channel and its server.
\<close>

record Monitor =
  mo_servers :: "ServerConfig list"
  mo_stopChs :: "nat list"
  mo_next :: nat
  mo_closed :: "nat set"
  mo_running :: "(nat \<times> ServerConfig) list"

definition NewMonitor :: "ServerConfig list \<Rightarrow> Monitor" where
  "NewMonitor servers =
     \<lparr>mo_servers = servers, mo_stopChs = [], mo_next = 0, mo_closed = {}, mo_running = []\<rparr>"

fun start_loop :: "ServerConfig list \<Rightarrow> Monitor \<Rightarrow> Monitor" where
  "start_loop [] m = m"
| "start_loop (s # servers) m =
     (let stopCh = mo_next m
      in start_loop servers (m\<lparr>mo_next := stopCh + 1, mo_stopChs := mo_stopChs m @ [stopCh],
                               mo_running := mo_running m @ [(stopCh, s)]\<rparr>))"

definition Monitor_Start :: "Monitor \<Rightarrow> Monitor" where
  "Monitor_Start m = start_loop (mo_servers m) m"

text \<open>Closing a channel that is closed already panics.\<close>

fun close_loop :: "nat list \<Rightarrow> nat set \<Rightarrow> nat set result" where
  "close_loop [] shut = Inr shut"
| "close_loop (ch # chs) shut =
     (if ch \<in> shut then Inl (GoPanic ''close of closed channel'') else close_loop chs (insert ch shut))"

definition Monitor_Stop :: "Monitor \<Rightarrow> Monitor result" where
  "Monitor_Stop m =
     (case close_loop (mo_stopChs m) (mo_closed m) of
        Inl e \<Rightarrow> Inl e
      | Inr shut \<Rightarrow> Inr (m\<lparr>mo_closed := shut, mo_stopChs := []\<rparr>))"

text \<open>
  A goroutine makes its ticker first, and \<^verbatim>\<open>time.NewTicker\<close> panics unless the interval is positive (\<open>ticker_ok\<close>; a negative
  \<^verbatim>\<open>interval_sec\<close> passes the validation of the configuration). Then it waits for a tick or for its channel;
  when both are ready, \<^verbatim>\<open>select\<close> may take either.
\<close>

definition check_interval :: "ServerConfig \<Rightarrow> duration" where
  "check_interval s = seconds (hc_IntervalSec (sv_HealthCheck s))"

definition ticker_ok :: "ServerConfig \<Rightarrow> bool" where
  "ticker_ok s \<longleftrightarrow> 0 < check_interval s"

record mon_state =
  ms_monitor :: Monitor
  ms_collector :: Collector
  ms_breakers :: breaker_map

datatype mon_event = EvStart | EvTick nat check_env | EvReturn nat | EvStop

inductive mon_step :: "mon_state \<Rightarrow> mon_event \<Rightarrow> mon_state \<Rightarrow> bool" where
  step_start: "mon_step s EvStart (s\<lparr>ms_monitor := Monitor_Start (ms_monitor s)\<rparr>)"
| step_tick:
    "(ch, server) \<in> set (mo_running (ms_monitor s)) \<Longrightarrow> ticker_ok server
     \<Longrightarrow> check e server (ms_collector s) (ms_breakers s) = (c', Inr bs')
     \<Longrightarrow> mon_step s (EvTick ch e) (s\<lparr>ms_collector := c', ms_breakers := bs'\<rparr>)"
| step_return:
    "(ch, server) \<in> set (mo_running (ms_monitor s)) \<Longrightarrow> ticker_ok server \<Longrightarrow> ch \<in> mo_closed (ms_monitor s)
     \<Longrightarrow> mon_step s (EvReturn ch)
          (s\<lparr>ms_monitor := ms_monitor s\<lparr>mo_running := filter (\<lambda>(c, srv). c \<noteq> ch) (mo_running (ms_monitor s))\<rparr>\<rparr>)"
| step_stop:
    "Monitor_Stop (ms_monitor s) = Inr m' \<Longrightarrow> mon_step s EvStop (s\<lparr>ms_monitor := m'\<rparr>)"

inductive mon_reachable :: "mon_state \<Rightarrow> mon_state \<Rightarrow> bool" for s0 where
  mon_refl: "mon_reachable s0 s0"
| mon_trans: "mon_reachable s0 s \<Longrightarrow> mon_step s e s' \<Longrightarrow> mon_reachable s0 s'"

inductive_cases mon_stepE: "mon_step s e s'"

section \<open>What a check does\<close>

text \<open>
  The operations of a check touch the statistics and the breaker of one server only.
\<close>

lemma on_server_other [simp]: "u \<noteq> url \<Longrightarrow> co_servers (on_server url f c) u = co_servers c u"
  by (simp add: on_server_def split: option.splits)

lemma on_server_same [simp]: "co_servers (on_server url f c) url = map_option f (co_servers c url)"
  by (simp add: on_server_def split: option.splits)

lemma SetCircuitState_servers:
  "co_servers (SetCircuitState t url st c) u
     = (if u = url then map_option (\<lambda>s. s\<lparr>ss_CircuitState := st\<rparr>) (co_servers c u) else co_servers c u)"
  by (auto simp: SetCircuitState_def Let_def split: option.splits)

lemmas check_ops = SetHealth_def ClearLatencies_def SetCircuitState_servers

definition passes :: "check_env \<Rightarrow> ServerConfig \<Rightarrow> bool" where
  "passes e s \<longleftrightarrow> ce_response e = Inr (hc_ExpectedStatus (sv_HealthCheck s))"

lemma check_cases:
  "check e server c bs =
     (if passes e server
      then case bs (sv_URL server) of
             None \<Rightarrow> (SetHealth (ce_healthStamp e) (sv_URL server) True c, Inl (GoPanic ''nil breaker''))
           | Some b \<Rightarrow>
               (SetCircuitState (ce_circuitStamp e) (sv_URL server) ''CLOSED''
                  (if br_state b \<noteq> StateClosed
                   then ClearLatencies (sv_URL server) (SetHealth (ce_healthStamp e) (sv_URL server) True c)
                   else SetHealth (ce_healthStamp e) (sv_URL server) True c),
                Inr (bs(sv_URL server \<mapsto> fst (RecordSuccess b))))
      else check_failed e (sv_URL server) c bs)"
  by (auto simp: check_def passes_def RecordSuccess_def Breaker_State_def Let_def split: sum.splits option.splits)

lemma check_breakers:
  "check e server c bs = (c', Inr bs') \<Longrightarrow>
     \<exists>b. bs (sv_URL server) = Some b
       \<and> bs' = bs(sv_URL server \<mapsto> (if passes e server then fst (RecordSuccess b) else RecordFailure (ce_now e) b))"
  by (auto simp: check_cases check_failed_def Let_def split: if_splits option.splits)

lemma check_stats_other:
  assumes "check e server c bs = (c', Inr bs')" and "u \<noteq> sv_URL server"
  shows "co_servers c' u = co_servers c u"
  using assms by (auto simp: check_cases check_failed_def check_ops Let_def split: if_splits option.splits)

lemma check_stats_same:
  assumes "check e server c bs = (c', Inr bs')" and "co_servers c (sv_URL server) = Some s"
  shows "\<exists>s' b'. co_servers c' (sv_URL server) = Some s' \<and> bs' (sv_URL server) = Some b'
     \<and> ss_IsHealthy s' = passes e server \<and> ss_CircuitState s' = Breaker_State b'
     \<and> ss_ActiveConnections s' = ss_ActiveConnections s \<and> ss_TotalRequests s' = ss_TotalRequests s"
  using assms
  by (auto simp: check_cases check_failed_def check_ops RecordSuccess_def Breaker_State_def Let_def
      split: if_splits option.splits)

text \<open>
  A health check decides the health of its server and keeps the dashboard in step with the breaker. When the check of a monitored server returns,
  the server is marked healthy exactly when the probe answered with the expected status, the breaker has recorded that success
  or failure, the circuit state shown for the server is the state of its breaker, the request counters are untouched, and nothing changed for any
  other server.
\<close>

theorem check_outcome:
  assumes "check e server c bs = (c', Inr bs')" and "co_servers c (sv_URL server) = Some s"
  shows "\<exists>s' b. co_servers c' (sv_URL server) = Some s' \<and> bs (sv_URL server) = Some b
     \<and> ss_IsHealthy s' = passes e server
     \<and> bs' = bs(sv_URL server \<mapsto> (if passes e server then fst (RecordSuccess b) else RecordFailure (ce_now e) b))
     \<and> ss_CircuitState s' = Breaker_State (the (bs' (sv_URL server)))
     \<and> ss_ActiveConnections s' = ss_ActiveConnections s \<and> ss_TotalRequests s' = ss_TotalRequests s
     \<and> (\<forall>u. u \<noteq> sv_URL server \<longrightarrow> co_servers c' u = co_servers c u)"
  using check_breakers [OF assms(1)] check_stats_same [OF assms] check_stats_other [OF assms(1)] by auto

definition demo_monitored :: ServerConfig where
  "demo_monitored = demo_server ''a''\<lparr>sv_HealthCheck := \<lparr>hc_Path = ''/h'', hc_IntervalSec = 5, hc_TimeoutSec = 2, hc_ExpectedStatus = 200\<rparr>\<rparr>"

definition demo_probe :: "int \<Rightarrow> check_env" where
  "demo_probe status = \<lparr>ce_response = Inr status, ce_now = 7, ce_healthStamp = ''t'', ce_circuitStamp = ''t''\<rparr>"

theorem check_outcome_witness:
  "\<exists>c' bs' s'. check (demo_probe 503) demo_monitored (New 0 [''a'', ''b''] [] []) [''a'' \<mapsto> NewBreaker 1 10] = (c', Inr bs')
     \<and> co_servers c' ''a'' = Some s' \<and> \<not> ss_IsHealthy s' \<and> ss_CircuitState s' = ''OPEN''"
proof -
  let ?bs = "[''a'' \<mapsto> NewBreaker 1 10]" and ?c = "New 0 [''a'', ''b''] [] []"
  have url: "sv_URL demo_monitored = ''a''" and p: "\<not> passes (demo_probe 503) demo_monitored"
    by (simp_all add: demo_monitored_def demo_server_def demo_probe_def passes_def)
  obtain c' bs' where r: "check (demo_probe 503) demo_monitored ?c ?bs = (c', Inr bs')"
    by (simp add: check_cases p check_failed_def url Let_def)
  have s: "co_servers ?c (sv_URL demo_monitored) = Some (new_stats ''a'' ''a'' 1)" by (simp add: url New_def)
  have "Breaker_State (RecordFailure (ce_now (demo_probe 503)) (NewBreaker 1 10)) = ''OPEN''"
    by (simp add: Breaker_State_def RecordFailure_def NewBreaker_def Let_def i64_def)
  with check_outcome [OF r s] p r show ?thesis by (auto simp: url)
qed

section \<open>Stopping\<close>

definition monitor_ok :: "Monitor \<Rightarrow> bool" where
  "monitor_ok m \<longleftrightarrow>
     distinct (mo_stopChs m) \<and> set (mo_stopChs m) \<inter> mo_closed m = {}
     \<and> (\<forall>ch \<in> set (mo_stopChs m) \<union> mo_closed m. ch < mo_next m)
     \<and> (\<forall>(ch, srv) \<in> set (mo_running m). ch \<in> set (mo_stopChs m) \<union> mo_closed m \<and> srv \<in> set (mo_servers m))"

lemma start_loop_servers [simp]: "mo_servers (start_loop servers m) = mo_servers m"
  by (induction servers m rule: start_loop.induct) (auto simp: Let_def)

lemma monitor_ok_start_loop:
  "monitor_ok m \<Longrightarrow> set servers \<subseteq> set (mo_servers m) \<Longrightarrow> monitor_ok (start_loop servers m)"
proof (induction servers m rule: start_loop.induct)
  case (2 s servers m)
  have "monitor_ok (m\<lparr>mo_next := mo_next m + 1, mo_stopChs := mo_stopChs m @ [mo_next m],
           mo_running := mo_running m @ [(mo_next m, s)]\<rparr>)"
    using "2.prems" by (auto simp: monitor_ok_def less_SucI)
  from "2.IH" [OF refl this] "2.prems" show ?case by (simp add: Let_def)
qed simp

lemma close_loop_ok:
  "distinct chs \<Longrightarrow> set chs \<inter> shut = {} \<Longrightarrow> close_loop chs shut = Inr (set chs \<union> shut)"
  by (induction chs shut rule: close_loop.induct) auto

lemma Monitor_Stop_ok:
  assumes "monitor_ok m"
  shows "Monitor_Stop m = Inr (m\<lparr>mo_closed := set (mo_stopChs m) \<union> mo_closed m, mo_stopChs := []\<rparr>)"
  using assms by (simp add: Monitor_Stop_def monitor_ok_def close_loop_ok)

lemma mon_step_ok: "mon_step s e s' \<Longrightarrow> monitor_ok (ms_monitor s) \<Longrightarrow> monitor_ok (ms_monitor s')"
proof (induction rule: mon_step.induct)
  case (step_start s)
  then show ?case by (simp add: Monitor_Start_def monitor_ok_start_loop)
next
  case (step_return ch server s)
  then show ?case by (auto simp: monitor_ok_def)
next
  case (step_stop s m')
  then show ?case by (auto simp: Monitor_Stop_ok monitor_ok_def)
qed simp

lemma mon_step_servers: "mon_step s e s' \<Longrightarrow> mo_servers (ms_monitor s') = mo_servers (ms_monitor s)"
  by (induction rule: mon_step.induct) (auto simp: Monitor_Start_def Monitor_Stop_def split: sum.splits)

lemma mon_reachable_ok:
  "mon_reachable s0 s \<Longrightarrow> monitor_ok (ms_monitor s0)
     \<Longrightarrow> monitor_ok (ms_monitor s) \<and> mo_servers (ms_monitor s) = mo_servers (ms_monitor s0)"
  by (induction rule: mon_reachable.induct) (auto dest: mon_step_ok mon_step_servers)

lemma monitor_ok_new: "monitor_ok (NewMonitor servers)"
  by (simp add: monitor_ok_def NewMonitor_def)

lemma all_return:
  assumes "\<forall>(ch, srv) \<in> set (mo_running (ms_monitor s)). ch \<in> mo_closed (ms_monitor s) \<and> ticker_ok srv"
  shows "\<exists>s'. mon_reachable s s' \<and> mo_running (ms_monitor s') = []
     \<and> ms_collector s' = ms_collector s \<and> ms_breakers s' = ms_breakers s"
  using assms
proof (induction "length (mo_running (ms_monitor s))" arbitrary: s rule: less_induct)
  case less
  show ?case
  proof (cases "mo_running (ms_monitor s)")
    case Nil
    then show ?thesis using mon_refl by blast
  next
    case (Cons g gs)
    let ?f = "filter (\<lambda>(c, srv). c \<noteq> fst g) (mo_running (ms_monitor s))"
    let ?s = "s\<lparr>ms_monitor := ms_monitor s\<lparr>mo_running := ?f\<rparr>\<rparr>"
    have step: "mon_step s (EvReturn (fst g)) ?s" using less.prems Cons by (intro step_return [of _ "snd g"]) auto
    have "length ?f < length (mo_running (ms_monitor s))"
      by (rule length_filter_less [of g]) (use Cons in auto)
    then obtain s' where s': "mon_reachable ?s s'" "mo_running (ms_monitor s') = []"
      "ms_collector s' = ms_collector s" "ms_breakers s' = ms_breakers s"
      using less.hyps [of ?s] less.prems by fastforce
    have "mon_reachable s s'"
      using s'(1) by (induction rule: mon_reachable.induct) (auto intro: mon_trans mon_refl step)
    then show ?thesis using s' by blast
  qed
qed

text \<open>
  C26. A monitor can always be stopped, and stopping it leaks no goroutine. However a monitor has been started, stopped and ticked since it
  was made, with positive intervals, \<^verbatim>\<open>Stop\<close> does not panic (no channel is closed twice), it leaves every goroutine with a closed channel, and
  from then on the goroutines can all return without another check.
\<close>

theorem monitor_stop_releases:
  assumes "mon_reachable \<lparr>ms_monitor = NewMonitor servers, ms_collector = c, ms_breakers = bs\<rparr> s"
    and "\<forall>srv \<in> set servers. ticker_ok srv"
  shows "\<exists>m' s'. Monitor_Stop (ms_monitor s) = Inr m'
     \<and> fst ` set (mo_running m') \<subseteq> mo_closed m'
     \<and> mon_reachable (s\<lparr>ms_monitor := m'\<rparr>) s' \<and> mo_running (ms_monitor s') = []
     \<and> ms_collector s' = ms_collector s \<and> ms_breakers s' = ms_breakers s"
proof -
  have ok: "monitor_ok (ms_monitor s)" and "mo_servers (ms_monitor s) = servers"
    using mon_reachable_ok [OF assms(1)] by (simp_all add: monitor_ok_new, simp add: NewMonitor_def)
  then have t: "\<forall>(ch, srv) \<in> set (mo_running (ms_monitor s)).
      ch \<in> set (mo_stopChs (ms_monitor s)) \<union> mo_closed (ms_monitor s) \<and> ticker_ok srv"
    using assms(2) unfolding monitor_ok_def by auto
  define m' where "m' = ms_monitor s\<lparr>mo_closed := set (mo_stopChs (ms_monitor s)) \<union> mo_closed (ms_monitor s), mo_stopChs := []\<rparr>"
  have "Monitor_Stop (ms_monitor s) = Inr m'" unfolding m'_def by (rule Monitor_Stop_ok [OF ok])
  moreover have "fst ` set (mo_running m') \<subseteq> mo_closed m'" using t by (auto simp: m'_def)
  ultimately show ?thesis using all_return [of "s\<lparr>ms_monitor := m'\<rparr>"] t by (auto simp: m'_def)
qed

theorem monitor_stop_releases_witness:
  "\<exists>m'. Monitor_Stop (Monitor_Start (NewMonitor [demo_monitored])) = Inr m'
     \<and> mo_running m' = [(0, demo_monitored)] \<and> 0 \<in> mo_closed m'"
proof -
  let ?s = "\<lparr>ms_monitor = NewMonitor [demo_monitored], ms_collector = New 0 [] [] [], ms_breakers = Map.empty\<rparr>"
  have "mon_reachable ?s (?s\<lparr>ms_monitor := Monitor_Start (ms_monitor ?s)\<rparr>)"
    by (rule mon_trans [OF mon_refl step_start])
  moreover have "ticker_ok demo_monitored"
    by (simp add: ticker_ok_def check_interval_def seconds_def demo_monitored_def demo_server_def i64_def)
  ultimately show ?thesis
    using monitor_stop_releases [of "[demo_monitored]"] by (auto simp: Monitor_Stop_def Monitor_Start_def NewMonitor_def Let_def)
qed

end
