(* ===== verification/Service.thy ===== *)
theory Service
  imports Dispatch Monitor
begin

text \<open>
  The service manager, \<^verbatim>\<open>src/internal/service/manager.go\<close>. In Go the collector and the breakers of a service are shared by
  pointer between its router, its monitor and its proxy handler; here they live once, in the router of the instance. A manager is
  one object behind a mutex, so a method is one step; orders of map iterations and clock readings are arguments.
\<close>

section \<open>State\<close>

text \<open>The settings of the proxy handler of a service; its router, collector and breakers are those of the instance.\<close>

record ProxyHandler =
  ph_maxRetries :: int
  ph_perAttemptTimeout :: duration

definition proxy_New :: "int \<Rightarrow> int \<Rightarrow> ProxyHandler" where
  "proxy_New maxRetries perAttemptTimeoutSec =
     \<lparr>ph_maxRetries = maxRetries, ph_perAttemptTimeout = seconds perAttemptTimeoutSec\<rparr>"

record Instance =
  is_Name :: string
  is_Config :: ServiceConfig
  is_Monitor :: "Monitor option"
  is_Router :: Router
  is_Handler :: ProxyHandler

abbreviation is_Collector :: "Instance \<Rightarrow> Collector" where
  "is_Collector inst \<equiv> ro_metrics (is_Router inst)"

abbreviation is_Breakers :: "Instance \<Rightarrow> breaker_map" where
  "is_Breakers inst \<equiv> ro_breakers (is_Router inst)"

record Manager =
  mg_instances :: "string \<rightharpoonup> Instance"
  mg_cfg :: Config

section \<open>Construction\<close>

fun breakers_loop :: "url list \<Rightarrow> CircuitBreakerConfig option \<Rightarrow> breaker_map \<Rightarrow> breaker_map result" where
  "breakers_loop [] cb bs = Inr bs"
| "breakers_loop (u # us) cb bs =
     (case cb of
        None \<Rightarrow> Inl (GoPanic ''nil circuit breaker config'')
      | Some c \<Rightarrow> breakers_loop us cb (bs(u \<mapsto> NewBreaker (cb_Threshold c) (seconds (cb_RecoveryTimeoutSec c)))))"

definition buildInstance :: "time \<Rightarrow> string \<Rightarrow> ServiceConfig \<Rightarrow> Config \<Rightarrow> Instance result" where
  "buildInstance now name svcCfg cfg =
     (let urls = map sv_URL (sc_Servers svcCfg);
          names = map sv_Name (sc_Servers svcCfg);
          weights = map sv_Weight (sc_Servers svcCfg);
          collector = New now urls names weights
      in case sc_LoadBalancer svcCfg of
           None \<Rightarrow> Inl (GoPanic ''nil load balancer config'')
         | Some lb \<Rightarrow>
             (let algo = (if sc_Canary svcCfg then ''canary'' else lb_Algorithm lb);
                  collector1 = SetAlgorithm algo collector
              in case breakers_loop urls (sc_CircuitBreaker svcCfg) Map.empty of
                   Inl e \<Rightarrow> Inl e
                 | Inr breakers \<Rightarrow>
                     Inr \<lparr>is_Name = name, is_Config = svcCfg,
                          is_Monitor = (if length (sc_Servers svcCfg) > 0
                                        then Some (Monitor_Start (NewMonitor (sc_Servers svcCfg))) else None),
                          is_Router = NewRouter urls collector1 breakers (getAlgorithm algo),
                          is_Handler = proxy_New (cf_MaxRetries cfg) (cf_PerAttemptTimeoutSec cfg)\<rparr>))"

fun buildAll :: "string list \<Rightarrow> (string \<Rightarrow> time) \<Rightarrow> Config \<Rightarrow> Manager \<Rightarrow> Manager result" where
  "buildAll [] now cfg m = Inr m"
| "buildAll (k # ks) now cfg m =
     (case cf_Services cfg k of
        None \<Rightarrow> buildAll ks now cfg m
      | Some None \<Rightarrow> Inl (GoPanic ''nil service'')
      | Some (Some svcCfg) \<Rightarrow>
          (case buildInstance (now k) k svcCfg cfg of
             Inl e \<Rightarrow> Inl e
           | Inr inst \<Rightarrow> buildAll ks now cfg (m\<lparr>mg_instances := (mg_instances m)(k \<mapsto> inst)\<rparr>)))"

definition NewManager :: "string list \<Rightarrow> (string \<Rightarrow> time) \<Rightarrow> Config \<Rightarrow> Manager result" where
  "NewManager ks now cfg = buildAll ks now cfg \<lparr>mg_instances = Map.empty, mg_cfg = cfg\<rparr>"

section \<open>Operations\<close>

definition Manager_Get :: "Manager \<Rightarrow> string \<Rightarrow> ProxyHandler option" where
  "Manager_Get m name = map_option is_Handler (mg_instances m name)"

definition GetInstance :: "Manager \<Rightarrow> string \<Rightarrow> Instance option" where
  "GetInstance m name = mg_instances m name"

definition Instances :: "Manager \<Rightarrow> (string \<rightharpoonup> Instance)" where
  "Instances m = mg_instances m"

definition GetConfig :: "Manager \<Rightarrow> Config" where
  "GetConfig m = mg_cfg m"

definition set_instance :: "string \<Rightarrow> Instance \<Rightarrow> Manager \<Rightarrow> Manager" where
  "set_instance name inst m = m\<lparr>mg_instances := (mg_instances m)(name \<mapsto> inst)\<rparr>"

definition set_router :: "Router \<Rightarrow> Instance \<Rightarrow> Instance" where
  "set_router r inst = inst\<lparr>is_Router := r\<rparr>"

definition set_collector :: "Collector \<Rightarrow> Instance \<Rightarrow> Instance" where
  "set_collector c inst = set_router (is_Router inst\<lparr>ro_metrics := c\<rparr>) inst"

definition set_breakers :: "breaker_map \<Rightarrow> Instance \<Rightarrow> Instance" where
  "set_breakers bs inst = set_router (is_Router inst\<lparr>ro_breakers := bs\<rparr>) inst"

fun import_loop :: "string list \<Rightarrow> (string \<Rightarrow> url list) \<Rightarrow> (string \<rightharpoonup> stats_map) \<Rightarrow> Manager \<Rightarrow> Manager" where
  "import_loop [] ord oldSnaps m = m"
| "import_loop (k # ks) ord oldSnaps m =
     (case (mg_instances m k, oldSnaps k) of
        (Some inst, Some oldSnap) \<Rightarrow>
          import_loop ks ord oldSnaps
            (set_instance k (set_collector (ImportMetrics (ord k) oldSnap (is_Collector inst)) inst) m)
      | _ \<Rightarrow> import_loop ks ord oldSnaps m)"

definition Manager_ImportMetrics :: "string list \<Rightarrow> (string \<Rightarrow> url list) \<Rightarrow> Manager option \<Rightarrow> Manager \<Rightarrow> Manager" where
  "Manager_ImportMetrics ks ord oldMgr m =
     (case oldMgr of
        None \<Rightarrow> m
      | Some old \<Rightarrow>
          (let oldSnaps = (\<lambda>name. map_option (\<lambda>inst. Snapshot (is_Collector inst)) (Instances old name))
           in import_loop ks ord oldSnaps m))"

text \<open>\<^verbatim>\<open>GlobalCollector\<close>: the loop over the servers of one instance, then over the instances; the state is \<^verbatim>\<open>seen\<close> and the three lists.\<close>

fun global_servers ::
  "ServerConfig list \<Rightarrow> url set \<times> url list \<times> string list \<times> int list \<Rightarrow> url set \<times> url list \<times> string list \<times> int list" where
  "global_servers [] acc = acc"
| "global_servers (s # ss) (seen, urls, names, weights) =
     (if sv_URL s \<in> seen then global_servers ss (seen, urls, names, weights)
      else global_servers ss
        (insert (sv_URL s) seen, urls @ [sv_URL s], names @ [sv_Name s], weights @ [sv_Weight s]))"

fun global_loop ::
  "string list \<Rightarrow> Manager \<Rightarrow> url set \<times> url list \<times> string list \<times> int list \<Rightarrow> url set \<times> url list \<times> string list \<times> int list" where
  "global_loop [] m acc = acc"
| "global_loop (k # ks) m acc =
     (case mg_instances m k of
        None \<Rightarrow> global_loop ks m acc
      | Some inst \<Rightarrow> global_loop ks m (global_servers (sc_Servers (is_Config inst)) acc))"

definition GlobalCollector :: "string list \<Rightarrow> time \<Rightarrow> Manager \<Rightarrow> Collector" where
  "GlobalCollector ks now m =
     (let (seen, allURLs, allNames, allWeights) = global_loop ks m ({}, [], [], [])
      in SetAlgorithm (cf_Algorithm (mg_cfg m)) (New now allURLs allNames allWeights))"

text \<open>
  The loop of \<^verbatim>\<open>DashboardSnap\<close> over the instances. \<open>now k\<close> and \<open>ord k\<close> are the clock reading and the order of iteration in the collector
  of the instance \<open>k\<close>.
\<close>

fun snap_loop ::
  "string list \<Rightarrow> (string \<Rightarrow> time) \<Rightarrow> (string \<Rightarrow> url list) \<Rightarrow> Manager \<times> stats_map \<times> CircuitEvent list \<times> f64
     \<Rightarrow> Manager \<times> stats_map \<times> CircuitEvent list \<times> f64" where
  "snap_loop [] now ord acc = acc"
| "snap_loop (k # ks) now ord (m, allServers, allEvents, totalRPS) =
     (case mg_instances m k of
        None \<Rightarrow> snap_loop ks now ord (m, allServers, allEvents, totalRPS)
      | Some inst \<Rightarrow>
          (let (c, snap) = DashboardSnap (now k) (ord k) (is_Collector inst)
           in snap_loop ks now ord
                (set_instance k (set_collector c inst) m, allServers ++ ds_Servers snap,
                 allEvents @ ds_CircuitEvents snap, fadd totalRPS (ds_GlobalRPS snap))))"

definition Manager_DashboardSnap ::
  "string list \<Rightarrow> (string \<Rightarrow> time) \<Rightarrow> (string \<Rightarrow> url list) \<Rightarrow> url list \<Rightarrow> Manager \<Rightarrow> Manager \<times> DashboardSnapshot" where
  "Manager_DashboardSnap ks now ord us m =
     (let (m1, allServers, allEvents, totalRPS) = snap_loop ks now ord (m, Map.empty, [], 0);
          (totalReq, totalOK, healthyCount) = snap_totals us allServers (0, 0, 0)
      in (m1,
          \<lparr>ds_Servers = allServers, ds_GlobalRPS = totalRPS, ds_TotalRequests = totalReq,
           ds_SuccessRate = success_rate totalOK totalReq, ds_HealthyCount = healthyCount,
           ds_TotalCount = int (length us), ds_Algorithm = cf_Algorithm (mg_cfg m),
           ds_CircuitEvents = last_n 50 allEvents\<rparr>))"

fun Manager_Stop :: "string list \<Rightarrow> Manager \<Rightarrow> Manager result" where
  "Manager_Stop [] m = Inr m"
| "Manager_Stop (k # ks) m =
     (case mg_instances m k of
        None \<Rightarrow> Manager_Stop ks m
      | Some inst \<Rightarrow>
          (case is_Monitor inst of
             None \<Rightarrow> Manager_Stop ks m
           | Some mon \<Rightarrow>
               (case Monitor_Stop mon of
                  Inl e \<Rightarrow> Inl e
                | Inr mon1 \<Rightarrow> Manager_Stop ks (set_instance k (inst\<lparr>is_Monitor := Some mon1\<rparr>) m))))"

text \<open>The update of the instance that has a breaker for the URL; \<open>now\<close> and \<open>stamp\<close> are the clock readings.\<close>

definition record_on :: "time \<Rightarrow> string \<Rightarrow> url \<Rightarrow> bool \<Rightarrow> Breaker \<Rightarrow> Instance \<Rightarrow> Instance" where
  "record_on now stamp url success b inst =
     (let (b1, clear) = (if success then RecordSuccess b else (RecordFailure now b, False));
          c1 = (if clear then ClearLatencies url (is_Collector inst) else is_Collector inst)
      in set_collector (SetCircuitState stamp url (Breaker_State b1) c1)
           (set_breakers ((is_Breakers inst)(url \<mapsto> b1)) inst))"

fun RecordCircuitBreakerResult :: "string list \<Rightarrow> time \<Rightarrow> string \<Rightarrow> url \<Rightarrow> bool \<Rightarrow> Manager \<Rightarrow> Manager" where
  "RecordCircuitBreakerResult [] now stamp url success m = m"
| "RecordCircuitBreakerResult (k # ks) now stamp url success m =
     (case mg_instances m k of
        None \<Rightarrow> RecordCircuitBreakerResult ks now stamp url success m
      | Some inst \<Rightarrow>
          (case is_Breakers inst url of
             None \<Rightarrow> RecordCircuitBreakerResult ks now stamp url success m
           | Some b \<Rightarrow> set_instance k (record_on now stamp url success b inst) m))"

section \<open>The manager of a loaded configuration\<close>

text \<open>
  What holds of every instance: router, breakers and statistics speak of the configured servers, and there is a monitor, in order, unless there
  are no servers. Across the manager: instances and configured services correspond, and a URL belongs to one instance.
\<close>

definition instance_ok :: "Instance \<Rightarrow> bool" where
  "instance_ok inst \<longleftrightarrow>
     ro_servers (is_Router inst) = map sv_URL (sc_Servers (is_Config inst))
     \<and> dom (is_Breakers inst) = set (ro_servers (is_Router inst))
     \<and> dom (co_servers (is_Collector inst)) = set (ro_servers (is_Router inst))
     \<and> (case is_Monitor inst of
          None \<Rightarrow> sc_Servers (is_Config inst) = []
        | Some mon \<Rightarrow> monitor_ok mon \<and> mo_servers mon = sc_Servers (is_Config inst))"

definition mgr_ok :: "Manager \<Rightarrow> bool" where
  "mgr_ok m \<longleftrightarrow>
     (\<forall>k inst. mg_instances m k = Some inst \<longrightarrow>
        instance_ok inst \<and> is_Name inst = k \<and> cf_Services (mg_cfg m) k = Some (Some (is_Config inst)))
     \<and> dom (mg_instances m) = dom (cf_Services (mg_cfg m))
     \<and> urls_unique (mg_cfg m)"

lemma mgr_ok_instance:
  assumes "mgr_ok m" and "mg_instances m k = Some inst"
  shows "instance_ok inst" and "dom (co_servers (is_Collector inst)) = dom (is_Breakers inst)"
    and "is_Name inst = k" and "cf_Services (mg_cfg m) k = Some (Some (is_Config inst))"
  using assms unfolding mgr_ok_def instance_ok_def by blast+

lemma dom_New_loop [simp]: "dom (New_loop i urls names weights m) = set urls \<union> dom m"
proof (induction urls arbitrary: i m)
  case (Cons u urls)
  then show ?case by (simp only: New_loop.simps Let_def) auto
qed simp

lemma breakers_loop_eq:
  "breakers_loop us (Some c) bs
     = Inr (\<lambda>u. if u \<in> set us then Some (NewBreaker (cb_Threshold c) (seconds (cb_RecoveryTimeoutSec c))) else bs u)"
  by (induction us "Some c" bs rule: breakers_loop.induct) auto

lemma monitor_ok_Start: "monitor_ok m \<Longrightarrow> monitor_ok (Monitor_Start m)"
  by (simp add: Monitor_Start_def monitor_ok_start_loop)

lemma NewMonitor_servers [simp]: "mo_servers (NewMonitor s) = s"
  by (simp add: NewMonitor_def)

lemma buildInstance_ready:
  assumes "service_ready svc"
  shows "\<exists>inst. buildInstance now k svc cfg = Inr inst \<and> instance_ok inst \<and> is_Name inst = k \<and> is_Config inst = svc"
proof -
  obtain l b where "sc_LoadBalancer svc = Some l" and "sc_CircuitBreaker svc = Some b"
    using assms by (auto simp: service_ready_def)
  then show ?thesis
    by (auto simp: buildInstance_def breakers_loop_eq instance_ok_def NewRouter_def SetAlgorithm_def New_def Let_def
        Monitor_Start_def monitor_ok_start_loop monitor_ok_new split: if_splits)
qed

lemma buildAll_ready:
  assumes "\<forall>k p. cf_Services cfg k = Some p \<longrightarrow> (\<exists>svc. p = Some svc \<and> service_ready svc)"
  shows "\<exists>m'. buildAll ks now cfg m = Inr m' \<and> mg_cfg m' = mg_cfg m
     \<and> (\<forall>k. k \<notin> set ks \<or> cf_Services cfg k = None \<longrightarrow> mg_instances m' k = mg_instances m k)
     \<and> (\<forall>k svc. k \<in> set ks \<and> cf_Services cfg k = Some (Some svc) \<longrightarrow>
          (\<exists>inst. mg_instances m' k = Some inst \<and> instance_ok inst \<and> is_Name inst = k \<and> is_Config inst = svc))"
proof (induction ks arbitrary: m)
  case (Cons k ks)
  show ?case
  proof (cases "cf_Services cfg k")
    case None
    then show ?thesis using Cons.IH [of m] by auto
  next
    case (Some p)
    then obtain svc where svc: "p = Some svc" "service_ready svc" using assms by blast
    obtain inst where inst: "buildInstance (now k) k svc cfg = Inr inst" "instance_ok inst" "is_Name inst = k" "is_Config inst = svc"
      using buildInstance_ready [OF svc(2)] by blast
    obtain m' where m': "buildAll ks now cfg (m\<lparr>mg_instances := (mg_instances m)(k \<mapsto> inst)\<rparr>) = Inr m'"
      "mg_cfg m' = mg_cfg m"
      "\<forall>j. j \<notin> set ks \<or> cf_Services cfg j = None \<longrightarrow> mg_instances m' j = ((mg_instances m)(k \<mapsto> inst)) j"
      "\<forall>j svc. j \<in> set ks \<and> cf_Services cfg j = Some (Some svc) \<longrightarrow>
          (\<exists>inst. mg_instances m' j = Some inst \<and> instance_ok inst \<and> is_Name inst = j \<and> is_Config inst = svc)"
      using Cons.IH [of "m\<lparr>mg_instances := (mg_instances m)(k \<mapsto> inst)\<rparr>"] by auto
    have "buildAll (k # ks) now cfg m = Inr m'" using Some svc inst m' by simp
    moreover have "\<exists>i. mg_instances m' j = Some i \<and> instance_ok i \<and> is_Name i = j \<and> is_Config i = s"
      if "j \<in> set (k # ks)" "cf_Services cfg j = Some (Some s)" for j s
      using that m'(3,4) inst Some svc by (cases "j \<in> set ks") auto
    moreover have "mg_instances m' j = mg_instances m j" if "j \<notin> set (k # ks) \<or> cf_Services cfg j = None" for j
      using that m'(3) Some by auto
    ultimately show ?thesis using m'(2) by blast
  qed
qed auto

lemma NewManager_ok:
  assumes "range_order (cf_Services c) ks" and "config_ready c" and "urls_unique c"
  shows "\<exists>m. NewManager ks now c = Inr m \<and> mgr_ok m \<and> mg_cfg m = c"
proof -
  have "\<forall>k p. cf_Services c k = Some p \<longrightarrow> (\<exists>svc. p = Some svc \<and> service_ready svc)"
    using assms(2) by (simp add: config_ready_def)
  from buildAll_ready [OF this, of ks now "\<lparr>mg_instances = Map.empty, mg_cfg = c\<rparr>"]
  obtain m where m: "NewManager ks now c = Inr m" "mg_cfg m = c"
    "\<forall>k. k \<notin> set ks \<or> cf_Services c k = None \<longrightarrow> mg_instances m k = None"
    "\<forall>k svc. k \<in> set ks \<and> cf_Services c k = Some (Some svc) \<longrightarrow>
          (\<exists>inst. mg_instances m k = Some inst \<and> instance_ok inst \<and> is_Name inst = k \<and> is_Config inst = svc)"
    by (auto simp: NewManager_def)
  have ks: "set ks = dom (cf_Services c)" using assms(1) by (simp add: range_order_def)
  have some: "\<exists>svc. cf_Services c k = Some (Some svc)" if "k \<in> set ks" for k
    using that assms(2) ks unfolding config_ready_def by (metis domD)
  have "instance_ok inst \<and> is_Name inst = k \<and> cf_Services c k = Some (Some (is_Config inst))" if "mg_instances m k = Some inst" for k inst
  proof -
    have "k \<in> set ks" using that m(3) by (metis option.distinct(1))
    with some m(4) that show ?thesis by fastforce
  qed
  moreover have "dom (mg_instances m) = dom (cf_Services c)"
  proof (rule set_eqI)
    fix k show "k \<in> dom (mg_instances m) \<longleftrightarrow> k \<in> dom (cf_Services c)"
      using m(3,4) some ks by (cases "k \<in> set ks") fastforce+
  qed
  ultimately have "mgr_ok m" using assms(3) m(2) by (simp add: mgr_ok_def)
  with m show ?thesis by blast
qed

section \<open>Running a manager\<close>

text \<open>
  What the rest of the program does to a manager: a selection and the metrics of a request on the instance \<open>k\<close>, a health check by one of its goroutines,
  the result that the circuit breaker middleware reports, a dashboard snapshot, an import at a reload, and the stop.
\<close>

datatype mgr_op =
    MgrSelect string "url \<Rightarrow> time" time "nat \<Rightarrow> f64" string "url list"
  | MgrMetrics string collector_op
  | MgrProbe string check_env ServerConfig
  | MgrRecord "string list" time string url bool
  | MgrSnap "string list" "string \<Rightarrow> time" "string \<Rightarrow> url list" "url list"
  | MgrImport "string list" "string \<Rightarrow> url list" "Manager option"
  | MgrStop "string list"

definition on_instance :: "string \<Rightarrow> (Instance \<Rightarrow> Instance result) \<Rightarrow> Manager \<Rightarrow> Manager result" where
  "on_instance k f m =
     (case mg_instances m k of
        None \<Rightarrow> Inr m
      | Some inst \<Rightarrow> (case f inst of Inl e \<Rightarrow> Inl e | Inr inst1 \<Rightarrow> Inr (set_instance k inst1 m)))"

definition select_on :: "(url \<Rightarrow> time) \<Rightarrow> time \<Rightarrow> (nat \<Rightarrow> f64) \<Rightarrow> string \<Rightarrow> url list \<Rightarrow> Instance \<Rightarrow> Instance result" where
  "select_on tf tc rnd pri excl inst =
     (case Router_Select tf tc rnd pri excl (is_Router inst) of
        (x, Inl (GoPanic e)) \<Rightarrow> Inl (GoPanic e)
      | ((r, rnd1), y) \<Rightarrow> Inr (set_router r inst))"

definition probe_on :: "check_env \<Rightarrow> ServerConfig \<Rightarrow> Instance \<Rightarrow> Instance result" where
  "probe_on e server inst =
     (if server \<in> set (sc_Servers (is_Config inst))
      then case check e server (is_Collector inst) (is_Breakers inst) of
             (c, Inl err) \<Rightarrow> Inl err
           | (c, Inr bs) \<Rightarrow> Inr (set_breakers bs (set_collector c inst))
      else Inr inst)"

fun mgr_step :: "mgr_op \<Rightarrow> Manager \<Rightarrow> Manager result" where
  "mgr_step (MgrSelect k tf tc rnd pri excl) m = on_instance k (select_on tf tc rnd pri excl) m"
| "mgr_step (MgrMetrics k e) m = on_instance k (\<lambda>inst. Inr (set_collector (collector_step (is_Collector inst) e) inst)) m"
| "mgr_step (MgrProbe k e server) m = on_instance k (probe_on e server) m"
| "mgr_step (MgrRecord ks now stamp url ok) m = Inr (RecordCircuitBreakerResult ks now stamp url ok m)"
| "mgr_step (MgrSnap ks now ord us) m = Inr (fst (Manager_DashboardSnap ks now ord us m))"
| "mgr_step (MgrImport ks ord old) m = Inr (Manager_ImportMetrics ks ord old m)"
| "mgr_step (MgrStop ks) m = Manager_Stop ks m"

fun mgr_run :: "mgr_op list \<Rightarrow> Manager \<Rightarrow> Manager result" where
  "mgr_run [] m = Inr m"
| "mgr_run (e # es) m = (case mgr_step e m of Inl f \<Rightarrow> Inl f | Inr m1 \<Rightarrow> mgr_run es m1)"

lemma set_instance_simps [simp]:
  "mg_instances (set_instance k inst m) = (mg_instances m)(k \<mapsto> inst)" "mg_cfg (set_instance k inst m) = mg_cfg m"
  by (simp_all add: set_instance_def)

lemma set_router_simps [simp]:
  "is_Router (set_router r inst) = r" "is_Name (set_router r inst) = is_Name inst"
  "is_Config (set_router r inst) = is_Config inst" "is_Monitor (set_router r inst) = is_Monitor inst"
  "is_Handler (set_router r inst) = is_Handler inst"
  by (simp_all add: set_router_def)

lemma set_parts_simps [simp]:
  "is_Router (set_collector c inst) = is_Router inst\<lparr>ro_metrics := c\<rparr>"
  "is_Router (set_breakers bs inst) = is_Router inst\<lparr>ro_breakers := bs\<rparr>"
  "is_Name (set_collector c inst) = is_Name inst" "is_Name (set_breakers bs inst) = is_Name inst"
  "is_Config (set_collector c inst) = is_Config inst" "is_Config (set_breakers bs inst) = is_Config inst"
  "is_Monitor (set_collector c inst) = is_Monitor inst" "is_Monitor (set_breakers bs inst) = is_Monitor inst"
  by (simp_all add: set_collector_def set_breakers_def)

lemma is_Collector_set [simp]: "is_Collector (set_collector c inst) = c"
  by simp

text \<open>An update that keeps the identity of an instance and its invariant keeps the invariant of the manager.\<close>

definition keeps :: "Instance \<Rightarrow> Instance \<Rightarrow> bool" where
  "keeps inst inst1 \<longleftrightarrow>
     (instance_ok inst \<longrightarrow> instance_ok inst1) \<and> is_Name inst1 = is_Name inst \<and> is_Config inst1 = is_Config inst"

lemma mgr_ok_set_instance:
  "mgr_ok m \<Longrightarrow> mg_instances m k = Some inst \<Longrightarrow> keeps inst inst1 \<Longrightarrow> mgr_ok (set_instance k inst1 m)"
  by (auto simp: mgr_ok_def keeps_def)

lemma keeps_collector [intro]: "dom (co_servers c) = dom (co_servers (is_Collector inst)) \<Longrightarrow> keeps inst (set_collector c inst)"
  by (auto simp: keeps_def instance_ok_def split: option.splits)

lemma keeps_breakers [intro]: "dom bs = dom (is_Breakers inst) \<Longrightarrow> keeps inst (set_breakers bs inst)"
  by (auto simp: keeps_def instance_ok_def split: option.splits)

lemma keeps_router:
  "ro_servers r = ro_servers (is_Router inst) \<Longrightarrow> dom (ro_breakers r) = dom (is_Breakers inst)
     \<Longrightarrow> dom (co_servers (ro_metrics r)) = dom (co_servers (is_Collector inst)) \<Longrightarrow> keeps inst (set_router r inst)"
  by (auto simp: keeps_def instance_ok_def split: option.splits)

lemma keeps_trans: "keeps a b \<Longrightarrow> keeps b c \<Longrightarrow> keeps a c"
  by (auto simp: keeps_def)

lemma dom_SetCircuitState [simp]: "dom (co_servers (SetCircuitState t u st c)) = dom (co_servers c)"
  by (auto simp: SetCircuitState_servers dom_def split: if_splits)

lemma dom_ImportMetrics [simp]: "dom (co_servers (ImportMetrics ks old c)) = dom (co_servers c)"
  by (induction ks old c rule: ImportMetrics.induct) (auto split: option.splits)

lemma dom_collector_step [simp]: "dom (co_servers (collector_step c e)) = dom (co_servers c)"
  by (cases e) (simp_all add: collector_op_defs)

lemma dom_clear_health [simp]:
  "dom (co_servers (ClearLatencies u c)) = dom (co_servers c)" "dom (co_servers (SetHealth t u h c)) = dom (co_servers c)"
  by (simp_all add: ClearLatencies_def SetHealth_def)

lemma keeps_set_both:
  "dom bs = dom (is_Breakers inst) \<Longrightarrow> dom (co_servers c) = dom (co_servers (is_Collector inst))
     \<Longrightarrow> keeps inst (set_collector c (set_breakers bs inst))"
  by (rule keeps_trans [OF keeps_breakers keeps_collector]) simp_all

lemma keeps_record_on:
  assumes "is_Breakers inst url = Some b"
  shows "keeps inst (record_on now stamp url ok b inst)"
  unfolding record_on_def Let_def case_prod_beta
  by (rule keeps_set_both) (use assms in \<open>simp_all add: insert_absorb domI\<close>)

lemma dom_check:
  "check e server c bs = (c', Inr bs') \<Longrightarrow> dom (co_servers c') = dom (co_servers c) \<and> dom bs' = dom bs"
  by (simp add: check_cases check_failed_def Let_def split: if_splits option.splits; elim conjE; hypsubst; simp add: insert_absorb domI)

lemma check_total:
  "sv_URL server \<in> dom bs \<Longrightarrow> \<exists>c' bs'. check e server c bs = (c', Inr bs')"
  by (auto simp: check_cases check_failed_def Let_def)

lemma probe_on_ok:
  assumes "instance_ok inst"
  shows "\<exists>inst1. probe_on e server inst = Inr inst1 \<and> keeps inst inst1"
proof (cases "server \<in> set (sc_Servers (is_Config inst))")
  case True
  then have "sv_URL server \<in> dom (is_Breakers inst)" using assms by (auto simp: instance_ok_def)
  then obtain c bs where c: "check e server (is_Collector inst) (is_Breakers inst) = (c, Inr bs)"
    using check_total by blast
  then have "keeps inst (set_breakers bs (set_collector c inst))"
    using dom_check [OF c] by (intro keeps_trans [OF keeps_collector keeps_breakers]) auto
  with c True show ?thesis by (simp add: probe_on_def)
qed (simp add: probe_on_def keeps_def)

lemma select_on_ok:
  assumes "instance_ok inst"
  shows "\<exists>inst1. select_on tf tc rnd pri excl inst = Inr inst1 \<and> keeps inst inst1"
proof -
  let ?r = "is_Router inst" and ?stats = "Snapshot (is_Collector inst)"
  have d: "set (ro_servers ?r) \<subseteq> dom (ro_breakers ?r)" using assms by (simp add: instance_ok_def)
  let ?cs = "filter (eligible tf (set excl) ?stats (ro_breakers ?r)) (ro_servers ?r)"
  have cs: "candidate_loop tf (ro_servers ?r) (set excl) ?stats (ro_breakers ?r) [] = Inr ?cs"
    using d by (simp add: candidate_loop_total)
  obtain a1 rnd1 v where v: "Algorithm_Select (ro_algo ?r, rnd) ?cs ?stats pri = ((a1, rnd1), v)"
    by (metis surj_pair)
  have "v = [] \<or> v \<in> set (ro_servers ?r)"
    using algo.select_candidate [of "(ro_algo ?r, rnd)" ?cs ?stats pri] v by auto
  with d have b: "v = [] \<or> (\<exists>b. ro_breakers ?r v = Some b)" by blast
  have "(\<exists>r' rnd' y. Router_Select tf tc rnd pri excl ?r = ((r', rnd'), y) \<and> (\<forall>e. y \<noteq> Inl (GoPanic e))
      \<and> ro_servers r' = ro_servers ?r \<and> ro_metrics r' = ro_metrics ?r \<and> dom (ro_breakers r') = dom (ro_breakers ?r))"
    using b by (auto simp: Router_Select_def cs v Let_def case_prod_beta)
  then show ?thesis
    by (auto simp: select_on_def split: sum.splits fault.splits intro!: keeps_router)
qed

lemma on_instance_ok:
  assumes "mgr_ok m" and "\<And>inst. instance_ok inst \<Longrightarrow> \<exists>inst1. f inst = Inr inst1 \<and> keeps inst inst1"
  shows "\<exists>m1. on_instance k f m = Inr m1 \<and> mgr_ok m1 \<and> mg_cfg m1 = mg_cfg m"
proof (cases "mg_instances m k")
  case None
  then show ?thesis using assms(1) by (simp add: on_instance_def)
next
  case (Some inst)
  then have "instance_ok inst" using assms(1) by (simp add: mgr_ok_def)
  then obtain inst1 where "f inst = Inr inst1" "keeps inst inst1" using assms(2) by blast
  then show ?thesis using mgr_ok_set_instance [OF assms(1) Some] Some by (simp add: on_instance_def)
qed

lemma import_loop_ok: "mgr_ok m \<Longrightarrow> mgr_ok (import_loop ks ord snaps m) \<and> mg_cfg (import_loop ks ord snaps m) = mg_cfg m"
proof (induction ks arbitrary: m)
  case (Cons k ks)
  show ?case
  proof (cases "mg_instances m k = None \<or> snaps k = None")
    case False
    then obtain inst old where i: "mg_instances m k = Some inst" "snaps k = Some old" by auto
    have "mgr_ok (set_instance k (set_collector (ImportMetrics (ord k) old (is_Collector inst)) inst) m)"
      by (rule mgr_ok_set_instance [OF Cons.prems i(1)]) (rule keeps_collector, simp)
    with Cons.IH i show ?thesis by simp
  qed (use Cons in \<open>auto split: option.splits\<close>)
qed simp

lemma snap_loop_ok:
  "mgr_ok m \<Longrightarrow> mgr_ok (fst (snap_loop ks now ord (m, S, E, r))) \<and> mg_cfg (fst (snap_loop ks now ord (m, S, E, r))) = mg_cfg m"
proof (induction ks arbitrary: m S E r)
  case (Cons k ks)
  show ?case
  proof (cases "mg_instances m k")
    case None
    then show ?thesis using Cons by simp
  next
    case (Some inst)
    have "mgr_ok (set_instance k (set_collector (fst (DashboardSnap (now k) (ord k) (is_Collector inst))) inst) m)"
      by (rule mgr_ok_set_instance [OF Cons.prems Some]) (rule keeps_collector, simp)
    with Cons.IH Some show ?thesis by (simp add: case_prod_beta Let_def)
  qed
qed simp

lemma Manager_Stop_ok: "mgr_ok m \<Longrightarrow> \<exists>m1. Manager_Stop ks m = Inr m1 \<and> mgr_ok m1 \<and> mg_cfg m1 = mg_cfg m"
proof (induction ks arbitrary: m)
  case (Cons k ks)
  show ?case
  proof (cases "\<exists>inst mon. mg_instances m k = Some inst \<and> is_Monitor inst = Some mon")
    case True
    then obtain inst mon where i: "mg_instances m k = Some inst" "is_Monitor inst = Some mon" by blast
    then have ok: "monitor_ok mon" "mo_servers mon = sc_Servers (is_Config inst)"
      using Cons.prems by (auto simp: mgr_ok_def instance_ok_def split: option.splits)
    define mon1 where "mon1 = mon\<lparr>mo_closed := set (mo_stopChs mon) \<union> mo_closed mon, mo_stopChs := []\<rparr>"
    have "keeps inst (inst\<lparr>is_Monitor := Some mon1\<rparr>)"
      using ok by (auto simp: keeps_def instance_ok_def monitor_ok_def mon1_def)
    from Cons.IH [OF mgr_ok_set_instance [OF Cons.prems i(1) this]]
    show ?thesis using i Monitor_Stop_ok [OF ok(1)] by (simp add: mon1_def)
  qed (use Cons in \<open>auto split: option.splits\<close>)
qed simp

lemma RecordCircuitBreakerResult_ok:
  "mgr_ok m \<Longrightarrow> mgr_ok (RecordCircuitBreakerResult ks now stamp url ok m)
     \<and> mg_cfg (RecordCircuitBreakerResult ks now stamp url ok m) = mg_cfg m"
  by (induction ks now stamp url ok m rule: RecordCircuitBreakerResult.induct)
    (auto split: option.splits intro: mgr_ok_set_instance keeps_record_on)

lemma mgr_step_ok:
  assumes "mgr_ok m"
  shows "\<exists>m1. mgr_step e m = Inr m1 \<and> mgr_ok m1 \<and> mg_cfg m1 = mg_cfg m"
proof (cases e)
  case (MgrMetrics k op)
  then show ?thesis using on_instance_ok [OF assms] keeps_collector by force
next
  case (MgrImport ks ord old)
  then show ?thesis using import_loop_ok [OF assms] assms by (simp add: Manager_ImportMetrics_def Let_def split: option.splits)
next
  case (MgrSnap ks now ord us)
  then show ?thesis using snap_loop_ok [OF assms] by (simp add: Manager_DashboardSnap_def Let_def case_prod_beta)
qed (use assms in \<open>simp_all add: on_instance_ok select_on_ok probe_on_ok Manager_Stop_ok RecordCircuitBreakerResult_ok\<close>)

lemma mgr_run_ok: "mgr_ok m \<Longrightarrow> \<exists>m1. mgr_run es m = Inr m1 \<and> mgr_ok m1 \<and> mg_cfg m1 = mg_cfg m"
proof (induction es arbitrary: m)
  case (Cons e es)
  obtain m1 where "mgr_step e m = Inr m1" "mgr_ok m1" "mg_cfg m1 = mg_cfg m" using mgr_step_ok [OF Cons.prems] by blast
  with Cons.IH [of m1] show ?case by simp
qed simp

text \<open>
  C27. A loaded configuration always yields a working manager. Whatever file \<^verbatim>\<open>Load\<close> accepted, \<^verbatim>\<open>NewManager\<close> builds it without a nil dereference, in any
  order of the services, and the result satisfies the invariant of the managers: one instance for each service, under its
  name and with its configuration, whose router, breakers and statistics cover exactly its servers, and whose monitor runs if it has servers.
\<close>

theorem manager_from_loaded_config:
  assumes "range_order (cf_Services c0) ks" and "range_order (cf_EntryPoints c0) es"
    and "range_order (cf_Services c) vs" and "Load ks es vs (Inr c0) = Inr c" and "range_order (cf_Services c) ms"
  shows "\<exists>m. NewManager ms now c = Inr m \<and> mgr_ok m \<and> GetConfig m = c"
  using NewManager_ok [OF assms(5)] load_ready [OF assms(1-4)] by (simp add: GetConfig_def)

theorem manager_from_loaded_config_witness:
  "\<exists>c m. Load [] [] [''default''] (Inr demo_config) = Inr c \<and> NewManager [''default''] (\<lambda>k. 0) c = Inr m \<and> mgr_ok m"
proof -
  obtain c where c: "Load [] [] [''default''] (Inr demo_config) = Inr c" "range_order (cf_Services c) [''default'']"
    using demo_load by blast
  from manager_from_loaded_config [OF _ _ c(2) c(1) c(2)] c(1) show ?thesis by fastforce
qed

lemma buildInstance_breakers:
  assumes "buildInstance now k svc cfg = Inr inst" and "is_Breakers inst u = Some b"
  shows "\<exists>thr d. b = NewBreaker thr d"
proof -
  obtain l where l: "sc_LoadBalancer svc = Some l" using assms(1) by (cases "sc_LoadBalancer svc") (simp_all add: buildInstance_def)
  obtain bs where bs: "breakers_loop (map sv_URL (sc_Servers svc)) (sc_CircuitBreaker svc) Map.empty = Inr bs" "is_Breakers inst = bs"
    using assms(1) by (auto simp: buildInstance_def l Let_def NewRouter_def split: sum.splits)
  show ?thesis
  proof (cases "sc_CircuitBreaker svc")
    case None
    then show ?thesis using bs assms(2) by (cases "sc_Servers svc") auto
  next
    case (Some c)
    then have "b = NewBreaker (cb_Threshold c) (seconds (cb_RecoveryTimeoutSec c))"
      using bs assms(2) by (auto simp: breakers_loop_eq split: if_splits)
    then show ?thesis by blast
  qed
qed

lemma buildInstance_stats:
  assumes "buildInstance now k svc cfg = Inr inst" and "co_servers (is_Collector inst) u = Some s"
  shows "ss_TotalRequests s = 0"
proof -
  have "co_servers (is_Collector inst) =
      New_loop 0 (map sv_URL (sc_Servers svc)) (map sv_Name (sc_Servers svc)) (map sv_Weight (sc_Servers svc)) Map.empty"
    using assms(1)
    by (auto simp: buildInstance_def Let_def NewRouter_def SetAlgorithm_def New_def split: option.splits sum.splits)
  then show ?thesis
    using all_stats_New_loop [of Map.empty "\<lambda>u s. ss_TotalRequests s = 0"] assms(2) by (auto simp: new_stats_def)
qed

text \<open>The manager of the example configuration, for the witnesses.\<close>

lemma demo_manager:
  "\<exists>c m inst b. NewManager [''default''] (\<lambda>k. 0) c = Inr m \<and> mgr_ok m \<and> range_order (mg_instances m) [''default'']
     \<and> mg_instances m ''default'' = Some inst \<and> is_Breakers inst ''http://a'' = Some b \<and> br_failureCount b = 0
     \<and> range_order (co_servers (is_Collector inst)) [''http://a'', ''http://b'']
     \<and> map_option ss_TotalRequests (co_servers (is_Collector inst) ''http://a'') = Some 0"
proof -
  obtain c where c: "Load [] [] [''default''] (Inr demo_config) = Inr c" "range_order (cf_Services c) [''default'']"
    "service_urls c ''default'' = [''http://a'', ''http://b'']"
    using demo_load by blast
  have rdy: "config_ready c \<and> urls_unique c" by (rule load_ready [OF _ _ c(2) c(1)]) simp_all
  obtain m where m: "NewManager [''default''] (\<lambda>k. 0) c = Inr m" "mgr_ok m" "mg_cfg m = c"
    using NewManager_ok [OF c(2) conjunct1 [OF rdy] conjunct2 [OF rdy]] by blast
  have r: "range_order (mg_instances m) [''default'']" using c(2) m(2,3) by (simp add: mgr_ok_def range_order_def)
  then obtain inst where inst: "mg_instances m ''default'' = Some inst" by (metis range_order_def list.set_intros(1) domD)
  have svc: "cf_Services c ''default'' = Some (Some (is_Config inst))" and iok: "instance_ok inst"
    using mgr_ok_instance [OF m(2) inst] m(3) by simp_all
  then have "''http://a'' \<in> dom (is_Breakers inst)" using c(3) by (simp add: instance_ok_def service_urls_def)
  then obtain b where b: "is_Breakers inst ''http://a'' = Some b" by blast
  obtain i where "buildInstance 0 ''default'' (is_Config inst) c = Inr i"
    using m(1) svc by (auto simp: NewManager_def split: sum.splits)
  then have built: "buildInstance 0 ''default'' (is_Config inst) c = Inr inst" using m(1) svc inst by (auto simp: NewManager_def)
  have "br_failureCount b = 0" using buildInstance_breakers [OF built b] by (auto simp: NewBreaker_def)
  moreover have ro: "range_order (co_servers (is_Collector inst)) [''http://a'', ''http://b'']"
    using iok c(3) svc by (auto simp: range_order_def instance_ok_def service_urls_def)
  moreover obtain s where "co_servers (is_Collector inst) ''http://a'' = Some s"
    using ro by (metis range_order_def list.set_intros(1) domD)
  then have "map_option ss_TotalRequests (co_servers (is_Collector inst) ''http://a'') = Some 0"
    using buildInstance_stats [OF built, of "''http://a''" s] by simp
  ultimately show ?thesis using m(1,2) r inst b by blast
qed

text \<open>
  C18. No request, health check, report, snapshot, reload or stop can crash a manager that satisfies the invariant: in every sequence of these operations
  none dereferences a nil breaker or closes a channel twice, and the invariant holds at the end; the configuration is never changed.
\<close>

theorem manager_never_panics:
  assumes "mgr_ok m"
  shows "\<exists>m'. mgr_run es m = Inr m' \<and> mgr_ok m' \<and> GetConfig m' = GetConfig m"
  using mgr_run_ok [OF assms] by (simp add: GetConfig_def)

theorem manager_never_panics_witness:
  "\<exists>c m m'. NewManager [''default''] (\<lambda>k. 0) c = Inr m
     \<and> mgr_run [MgrSelect ''default'' (\<lambda>u. 1) 1 (\<lambda>i. 0) ''LOW'' [], MgrStop [''default''], MgrStop [''default'']] m = Inr m'
     \<and> mgr_ok m'"
proof -
  obtain c m where m: "NewManager [''default''] (\<lambda>k. 0) c = Inr m" "mgr_ok m" using demo_manager by blast
  show ?thesis using manager_never_panics [OF m(2)] m(1) by blast
qed

end
