(* ===== verification/Reports.thy ===== *)
theory Reports
  imports Service
begin

text \<open>
  What the operations of the service manager that span several services achieve: the report of a request's outcome, the import of the
  metrics of an old manager at a reload, and the snapshot that the dashboard shows.
\<close>

section \<open>Reports and reloads\<close>

lemma is_Breakers_unique:
  assumes "mgr_ok m" and "mg_instances m k = Some i" and "mg_instances m k' = Some i'"
    and "url \<in> dom (is_Breakers i)" and "url \<in> dom (is_Breakers i')"
  shows "k = k'"
proof -
  have u: "url \<in> set (service_urls (mg_cfg m) j)" if "mg_instances m j = Some x" "url \<in> dom (is_Breakers x)" for j x
    using that assms(1) by (auto simp: mgr_ok_def instance_ok_def service_urls_def)
  have "urls_unique (mg_cfg m)" using assms(1) by (simp add: mgr_ok_def)
  then show ?thesis using u [OF assms(2,4)] u [OF assms(3,5)] unfolding urls_unique_def by blast
qed

definition recorded :: "time \<Rightarrow> string \<Rightarrow> url \<Rightarrow> bool \<Rightarrow> Instance \<Rightarrow> Instance" where
  "recorded now stamp url ok inst =
     (case is_Breakers inst url of None \<Rightarrow> inst | Some b \<Rightarrow> record_on now stamp url ok b inst)"

lemma RecordCircuitBreakerResult_eq:
  assumes "mgr_ok m" and "distinct ks"
  shows "mg_instances (RecordCircuitBreakerResult ks now stamp url ok m) k =
     (if k \<in> set ks then map_option (recorded now stamp url ok) (mg_instances m k) else mg_instances m k)"
  using assms(2)
proof (induction ks)
  case (Cons j ks)
  show ?case
  proof (cases "\<exists>inst b. mg_instances m j = Some inst \<and> is_Breakers inst url = Some b")
    case True
    then obtain inst b where i: "mg_instances m j = Some inst" "is_Breakers inst url = Some b" by blast
    have "recorded now stamp url ok i' = i'" if "mg_instances m k = Some i'" "k \<noteq> j" for i'
      using is_Breakers_unique [OF assms(1) that(1) i(1), of url] that(2) i(2) by (auto simp: recorded_def split: option.splits)
    then show ?thesis using i by (cases "mg_instances m k") (auto simp: recorded_def)
  next
    case False
    then have "RecordCircuitBreakerResult (j # ks) now stamp url ok m = RecordCircuitBreakerResult ks now stamp url ok m"
      "map_option (recorded now stamp url ok) (mg_instances m j) = mg_instances m j"
      by (auto split: option.splits) (cases "mg_instances m j"; simp add: recorded_def)
    then show ?thesis using Cons by auto
  qed
qed simp

lemma record_on_parts:
  "is_Breakers (record_on now stamp url ok b inst)
     = (is_Breakers inst)(url \<mapsto> (if ok then fst (RecordSuccess b) else RecordFailure now b))"
  "co_servers (is_Collector inst) url = Some s \<Longrightarrow>
     \<exists>s'. co_servers (is_Collector (record_on now stamp url ok b inst)) url = Some s'
       \<and> ss_CircuitState s' = Breaker_State (if ok then fst (RecordSuccess b) else RecordFailure now b)
       \<and> ss_TotalRequests s' = ss_TotalRequests s"
  by (auto simp: record_on_def Let_def case_prod_beta SetCircuitState_servers ClearLatencies_def)

lemma record_on_other:
  "u \<noteq> url \<Longrightarrow> co_servers (is_Collector (record_on now stamp url ok b inst)) u = co_servers (is_Collector inst) u"
  by (auto simp: record_on_def Let_def case_prod_beta SetCircuitState_servers ClearLatencies_def)

text \<open>
  C28. A report of the circuit breaker middleware reaches exactly the breaker it is about. In any order of the instances, reporting the outcome
  of a request to a URL changes only the instance that serves the URL: there its breaker records the success or failure, the circuit
  state shown on the dashboard becomes the state of that breaker, no request is counted, and every other server and service stays as it is.
\<close>

theorem record_result_exact:
  assumes "mgr_ok m" and "range_order (mg_instances m) ks" and "mg_instances m k = Some inst"
  shows "\<exists>inst'. mg_instances (RecordCircuitBreakerResult ks now stamp url ok m) k = Some inst'
     \<and> (case is_Breakers inst url of
          None \<Rightarrow> inst' = inst
        | Some b \<Rightarrow> \<exists>b' s s'. b' = (if ok then fst (RecordSuccess b) else RecordFailure now b)
            \<and> is_Breakers inst' = (is_Breakers inst)(url \<mapsto> b')
            \<and> co_servers (is_Collector inst) url = Some s \<and> co_servers (is_Collector inst') url = Some s'
            \<and> ss_CircuitState s' = Breaker_State b' \<and> ss_TotalRequests s' = ss_TotalRequests s
            \<and> (\<forall>u. u \<noteq> url \<longrightarrow> co_servers (is_Collector inst') u = co_servers (is_Collector inst) u))"
proof -
  have "distinct ks" and "k \<in> set ks" using assms(2,3) by (auto simp: range_order_def)
  then have m': "mg_instances (RecordCircuitBreakerResult ks now stamp url ok m) k = Some (recorded now stamp url ok inst)"
    using RecordCircuitBreakerResult_eq [OF assms(1)] assms(3) by simp
  show ?thesis
  proof (cases "is_Breakers inst url")
    case None
    then show ?thesis using m' by (simp add: recorded_def)
  next
    case (Some b)
    then have "url \<in> dom (co_servers (is_Collector inst))" using mgr_ok_instance(2) [OF assms(1,3)] by blast
    then obtain s where s: "co_servers (is_Collector inst) url = Some s" by blast
    show ?thesis using record_on_parts [where inst = inst] record_on_other [where inst = inst] s m' Some
      by (auto simp: recorded_def)
  qed
qed

theorem record_result_exact_witness:
  "\<exists>c m inst inst'. NewManager [''default''] (\<lambda>k. 0) c = Inr m \<and> mg_instances m ''default'' = Some inst
     \<and> mg_instances (RecordCircuitBreakerResult [''default''] 5 ''t'' ''http://a'' False m) ''default'' = Some inst'
     \<and> map_option br_failureCount (is_Breakers inst' ''http://a'') = Some 1
     \<and> is_Breakers inst' ''http://b'' = is_Breakers inst ''http://b''"
proof -
  obtain c m inst b where m: "NewManager [''default''] (\<lambda>k. 0) c = Inr m" "mgr_ok m" "range_order (mg_instances m) [''default'']"
    "mg_instances m ''default'' = Some inst" "is_Breakers inst ''http://a'' = Some b" "br_failureCount b = 0"
    using demo_manager by blast
  have "br_failureCount (RecordFailure 5 b) = 1" using m(6) by (simp add: RecordFailure_def Let_def i64_def)
  then show ?thesis using record_result_exact [OF m(2-4), of 5 "''t''" "''http://a''" False] m by fastforce
qed

definition imported :: "(string \<Rightarrow> url list) \<Rightarrow> (string \<rightharpoonup> stats_map) \<Rightarrow> string \<Rightarrow> Instance \<Rightarrow> Instance" where
  "imported ord snaps k inst =
     (case snaps k of None \<Rightarrow> inst
      | Some snap \<Rightarrow> set_collector (ImportMetrics (ord k) snap (is_Collector inst)) inst)"

lemma import_loop_eq:
  "distinct ks \<Longrightarrow> mg_instances (import_loop ks ord snaps m) k =
     (if k \<in> set ks then map_option (imported ord snaps k) (mg_instances m k) else mg_instances m k)"
proof (induction ks arbitrary: m)
  case (Cons j ks)
  show ?case
  proof (cases "mg_instances m j = None \<or> snaps j = None")
    case True
    then have "import_loop (j # ks) ord snaps m = import_loop ks ord snaps m"
      and "map_option (imported ord snaps j) (mg_instances m j) = mg_instances m j"
      by (auto split: option.splits) (cases "mg_instances m j"; simp add: imported_def)
    then show ?thesis using Cons by auto
  next
    case False
    then obtain inst snap where i: "mg_instances m j = Some inst" "snaps j = Some snap" by auto
    let ?m = "set_instance j (imported ord snaps j inst) m"
    have "import_loop (j # ks) ord snaps m = import_loop ks ord snaps ?m" using i by (simp add: imported_def)
    then show ?thesis using Cons i by auto
  qed
qed simp

lemma ImportMetrics_eq:
  "co_servers (ImportMetrics us old c) u =
     (case old u of None \<Rightarrow> co_servers c u
      | Some o1 \<Rightarrow> if u \<in> set us then map_option (import_stats o1) (co_servers c u) else co_servers c u)"
proof (induction us arbitrary: c)
  case (Cons v us)
  have "map_option (import_stats x) (map_option (import_stats x) y) = map_option (import_stats x) y" for x y
    by (cases y) (simp_all add: import_stats_def)
  then show ?case using Cons by (auto simp: co_servers_on_server split: option.splits)
qed (simp split: option.splits)

text \<open>
  C29. A reload keeps the counters and latencies of the servers that stay. After the metrics of the old manager were imported, a server that the same service had before
  shows its old request, success, failure, retry and priority counts and its old average and 95th percentile of the latency, and everything else (health, circuit state, connections,
  weight, name, the list of recent latencies) as in the new manager; a server or service that is new starts from zero, and routers, breakers and monitors are not touched.
\<close>

theorem import_keeps_counters:
  assumes "range_order (mg_instances m) ks" and "mg_instances m k = Some inst"
    and "\<forall>j i. mg_instances old j = Some i \<longrightarrow> range_order (co_servers (is_Collector i)) (ord j)"
  shows "\<exists>inst'. mg_instances (Manager_ImportMetrics ks ord (Some old) m) k = Some inst'
     \<and> inst' = set_collector (is_Collector inst') inst
     \<and> (\<forall>u s. co_servers (is_Collector inst) u = Some s \<longrightarrow>
          (case mg_instances old k of
             None \<Rightarrow> co_servers (is_Collector inst') u = Some s
           | Some i \<Rightarrow> co_servers (is_Collector inst') u
               = Some (case co_servers (is_Collector i) u of
                   None \<Rightarrow> s
                 | Some o1 \<Rightarrow> s\<lparr>ss_TotalRequests := ss_TotalRequests o1, ss_SuccessCount := ss_SuccessCount o1, ss_FailureCount := ss_FailureCount o1,
                         ss_RetryCount := ss_RetryCount o1, ss_HighPriorityCount := ss_HighPriorityCount o1, ss_LowPriorityCount := ss_LowPriorityCount o1,
                         ss_AvgLatencyMs := ss_AvgLatencyMs o1, ss_P95LatencyMs := ss_P95LatencyMs o1\<rparr>)))"
proof -
  let ?snaps = "\<lambda>name. map_option (\<lambda>inst. Snapshot (is_Collector inst)) (mg_instances old name)"
  have "distinct ks" and "k \<in> set ks" using assms(1,2) by (auto simp: range_order_def)
  then have m': "mg_instances (Manager_ImportMetrics ks ord (Some old) m) k = Some (imported ord ?snaps k inst)"
    using assms(2) by (simp add: Manager_ImportMetrics_def import_loop_eq Instances_def)
  show ?thesis
  proof (cases "mg_instances old k")
    case None
    then show ?thesis using m' by (simp add: imported_def set_collector_def set_router_def)
  next
    case (Some i)
    have "set (ord k) = dom (co_servers (is_Collector i))" using assms(3) Some by (simp add: range_order_def)
    then show ?thesis using m' Some
      by (auto simp: imported_def Snapshot_def ImportMetrics_eq import_stats_def set_collector_def set_router_def split: option.splits)
  qed
qed

theorem import_keeps_counters_witness:
  "\<exists>c m inst inst'. NewManager [''default''] (\<lambda>k. 0) c = Inr m
     \<and> (\<exists>s. co_servers (is_Collector inst) ''http://a'' = Some s \<and> ss_TotalRequests s = 0)
     \<and> (\<exists>s. co_servers (is_Collector inst') ''http://a'' = Some s \<and> ss_TotalRequests s = 1)
     \<and> (\<exists>old. mg_instances m ''default'' = Some inst
          \<and> mg_instances (Manager_ImportMetrics [''default''] (\<lambda>k. [''http://a'', ''http://b'']) (Some old) m) ''default'' = Some inst')"
proof -
  obtain c m inst b where m: "NewManager [''default''] (\<lambda>k. 0) c = Inr m" "mgr_ok m" "range_order (mg_instances m) [''default'']"
    "mg_instances m ''default'' = Some inst" "is_Breakers inst ''http://a'' = Some b"
    "range_order (co_servers (is_Collector inst)) [''http://a'', ''http://b'']"
    "map_option ss_TotalRequests (co_servers (is_Collector inst) ''http://a'') = Some 0"
    using demo_manager by blast
  obtain s where s: "co_servers (is_Collector inst) ''http://a'' = Some s" "ss_TotalRequests s = 0" using m(7) by auto
  define old where "old = set_instance ''default'' (set_collector (RecordEnd ''http://a'' 5 True (is_Collector inst)) inst) m"
  have "j = ''default''" if "mg_instances m j = Some i" for i j
    using that m(3) by (metis domI range_order_def empty_iff list.set(1) set_ConsD)
  then have i: "i = set_collector (RecordEnd ''http://a'' 5 True (is_Collector inst)) inst" if "mg_instances old j = Some i" for i j
    using that unfolding old_def by (auto split: if_splits)
  have d: "dom (co_servers (RecordEnd ''http://a'' 5 True (is_Collector inst))) = dom (co_servers (is_Collector inst))"
    by (simp add: RecordEnd_def)
  have r: "range_order (co_servers (is_Collector i)) [''http://a'', ''http://b'']" if "mg_instances old j = Some i" for i j
    unfolding i [OF that] is_Collector_set using m(6) by (simp only: range_order_def d)
  let ?us = "[''http://a'', ''http://b'']"
  from r have r': "\<forall>j i. mg_instances old j = Some i \<longrightarrow> range_order (co_servers (is_Collector i)) ?us" by blast
  have o: "mg_instances old ''default'' = Some (set_collector (RecordEnd ''http://a'' 5 True (is_Collector inst)) inst)"
    by (simp add: old_def)
  obtain inst' s' where inst': "mg_instances (Manager_ImportMetrics [''default''] (\<lambda>k. ?us) (Some old) m) ''default'' = Some inst'"
    "co_servers (is_Collector inst') ''http://a'' = Some s'" "ss_TotalRequests s' = ss_TotalRequests (end_stats 5 True s)"
    using import_keeps_counters [of m "[''default'']" "''default''" inst old "\<lambda>k. ?us", OF m(3,4) r'] s(1)
    by (auto simp: o RecordEnd_def)
  have "ss_TotalRequests s' = 1" using inst'(3) s(2) by (simp add: end_stats_def Let_def i64_def)
  with m(1,4) s inst' show ?thesis by blast
qed

section \<open>The dashboard of all services\<close>

definition servers_of :: "Manager \<Rightarrow> string \<Rightarrow> stats_map" where
  "servers_of m k = (case mg_instances m k of None \<Rightarrow> Map.empty | Some inst \<Rightarrow> co_servers (is_Collector inst))"

definition log_of :: "Manager \<Rightarrow> string \<Rightarrow> CircuitEvent list" where
  "log_of m k = (case mg_instances m k of None \<Rightarrow> [] | Some inst \<Rightarrow> co_circuitEvents (is_Collector inst))"

lemma DashboardSnap_parts:
  "ds_Servers (snd (DashboardSnap now us c)) = co_servers c"
  "ds_CircuitEvents (snd (DashboardSnap now us c)) = co_circuitEvents c"
  by (simp_all add: DashboardSnap_def Let_def case_prod_beta)

lemma snap_loop_eq:
  "distinct ks \<Longrightarrow> fst (snd (snap_loop ks now ord (m, S, E, r))) = foldl (++) S (map (servers_of m) ks)
     \<and> fst (snd (snd (snap_loop ks now ord (m, S, E, r)))) = E @ concat (map (log_of m) ks)"
proof (induction ks arbitrary: m S E r)
  case (Cons k ks)
  show ?case
  proof (cases "mg_instances m k")
    case None
    then show ?thesis using Cons by (simp add: servers_of_def log_of_def)
  next
    case (Some inst)
    let ?d = "DashboardSnap (now k) (ord k) (is_Collector inst)"
    let ?m = "set_instance k (set_collector (fst ?d) inst) m"
    have m: "servers_of ?m = servers_of m" "log_of ?m = log_of m"
      using Some by (auto simp: servers_of_def log_of_def fun_eq_iff)
    have k: "servers_of m k = co_servers (is_Collector inst)" "log_of m k = co_circuitEvents (is_Collector inst)"
      using Some by (simp_all add: servers_of_def log_of_def)
    have "snap_loop (k # ks) now ord (m, S, E, r) =
        snap_loop ks now ord (?m, S ++ servers_of m k, E @ log_of m k, fadd r (ds_GlobalRPS (snd ?d)))"
      using Some by (simp add: Let_def case_prod_beta DashboardSnap_parts k)
    then show ?thesis using Cons m by simp
  qed
qed simp

lemma foldl_map_add:
  assumes "\<And>k k'. k \<in> set ks \<Longrightarrow> k' \<in> set ks \<Longrightarrow> k \<noteq> k' \<Longrightarrow> dom (f k) \<inter> dom (f k') = {}"
    and "distinct ks" and "dom S \<inter> (\<Union>k \<in> set ks. dom (f k)) = {}"
  shows "dom (foldl (++) S (map f ks)) = dom S \<union> (\<Union>k \<in> set ks. dom (f k))
     \<and> (\<forall>u \<in> dom S. foldl (++) S (map f ks) u = S u)
     \<and> (\<forall>k \<in> set ks. \<forall>u \<in> dom (f k). foldl (++) S (map f ks) u = f k u)"
  using assms
proof (induction ks arbitrary: S)
  case (Cons k ks)
  have "dom (S ++ f k) \<inter> (\<Union>k \<in> set ks. dom (f k)) = {}" using Cons.prems by fastforce
  from Cons.IH [OF _ _ this] Cons.prems
  have IH: "dom (foldl (++) (S ++ f k) (map f ks)) = dom (S ++ f k) \<union> (\<Union>k \<in> set ks. dom (f k))"
    "\<forall>u \<in> dom (S ++ f k). foldl (++) (S ++ f k) (map f ks) u = (S ++ f k) u"
    "\<forall>j \<in> set ks. \<forall>u \<in> dom (f j). foldl (++) (S ++ f k) (map f ks) u = f j u"
    by auto
  have S: "(S ++ f k) u = S u" if "u \<in> dom S" for u
    using Cons.prems(3) that by (auto simp: map_add_def split: option.splits)
  have k: "(S ++ f k) u = f k u" if "u \<in> dom (f k)" for u using that by (auto simp: map_add_def)
  have "\<forall>u \<in> dom S. foldl (++) (S ++ f k) (map f ks) u = S u" using IH(2) S by simp
  moreover have "\<forall>u \<in> dom (f k). foldl (++) (S ++ f k) (map f ks) u = f k u" using IH(2) k by simp
  ultimately show ?case using IH(1,3) by auto
qed simp

lemma servers_of_dom:
  assumes "mgr_ok m"
  shows "dom (servers_of m k) = set (service_urls (mg_cfg m) k)"
proof (cases "mg_instances m k")
  case None
  then have "cf_Services (mg_cfg m) k = None" using assms unfolding mgr_ok_def by blast
  then show ?thesis using None by (simp add: servers_of_def service_urls_def)
next
  case (Some inst)
  then show ?thesis using mgr_ok_instance [OF assms Some] by (simp add: servers_of_def service_urls_def instance_ok_def)
qed

lemma snap_servers:
  assumes "mgr_ok m" and "range_order (mg_instances m) ks" and "Manager_DashboardSnap ks now ord us m = (m', snap)"
  shows "dom (ds_Servers snap) = (\<Union>k \<in> dom (mg_instances m). set (service_urls (mg_cfg m) k))"
    and "\<forall>k. \<forall>u \<in> set (service_urls (mg_cfg m) k). ds_Servers snap u = servers_of m k u"
    and "k \<noteq> k' \<Longrightarrow> set (service_urls (mg_cfg m) k) \<inter> set (service_urls (mg_cfg m) k') = {}"
    and "ds_CircuitEvents snap = last_n 50 (concat (map (log_of m) ks))"
    and "ds_TotalRequests snap = fst (snap_totals us (ds_Servers snap) (0, 0, 0))"
    and "ds_HealthyCount snap = snd (snd (snap_totals us (ds_Servers snap) (0, 0, 0)))" and "ds_TotalCount snap = int (length us)"
proof -
  let ?urls = "service_urls (mg_cfg m)" and ?S = "foldl (++) Map.empty (map (servers_of m) ks)"
  have ks: "distinct ks" "set ks = dom (mg_instances m)" using assms(2) by (auto simp: range_order_def)
  have "urls_unique (mg_cfg m)" using assms(1) by (simp add: mgr_ok_def)
  then show dj: "set (?urls k) \<inter> set (?urls k') = {}" if "k \<noteq> k'" for k k'
    using that unfolding urls_unique_def by blast
  note d = servers_of_dom [OF assms(1)]
  have S: "dom ?S = (\<Union>k \<in> set ks. set (?urls k))" "\<forall>k \<in> set ks. \<forall>u \<in> set (?urls k). ?S u = servers_of m k u"
    using foldl_map_add [of ks "servers_of m" Map.empty] dj ks(1) by (simp_all add: d)
  have snap: "ds_Servers snap = ?S" using assms(3) snap_loop_eq [OF ks(1), of now ord m Map.empty "[]" 0]
    by (auto simp: Manager_DashboardSnap_def Let_def case_prod_beta)
  then show "dom (ds_Servers snap) = (\<Union>k \<in> dom (mg_instances m). set (?urls k))" using S(1) ks(2) by simp
  have out: "?urls k = []" if "k \<notin> set ks" for k
    using that d [of k] ks(2) by (simp add: servers_of_def domIff)
  show "\<forall>k. \<forall>u \<in> set (?urls k). ds_Servers snap u = servers_of m k u"
    using S(2) snap out by (metis empty_iff list.set(1))
  show "ds_CircuitEvents snap = last_n 50 (concat (map (log_of m) ks))" "ds_TotalCount snap = int (length us)"
    "ds_TotalRequests snap = fst (snap_totals us (ds_Servers snap) (0, 0, 0))"
    "ds_HealthyCount snap = snd (snd (snap_totals us (ds_Servers snap) (0, 0, 0)))"
    using assms(3) snap_loop_eq [OF ks(1), of now ord m Map.empty "[]" 0] unfolding snap
    by (auto simp: Manager_DashboardSnap_def Let_def case_prod_beta)
qed

text \<open>The backends that some service counts as healthy.\<close>

definition healthy_urls :: "Manager \<Rightarrow> url set" where
  "healthy_urls m = {u. \<exists>k s. servers_of m k u = Some s \<and> ss_IsHealthy s}"

lemma snap_healthy:
  assumes "mgr_ok m" and "range_order (mg_instances m) ks" and "Manager_DashboardSnap ks now ord us m = (m', snap)"
    and "range_order (ds_Servers snap) us"
  shows "ds_HealthyCount snap = int (card (healthy_urls m))"
proof -
  note s = snap_servers [OF assms(1-3)] and d = servers_of_dom [OF assms(1)]
  have "ds_Servers snap u = Some st \<longleftrightarrow> (\<exists>k. servers_of m k u = Some st)" for u st
  proof
    assume u: "ds_Servers snap u = Some st"
    then obtain k where "u \<in> set (service_urls (mg_cfg m) k)" using s(1) by (metis UN_E domI)
    with u s(2) show "\<exists>k. servers_of m k u = Some st" by metis
  next
    assume "\<exists>k. servers_of m k u = Some st"
    then obtain k where k: "servers_of m k u = Some st" by blast
    then have "u \<in> set (service_urls (mg_cfg m) k)" using d by blast
    with k s(2) show "ds_Servers snap u = Some st" by metis
  qed
  then have "healthy_urls m = {u. \<exists>st. ds_Servers snap u = Some st \<and> ss_IsHealthy st}" by (auto simp: healthy_urls_def)
  moreover have "ds_HealthyCount snap = (\<Sum>u \<in> dom (ds_Servers snap). stat_of healthy_flag (ds_Servers snap) u)"
    unfolding s(6) by (simp add: snap_totals_sum [OF assms(4)])
  moreover have "finite (dom (ds_Servers snap))" using assms(4) unfolding range_order_def by (metis List.finite_set)
  ultimately show ?thesis by (simp add: sum_healthy_flag)
qed

text \<open>
  C30. The dashboard shows every server of every service once and adds them up correctly. In any order of services and servers, the aggregated snapshot holds
  for each backend the statistics its own service keeps, its server count is the number of configured servers, its total (modulo the wrap-around
  of \<^verbatim>\<open>int64\<close>) the sum over all services, and its events are the last 50 of the services' events.
\<close>

theorem dashboard_aggregates:
  assumes "mgr_ok m" and "range_order (mg_instances m) ks" and "Manager_DashboardSnap ks now ord us m = (m', snap)"
    and "range_order (ds_Servers snap) us"
  shows "(\<forall>k. \<forall>u \<in> set (service_urls (mg_cfg m) k). ds_Servers snap u = servers_of m k u)
     \<and> ds_TotalCount snap = (\<Sum>k \<in> dom (mg_instances m). int (length (service_urls (mg_cfg m) k)))
     \<and> ds_TotalRequests snap = i64 (\<Sum>k \<in> dom (mg_instances m). \<Sum>u \<in> set (service_urls (mg_cfg m) k).
          stat_of ss_TotalRequests (servers_of m k) u)
     \<and> ds_CircuitEvents snap = last_n 50 (concat (map (log_of m) ks))"
proof -
  let ?urls = "service_urls (mg_cfg m)" and ?S = "ds_Servers snap"
  note s = snap_servers [OF assms(1-3)]
  have fin: "finite (dom (mg_instances m))" using assms(2) unfolding range_order_def by (metis List.finite_set)
  have uu: "urls_unique (mg_cfg m)" using assms(1) by (simp add: mgr_ok_def)
  have "length us = card (dom ?S)" using assms(4) by (metis distinct_card range_order_def)
  also have "\<dots> = (\<Sum>k \<in> dom (mg_instances m). card (set (?urls k)))"
    unfolding s(1) by (rule card_UN_disjoint) (use fin s(3) in simp_all)
  also have "\<dots> = (\<Sum>k \<in> dom (mg_instances m). length (?urls k))"
    using uu by (intro sum.cong) (simp_all add: urls_unique_def distinct_card)
  finally have 2: "ds_TotalCount snap = (\<Sum>k \<in> dom (mg_instances m). int (length (?urls k)))" using s(7) by simp
  have "(\<Sum>u \<in> dom ?S. stat_of ss_TotalRequests ?S u) = (\<Sum>k \<in> dom (mg_instances m). \<Sum>u \<in> set (?urls k). stat_of ss_TotalRequests ?S u)"
    unfolding s(1) by (rule sum.UNION_disjoint) (use fin s(3) in simp_all)
  also have "\<dots> = (\<Sum>k \<in> dom (mg_instances m). \<Sum>u \<in> set (?urls k). stat_of ss_TotalRequests (servers_of m k) u)"
    using s(2) by (intro sum.cong) (simp_all add: stat_of_def)
  finally have 3: "ds_TotalRequests snap = i64 (\<Sum>k \<in> dom (mg_instances m). \<Sum>u \<in> set (?urls k). stat_of ss_TotalRequests (servers_of m k) u)"
    using s(5) snap_totals_sum [OF assms(4)] by simp
  show ?thesis using s(2,4) 2 3 by simp
qed

theorem dashboard_aggregates_witness:
  "\<exists>c m snap. NewManager [''default''] (\<lambda>k. 0) c = Inr m
     \<and> snap = snd (Manager_DashboardSnap [''default''] (\<lambda>k. 9) (\<lambda>k. []) [''http://b'', ''http://a''] m)
     \<and> ds_TotalCount snap = 2 \<and> ds_Servers snap ''http://a'' = servers_of m ''default'' ''http://a''"
proof -
  obtain c m inst b where m: "NewManager [''default''] (\<lambda>k. 0) c = Inr m" "mgr_ok m" "range_order (mg_instances m) [''default'']"
    "mg_instances m ''default'' = Some inst" "is_Breakers inst ''http://a'' = Some b"
    "range_order (co_servers (is_Collector inst)) [''http://a'', ''http://b'']"
    using demo_manager by blast
  let ?us = "[''http://b'', ''http://a'']"
  obtain m' snap where r: "Manager_DashboardSnap [''default''] (\<lambda>k. 9) (\<lambda>k. []) ?us m = (m', snap)" by (metis surj_pair)
  have "ds_Servers snap = co_servers (is_Collector inst)"
    using r m(4) by (auto simp: Manager_DashboardSnap_def Let_def case_prod_beta DashboardSnap_parts)
  then have o: "range_order (ds_Servers snap) ?us" using m(6) by (simp add: range_order_def insert_commute)
  have "?us \<noteq> []" and "ds_TotalCount snap = 2"
    using r by (auto simp: Manager_DashboardSnap_def Let_def case_prod_beta)
  moreover have "''http://a'' \<in> set (service_urls (mg_cfg m) ''default'')"
    using servers_of_dom [OF m(2), of "''default''"] m(4,6) by (simp add: servers_of_def range_order_def) (metis insertI1)
  moreover have "snap = snd (Manager_DashboardSnap [''default''] (\<lambda>k. 9) (\<lambda>k. []) ?us m)" using r by simp
  ultimately show ?thesis using dashboard_aggregates [OF m(2,3) r o, THEN conjunct1] m(1) by blast
qed

end
