(* ===== verification/Serve.thy ===== *)
theory Serve
  imports Reports Http
begin

text \<open>
  What an \<^verbatim>\<open>http.Handler\<close> works with: the response writers, the connection's own one and those by which the middlewares
  wrap it, the world that the handlers share, and handlers themselves as functions. A request runs alone from its
  start to its end; what other goroutines and backends do reaches it through the environment.
\<close>

section \<open>The connection's writer\<close>

text \<open>
  The \<^verbatim>\<open>ResponseWriter\<close> of \<^verbatim>\<open>net/http\<close>: the header map that the handler edits, the status once it is set, the headers as they stood at
  that moment, and the body. \<open>cn_head\<close> says that the request method is \<^verbatim>\<open>HEAD\<close>, for which the body is not sent. The server's check of
  the body against a \<^verbatim>\<open>Content-Length\<close> header is left out.
\<close>

record Conn =
  cn_head :: bool
  cn_header :: Header
  cn_status :: "int option"
  cn_sent :: Header
  cn_body :: string

definition new_Conn :: "bool \<Rightarrow> Conn" where
  "new_Conn head = \<lparr>cn_head = head, cn_header = Map.empty, cn_status = None, cn_sent = Map.empty, cn_body = []\<rparr>"

definition bodyAllowedForStatus :: "int \<Rightarrow> bool" where
  "bodyAllowedForStatus status \<longleftrightarrow> \<not> (100 \<le> status \<and> status \<le> 199 \<or> status = 204 \<or> status = 304)"

text \<open>A status below 100 or above 999 panics; an informational one is sent and forgotten; only the first other one counts.\<close>

definition conn_WriteHeader :: "int \<Rightarrow> Conn \<Rightarrow> Conn result" where
  "conn_WriteHeader code c =
     (if cn_status c \<noteq> None then Inr c
      else if code < 100 \<or> code > 999 then Inl (GoPanic ''invalid WriteHeader code'')
      else if code \<le> 199 \<and> code \<noteq> 101 then Inr c
      else Inr (c\<lparr>cn_status := Some code, cn_sent := cn_header c\<rparr>))"

definition conn_implicit :: "Conn \<Rightarrow> Conn" where
  "conn_implicit c = (if cn_status c = None then c\<lparr>cn_status := Some 200, cn_sent := cn_header c\<rparr> else c)"

definition conn_Write :: "string \<Rightarrow> Conn \<Rightarrow> Conn \<times> nat" where
  "conn_Write b c =
     (let c1 = conn_implicit c
      in if b = [] \<or> \<not> bodyAllowedForStatus (the (cn_status c1)) then (c1, 0)
         else if cn_head c1 then (c1, length b)
         else (c1\<lparr>cn_body := cn_body c1 @ b\<rparr>, length b))"

text \<open>When the handler has returned, the server sends what is pending.\<close>

definition conn_finish :: "Conn \<Rightarrow> Conn" where
  "conn_finish = conn_implicit"

section \<open>Wrapped writers\<close>

text \<open>
  The wrappers of \<^verbatim>\<open>retry.go\<close>, \<^verbatim>\<open>circuitbreaker.go\<close> and \<^verbatim>\<open>accesslog.go\<close>; each embeds the writer that it wraps.
\<close>

record retryResponseWriter =
  rw_statusCode :: int
  rw_body :: string
  rw_headers :: Header
  rw_committed :: bool

record cbStatusRecorder =
  cs_statusCode :: int
  cs_written :: bool

record statusRecorder =
  sr_statusCode :: int
  sr_bytes :: int
  sr_written :: bool

datatype Writer =
    ConnW Conn
  | RetryW Writer retryResponseWriter
  | CbW Writer cbStatusRecorder
  | LogW Writer statusRecorder

fun Writer_Header :: "Writer \<Rightarrow> Header" where
  "Writer_Header (ConnW c) = cn_header c"
| "Writer_Header (RetryW w rw) = rw_headers rw"
| "Writer_Header (CbW w cs) = Writer_Header w"
| "Writer_Header (LogW w sr) = Writer_Header w"

fun on_Header :: "(Header \<Rightarrow> Header) \<Rightarrow> Writer \<Rightarrow> Writer" where
  "on_Header f (ConnW c) = ConnW (c\<lparr>cn_header := f (cn_header c)\<rparr>)"
| "on_Header f (RetryW w rw) = RetryW w (rw\<lparr>rw_headers := f (rw_headers rw)\<rparr>)"
| "on_Header f (CbW w cs) = CbW (on_Header f w) cs"
| "on_Header f (LogW w sr) = LogW (on_Header f w) sr"

definition cs_mark :: "int \<Rightarrow> cbStatusRecorder \<Rightarrow> cbStatusRecorder" where
  "cs_mark code cs = (if \<not> cs_written cs then cs\<lparr>cs_statusCode := code, cs_written := True\<rparr> else cs)"

definition sr_mark :: "int \<Rightarrow> statusRecorder \<Rightarrow> statusRecorder" where
  "sr_mark code sr = (if \<not> sr_written sr then sr\<lparr>sr_statusCode := code, sr_written := True\<rparr> else sr)"

definition rw_WriteHeader :: "int \<Rightarrow> retryResponseWriter \<Rightarrow> retryResponseWriter" where
  "rw_WriteHeader code rw = (if \<not> rw_committed rw then rw\<lparr>rw_statusCode := code\<rparr> else rw)"

fun WriteHeader :: "int \<Rightarrow> Writer \<Rightarrow> Writer result" where
  "WriteHeader code (ConnW c) = (case conn_WriteHeader code c of Inl e \<Rightarrow> Inl e | Inr c1 \<Rightarrow> Inr (ConnW c1))"
| "WriteHeader code (RetryW w rw) = Inr (RetryW w (rw_WriteHeader code rw))"
| "WriteHeader code (CbW w cs) =
     (case WriteHeader code w of Inl e \<Rightarrow> Inl e | Inr w1 \<Rightarrow> Inr (CbW w1 (cs_mark code cs)))"
| "WriteHeader code (LogW w sr) =
     (case WriteHeader code w of Inl e \<Rightarrow> Inl e | Inr w1 \<Rightarrow> Inr (LogW w1 (sr_mark code sr)))"

text \<open>\<^verbatim>\<open>Write\<close>, with the number of bytes it reports.\<close>

fun Write :: "string \<Rightarrow> Writer \<Rightarrow> Writer \<times> nat" where
  "Write b (ConnW c) = (let (c1, n) = conn_Write b c in (ConnW c1, n))"
| "Write b (RetryW w rw) =
     (if \<not> rw_committed rw then (RetryW w (rw\<lparr>rw_body := rw_body rw @ b\<rparr>), length b)
      else let (w1, n) = Write b w in (RetryW w1 rw, n))"
| "Write b (CbW w cs) = (let (w1, n) = Write b w in (CbW w1 (cs_mark 200 cs), n))"
| "Write b (LogW w sr) =
     (let sr1 = sr_mark 200 sr; (w1, n) = Write b w
      in (LogW w1 (sr1\<lparr>sr_bytes := i64 (sr_bytes sr1 + int n)\<rparr>), n))"

text \<open>\<^verbatim>\<open>http.Error\<close>.\<close>

definition http_Error :: "string \<Rightarrow> int \<Rightarrow> Writer \<Rightarrow> Writer result" where
  "http_Error msg code w =
     (case WriteHeader code
             (on_Header (\<lambda>h. Header_Set ''X-Content-Type-Options'' ''nosniff''
                (Header_Set ''Content-Type'' ''text/plain; charset=utf-8'' (Header_Del ''Content-Length'' h))) w) of
        Inl e \<Rightarrow> Inl e
      | Inr w1 \<Rightarrow> Inr (fst (Write (msg @ [CHR 0x0A]) w1)))"

section \<open>The world\<close>

text \<open>
  What comes from outside: readings of the clock, time stamps, random numbers and bytes, orders of map iterations (of one map, or of a map for each key of another), the answers of
  the backends, whether a pause ends before the client is gone, and which URLs \<^verbatim>\<open>http.NewRequest\<close> can parse. A stream is read from its front.
\<close>

record Answer =
  an_status :: int
  an_header :: Header
  an_body :: string

record Env =
  en_now :: "nat \<Rightarrow> time"
  en_clocks :: "nat \<Rightarrow> url \<Rightarrow> time"
  en_stamp :: "nat \<Rightarrow> string"
  en_rand :: "nat \<Rightarrow> f64"
  en_bytes :: "nat \<Rightarrow> nat \<Rightarrow> 8 word"
  en_order :: "nat \<Rightarrow> string list"
  en_orders :: "nat \<Rightarrow> string \<Rightarrow> string list"
  en_answer :: "nat \<Rightarrow> Answer result"
  en_waited :: "nat \<Rightarrow> bool"
  en_url_ok :: "string \<Rightarrow> bool"

text \<open>A request as it is sent to a backend.\<close>

record OutRequest =
  or_Method :: string
  or_URL :: string
  or_Header :: Header
  or_Body :: ReqBody
  or_deadline :: time

text \<open>A line of the access log, without the time stamp.\<close>

record accessLogEntry =
  le_RequestID :: string
  le_ClientIP :: string
  le_Method :: string
  le_Path :: string
  le_Priority :: string
  le_BackendName :: string
  le_BackendURL :: string
  le_StatusCode :: int
  le_LatencyMs :: f64
  le_Attempts :: int
  le_BytesSent :: int

text \<open>An entry of the structured log, \<^verbatim>\<open>src/internal/logging/logger.go\<close>, and its zero value.\<close>

record AccessLog =
  al_Time :: string
  al_Level :: string
  al_Message :: string
  al_RequestID :: string
  al_ClientIP :: string
  al_Method :: string
  al_Path :: string
  al_Priority :: string
  al_ServerName :: string
  al_Target :: string
  al_StatusCode :: int
  al_LatencyMs :: f64
  al_Attempt :: int
  al_BackoffMs :: int
  al_Error :: string

definition blank_log :: AccessLog where
  "blank_log = \<lparr>al_Time = [], al_Level = [], al_Message = [], al_RequestID = [], al_ClientIP = [], al_Method = [], al_Path = [],
     al_Priority = [], al_ServerName = [], al_Target = [], al_StatusCode = 0, al_LatencyMs = 0, al_Attempt = 0, al_BackoffMs = 0, al_Error = []\<rparr>"

text \<open>
  The objects that handlers reach by pointer: service managers and per-IP limiters by their address, the files that access loggers append to;
  the dashboard's hub, which has the address of the manager that it shows, its WebSocket clients, its history, and what went to the clients so far; the requests sent so far; and the two loggers of package \<^verbatim>\<open>logging\<close> (the one that writes to a file is nil until it has been opened).
  \<open>'l\<close> is the limiter of \<^verbatim>\<open>golang.org/x/time/rate\<close>.
\<close>

record 'l ipLimiter =
  il_limiter :: 'l
  il_lastSeen :: time

record 'l PerIPRateLimiter =
  rl_limiters :: "string \<rightharpoonup> 'l ipLimiter"
  rl_rps :: f64
  rl_burst :: int

datatype ws_event = WsText nat string | WsClose nat

record Hub =
  hu_provider :: nat
  hu_clients :: "nat list"
  hu_htmlPath :: string
  hu_history :: "DashboardSnapshot list"
  hu_wire :: "ws_event list"

record 'l World =
  wo_env :: Env
  wo_mgrs :: "Manager list"
  wo_hub :: Hub
  wo_limiters :: "'l PerIPRateLimiter list"
  wo_files :: "string \<rightharpoonup> accessLogEntry list"
  wo_disk :: "string \<rightharpoonup> string"
  wo_sent :: "OutRequest list"
  wo_stdout :: "AccessLog list"
  wo_fileLog :: "AccessLog list option"

definition draw :: "(nat \<Rightarrow> 'a) \<Rightarrow> 'a \<times> (nat \<Rightarrow> 'a)" where
  "draw f = (f 0, \<lambda>n. f (Suc n))"

definition draw_now :: "'l World \<Rightarrow> time \<times> 'l World" where
  "draw_now w = (en_now (wo_env w) 0, w\<lparr>wo_env := wo_env w\<lparr>en_now := snd (draw (en_now (wo_env w)))\<rparr>\<rparr>)"

definition draw_clocks :: "'l World \<Rightarrow> (url \<Rightarrow> time) \<times> 'l World" where
  "draw_clocks w = (en_clocks (wo_env w) 0, w\<lparr>wo_env := wo_env w\<lparr>en_clocks := snd (draw (en_clocks (wo_env w)))\<rparr>\<rparr>)"

definition draw_stamp :: "'l World \<Rightarrow> string \<times> 'l World" where
  "draw_stamp w = (en_stamp (wo_env w) 0, w\<lparr>wo_env := wo_env w\<lparr>en_stamp := snd (draw (en_stamp (wo_env w)))\<rparr>\<rparr>)"

definition draw_rand :: "'l World \<Rightarrow> f64 \<times> 'l World" where
  "draw_rand w = (en_rand (wo_env w) 0, w\<lparr>wo_env := wo_env w\<lparr>en_rand := snd (draw (en_rand (wo_env w)))\<rparr>\<rparr>)"

definition draw_order :: "'l World \<Rightarrow> string list \<times> 'l World" where
  "draw_order w = (en_order (wo_env w) 0, w\<lparr>wo_env := wo_env w\<lparr>en_order := snd (draw (en_order (wo_env w)))\<rparr>\<rparr>)"

definition draw_orders :: "'l World \<Rightarrow> (string \<Rightarrow> string list) \<times> 'l World" where
  "draw_orders w = (en_orders (wo_env w) 0, w\<lparr>wo_env := wo_env w\<lparr>en_orders := snd (draw (en_orders (wo_env w)))\<rparr>\<rparr>)"

definition draw_bytes :: "'l World \<Rightarrow> (nat \<Rightarrow> 8 word) \<times> 'l World" where
  "draw_bytes w = (en_bytes (wo_env w) 0, w\<lparr>wo_env := wo_env w\<lparr>en_bytes := snd (draw (en_bytes (wo_env w)))\<rparr>\<rparr>)"

definition draw_answer :: "'l World \<Rightarrow> Answer result \<times> 'l World" where
  "draw_answer w = (en_answer (wo_env w) 0, w\<lparr>wo_env := wo_env w\<lparr>en_answer := snd (draw (en_answer (wo_env w)))\<rparr>\<rparr>)"

definition draw_waited :: "'l World \<Rightarrow> bool \<times> 'l World" where
  "draw_waited w = (en_waited (wo_env w) 0, w\<lparr>wo_env := wo_env w\<lparr>en_waited := snd (draw (en_waited (wo_env w)))\<rparr>\<rparr>)"

section \<open>Structured logging\<close>

definition InitFileLogger :: "bool \<Rightarrow> 'l World \<Rightarrow> bool \<times> 'l World" where
  "InitFileLogger opened w = (if \<not> opened then (False, w) else (True, w\<lparr>wo_fileLog := Some []\<rparr>))"

definition log_write :: "AccessLog \<Rightarrow> 'l World \<Rightarrow> 'l World" where
  "log_write entry w =
     w\<lparr>wo_stdout := wo_stdout w @ [entry], wo_fileLog := map_option (\<lambda>es. es @ [entry]) (wo_fileLog w)\<rparr>"

definition log_Info :: "AccessLog \<Rightarrow> 'l World \<Rightarrow> 'l World" where
  "log_Info entry w =
     (let (t, w1) = draw_stamp w; e1 = entry\<lparr>al_Time := t\<rparr>
      in log_write (if al_Level e1 = [] then e1\<lparr>al_Level := ''INFO''\<rparr> else e1) w1)"

definition log_Error :: "AccessLog \<Rightarrow> 'l World \<Rightarrow> 'l World" where
  "log_Error entry w =
     (let (t, w1) = draw_stamp w in log_write (entry\<lparr>al_Time := t, al_Level := ''ERROR''\<rparr>) w1)"

section \<open>Handlers\<close>

text \<open>
  A handler takes the world, the writer and the request. It returns the world with either a panic or the writer and the
  request: their header map and body may have changed.
\<close>

type_synonym 'l Handler = "'l World \<Rightarrow> Writer \<Rightarrow> Request \<Rightarrow> 'l World \<times> (Writer \<times> Request) result"

type_synonym 'l Middleware = "'l Handler \<Rightarrow> 'l Handler"

text \<open>Going on after a call that returned; a panic unwinds.\<close>

fun and_do :: "'w \<times> 'a result \<Rightarrow> ('w \<Rightarrow> 'a \<Rightarrow> 'w \<times> 'b result) \<Rightarrow> 'w \<times> 'b result" where
  "and_do (w, Inl e) f = (w, Inl e)"
| "and_do (w, Inr a) f = f w a"

text \<open>A reply that the handler writes itself.\<close>

definition reply :: "Writer result \<Rightarrow> 'l World \<Rightarrow> Request \<Rightarrow> 'l World \<times> (Writer \<times> Request) result" where
  "reply x w r = (w, case x of Inl e \<Rightarrow> Inl e | Inr rw \<Rightarrow> Inr (rw, r))"

text \<open>\<^verbatim>\<open>Chain\<close>: the loop runs from the last middleware to the first.\<close>

fun chain_loop :: "'l Middleware list \<Rightarrow> nat \<Rightarrow> 'l Handler \<Rightarrow> 'l Handler" where
  "chain_loop mws 0 final = final"
| "chain_loop mws (Suc i) final = chain_loop mws i ((mws ! i) final)"

definition Chain :: "'l Middleware list \<Rightarrow> 'l Middleware" where
  "Chain mws = (\<lambda>final. chain_loop mws (length mws) final)"

end
