(* ===== verification/Priority.thy ===== *)
theory Priority
  imports Http
begin

text \<open>The classification of requests by priority, \<^verbatim>\<open>src/internal/priority/classifier.go\<close>.\<close>

definition highPriorityPaths :: "string list" where
  "highPriorityPaths = [''/api/critical'', ''/api/payment'', ''/api/auth'', ''/admin'', ''/health-check'']"

fun path_loop :: "string list \<Rightarrow> string \<Rightarrow> string" where
  "path_loop [] path = ''LOW''"
| "path_loop (prefix # prefixes) path = (if HasPrefix path prefix then ''HIGH'' else path_loop prefixes path)"

definition Classify :: "string \<Rightarrow> string \<Rightarrow> string" where
  "Classify path headerValue =
     (if headerValue = ''HIGH'' \<or> headerValue = ''LOW'' then headerValue else path_loop highPriorityPaths path)"

lemma path_loop_iff: "path_loop ps path = (if list_ex (HasPrefix path) ps then ''HIGH'' else ''LOW'')"
  by (induction ps) auto

lemma Classify_range: "Classify path h = ''HIGH'' \<or> Classify path h = ''LOW''"
  by (auto simp: Classify_def path_loop_iff)

text \<open>
  A request is of high priority exactly when its header says so, or when the header says neither \<^verbatim>\<open>HIGH\<close> nor \<^verbatim>\<open>LOW\<close> and its path
  extends one of the five critical prefixes; every other request is of low priority, so the medium priority that
  the timeout middleware provides for is never assigned.
\<close>

theorem classify_spec:
  "Classify path h =
     (if h = ''HIGH'' \<or> h \<noteq> ''LOW'' \<and> (\<exists>p \<in> set highPriorityPaths. \<exists>t. path = p @ t) then ''HIGH'' else ''LOW'')"
  by (auto simp: Classify_def path_loop_iff list_ex_iff HasPrefix_iff)

end
