(* ===== verification/Filters.thy ===== *)
theory Filters
  imports Serve Priority
begin

text \<open>
  The middlewares that decide about a request before the handler behind them runs, in \<^verbatim>\<open>src/internal/middleware/\<close>: \<^verbatim>\<open>auth.go\<close>,
  \<^verbatim>\<open>cors.go\<close>, \<^verbatim>\<open>headers.go\<close>, \<^verbatim>\<open>timeout.go\<close> and \<^verbatim>\<open>ratelimit.go\<close>.
\<close>

section \<open>Basic authentication\<close>

text \<open>\<^verbatim>\<open>base64.StdEncoding.DecodeString\<close>: line breaks are skipped, padding is required, trailing bits are ignored.\<close>

definition b64_value :: "char \<Rightarrow> nat option" where
  "b64_value c =
     (let n = byte c
      in if 65 \<le> n \<and> n \<le> 90 then Some (n - 65)
         else if 97 \<le> n \<and> n \<le> 122 then Some (n - 71)
         else if 48 \<le> n \<and> n \<le> 57 then Some (n + 4)
         else if n = 43 then Some 62
         else if n = 47 then Some 63
         else None)"

definition b64_bytes :: "nat \<Rightarrow> nat \<Rightarrow> nat \<Rightarrow> nat \<Rightarrow> string" where
  "b64_bytes a b c d =
     (let n = a * 262144 + b * 4096 + c * 64 + d
      in [char_of (n div 65536), char_of (n div 256 mod 256), char_of (n mod 256)])"

fun b64_quanta :: "string \<Rightarrow> string option" where
  "b64_quanta [] = Some []"
| "b64_quanta (a # b # c # d # s) =
     (case (b64_value a, b64_value b, b64_value c, b64_value d) of
        (Some i, Some j, Some k, Some l) \<Rightarrow> map_option (\<lambda>t. b64_bytes i j k l @ t) (b64_quanta s)
      | (Some i, Some j, Some k, None) \<Rightarrow>
          (if d = CHR ''='' \<and> s = [] then Some (take 2 (b64_bytes i j k 0)) else None)
      | (Some i, Some j, None, x) \<Rightarrow>
          (if c = CHR ''='' \<and> d = CHR ''='' \<and> s = [] then Some (take 1 (b64_bytes i j 0 0)) else None)
      | y \<Rightarrow> None)"
| "b64_quanta s = None"

definition b64_decode :: "string \<Rightarrow> string option" where
  "b64_decode s = b64_quanta (filter (\<lambda>c. byte c \<noteq> 10 \<and> byte c \<noteq> 13) s)"

text \<open>\<^verbatim>\<open>r.BasicAuth()\<close>.\<close>

definition parseBasicAuth :: "string \<Rightarrow> (string \<times> string) option" where
  "parseBasicAuth auth =
     (if length auth < 6 \<or> map lower_byte (take 6 auth) \<noteq> ''basic '' then None
      else case b64_decode (drop 6 auth) of
             None \<Rightarrow> None
           | Some cs \<Rightarrow>
               (case IndexByte cs CHR '':'' of
                  None \<Rightarrow> None
                | Some i \<Rightarrow> Some (take i cs, drop (i + 1) cs)))"

definition Request_BasicAuth :: "Request \<Rightarrow> (string \<times> string) option" where
  "Request_BasicAuth r =
     (let auth = Header_Get (rq_Header r) ''Authorization'' in if auth = [] then None else parseBasicAuth auth)"

text \<open>\<^verbatim>\<open>subtle.ConstantTimeCompare\<close>.\<close>

definition ConstantTimeCompare :: "string \<Rightarrow> string \<Rightarrow> int" where
  "ConstantTimeCompare x y = (if x = y then 1 else 0)"

definition unauthorized :: "'l Handler" where
  "unauthorized w rw r =
     reply (http_Error ''Unauthorized'' 401
       (on_Header (Header_Set ''WWW-Authenticate'' (''Basic realm='' @ dquoted ''Load Balancer Dashboard'')) rw)) w r"

definition BasicAuth :: "string \<Rightarrow> string \<Rightarrow> 'l Middleware" where
  "BasicAuth username password next =
     (if username = [] \<or> password = [] then next
      else (\<lambda>w rw r.
        case Request_BasicAuth r of
          None \<Rightarrow> unauthorized w rw r
        | Some (user, pass) \<Rightarrow>
            (if ConstantTimeCompare user username \<noteq> 1 \<or> ConstantTimeCompare pass password \<noteq> 1
             then unauthorized w rw r
             else next w rw r)))"

section \<open>Cross-origin requests\<close>

record CORSConfig =
  co_AllowedOrigins :: "string list"
  co_AllowedMethods :: "string list"
  co_AllowedHeaders :: "string list"
  co_MaxAge :: string

definition DefaultCORSConfig :: CORSConfig where
  "DefaultCORSConfig =
     \<lparr>co_AllowedOrigins = [''*''],
      co_AllowedMethods = [''GET'', ''POST'', ''PUT'', ''DELETE'', ''OPTIONS'', ''PATCH''],
      co_AllowedHeaders = [''Content-Type'', ''Authorization'', ''X-Requested-With'', ''X-Priority''],
      co_MaxAge = ''3600''\<rparr>"

definition cors_headers :: "CORSConfig \<Rightarrow> Header \<Rightarrow> Header" where
  "cors_headers cfg h =
     Header_Set ''Access-Control-Max-Age'' (co_MaxAge cfg)
       (Header_Set ''Access-Control-Allow-Headers'' (strings_Join (co_AllowedHeaders cfg) '', '')
         (Header_Set ''Access-Control-Allow-Methods'' (strings_Join (co_AllowedMethods cfg) '', '')
           (Header_Set ''Access-Control-Allow-Origin'' (strings_Join (co_AllowedOrigins cfg) '', '') h)))"

definition CORS :: "CORSConfig \<Rightarrow> 'l Middleware" where
  "CORS cfg next w rw r =
     (let rw1 = on_Header (cors_headers cfg) rw
      in if rq_Method r = ''OPTIONS'' then reply (WriteHeader 204 rw1) w r
         else next w rw1 r)"

section \<open>Proxy headers\<close>

definition RequestIDFromContext :: "Context \<Rightarrow> string" where
  "RequestIDFromContext ctx = (case cx_requestID ctx of Some i \<Rightarrow> i | None \<Rightarrow> [])"

definition hex_digit :: "nat \<Rightarrow> char" where
  "hex_digit n = (if n < 10 then char_of (48 + n) else char_of (87 + n))"

definition hex_bytes :: "8 word list \<Rightarrow> string" where
  "hex_bytes bs = concat (map (\<lambda>b. [hex_digit (unat b div 16), hex_digit (unat b mod 16)]) bs)"

unbundle bit_operations_syntax

definition generateRequestID :: "(nat \<Rightarrow> 8 word) \<Rightarrow> string" where
  "generateRequestID rand_Read =
     (let b = map rand_Read [0..<16];
          b = b[6 := (b ! 6 AND 0x0f) OR 0x40];
          b = b[8 := (b ! 8 AND 0x3f) OR 0x80];
          part = (\<lambda>i j. hex_bytes (take (j - i) (drop i b)))
      in part 0 4 @ ''-'' @ part 4 6 @ ''-'' @ part 6 8 @ ''-'' @ part 8 10 @ ''-'' @ part 10 16)"

definition clientIPFromRequest :: "Request \<Rightarrow> string" where
  "clientIPFromRequest r =
     (case SplitHostPort (rq_RemoteAddr r) of Inl err \<Rightarrow> rq_RemoteAddr r | Inr ip \<Rightarrow> ip)"

text \<open>The headers that do not need a request ID.\<close>

definition forwarded_headers :: "Request \<Rightarrow> Header \<Rightarrow> Header" where
  "forwarded_headers r h =
     (let clientIP = clientIPFromRequest r;
          h1 = Header_Set ''X-Real-IP'' clientIP h;
          prior = Header_Get h1 ''X-Forwarded-For'';
          h2 = (if prior \<noteq> [] then Header_Set ''X-Forwarded-For'' (prior @ '', '' @ clientIP) h1
                else Header_Set ''X-Forwarded-For'' clientIP h1);
          h3 = Header_Set ''X-Forwarded-Proto'' (if rq_TLS r then ''https'' else ''http'') h2
      in if Header_Get h3 ''X-Forwarded-Host'' = [] then Header_Set ''X-Forwarded-Host'' (rq_Host r) h3 else h3)"

definition RequestHeaders :: "'l Middleware" where
  "RequestHeaders next w rw r =
     (let h = forwarded_headers r (rq_Header r);
          given = Header_Get h ''X-Request-ID'';
          (reqID, w1, h1) =
            (if given = []
             then let (bytes, w1) = draw_bytes w; reqID = generateRequestID bytes
                  in (reqID, w1, Header_Set ''X-Request-ID'' reqID h)
             else (given, w, h));
          ctx = rq_ctx r\<lparr>cx_requestID := Some reqID\<rparr>
      in next w1 (on_Header (Header_Set ''X-Request-ID'' reqID) rw) (WithContext ctx (r\<lparr>rq_Header := h1\<rparr>)))"

section \<open>Timeouts by priority\<close>

definition WithTimeout :: "time \<Rightarrow> duration \<Rightarrow> Context \<Rightarrow> Context" where
  "WithTimeout now d ctx =
     ctx\<lparr>cx_deadline := Some (case cx_deadline ctx of
        None \<Rightarrow> now + d | Some cur \<Rightarrow> if cur < now + d then cur else now + d)\<rparr>"

definition priority_timeout :: "int \<Rightarrow> int \<Rightarrow> int \<Rightarrow> string \<Rightarrow> duration" where
  "priority_timeout highSec mediumSec lowSec pri =
     (if pri = ''HIGH'' then seconds (if highSec \<le> 0 then 5 else highSec)
      else if pri = ''MEDIUM'' then seconds (if mediumSec \<le> 0 then 10 else mediumSec)
      else seconds (if lowSec \<le> 0 then 20 else lowSec))"

text \<open>The context of the request as the caller holds it is not changed, but its header map and body may be.\<close>

definition resume :: "Request \<Rightarrow> Request \<Rightarrow> Request" where
  "resume r r1 = r\<lparr>rq_Header := rq_Header r1, rq_Body := rq_Body r1\<rparr>"

definition NewPriorityTimeout :: "int \<Rightarrow> int \<Rightarrow> int \<Rightarrow> 'l Middleware" where
  "NewPriorityTimeout highSec mediumSec lowSec next w rw r =
     (let pri = Classify (rq_Path r) (Header_Get (rq_Header r) ''X-Priority'');
          (now, w1) = draw_now w;
          ctx = WithTimeout now (priority_timeout highSec mediumSec lowSec pri) (rq_ctx r)
      in next w1 rw (WithContext (ctx\<lparr>cx_priority := Some pri\<rparr>) r))"

definition PriorityFromContext :: "Context \<Rightarrow> string" where
  "PriorityFromContext ctx = (case cx_priority ctx of Some p \<Rightarrow> p | None \<Rightarrow> [])"

section \<open>Rate limiting\<close>

text \<open>
  The limiter of one address is a \<^verbatim>\<open>rate.Limiter\<close> of \<^verbatim>\<open>golang.org/x/time\<close>: \<open>NewLimiter\<close> and \<open>Allow\<close>, which reads the clock itself, are arguments.
\<close>

definition NewPerIPRateLimiter :: "f64 \<Rightarrow> int \<Rightarrow> 'l PerIPRateLimiter" where
  "NewPerIPRateLimiter rps burst = \<lparr>rl_limiters = Map.empty, rl_rps = rps, rl_burst = burst\<rparr>"

definition getLimiter :: "(f64 \<Rightarrow> int \<Rightarrow> 'l) \<Rightarrow> time \<Rightarrow> string \<Rightarrow> 'l PerIPRateLimiter \<Rightarrow> 'l PerIPRateLimiter \<times> 'l" where
  "getLimiter NewLimiter now ip rl =
     (case rl_limiters rl ip of
        Some entry \<Rightarrow>
          (rl\<lparr>rl_limiters := (rl_limiters rl)(ip \<mapsto> entry\<lparr>il_lastSeen := now\<rparr>)\<rparr>, il_limiter entry)
      | None \<Rightarrow>
          (let limiter = NewLimiter (rl_rps rl) (rl_burst rl)
           in (rl\<lparr>rl_limiters := (rl_limiters rl)(ip \<mapsto> \<lparr>il_limiter = limiter, il_lastSeen = now\<rparr>)\<rparr>, limiter)))"

text \<open>The limiter is one object: what \<open>Allow\<close> does to it shows in the map.\<close>

definition put_limiter :: "string \<Rightarrow> 'l \<Rightarrow> 'l PerIPRateLimiter \<Rightarrow> 'l PerIPRateLimiter" where
  "put_limiter ip limiter rl =
     rl\<lparr>rl_limiters := (rl_limiters rl)(ip := map_option (\<lambda>e. e\<lparr>il_limiter := limiter\<rparr>) (rl_limiters rl ip))\<rparr>"

text \<open>One tick of \<^verbatim>\<open>cleanup\<close>; \<open>now ip\<close> is the reading of the clock for the entry of \<open>ip\<close>.\<close>

definition cleanup :: "(string \<Rightarrow> time) \<Rightarrow> 'l PerIPRateLimiter \<Rightarrow> 'l PerIPRateLimiter" where
  "cleanup now rl =
     rl\<lparr>rl_limiters := (\<lambda>ip. case rl_limiters rl ip of
          None \<Rightarrow> None
        | Some entry \<Rightarrow> if time_Sub (now ip) (il_lastSeen entry) > 300000000000 then None else Some entry)\<rparr>"

definition extractIP :: "Request \<Rightarrow> string" where
  "extractIP r =
     (let ip = Header_Get (rq_Header r) ''X-Real-IP''; xff = Header_Get (rq_Header r) ''X-Forwarded-For''
      in if ip \<noteq> [] then ip
         else if xff \<noteq> [] then (case IndexByte xff CHR '','' of Some i \<Rightarrow> take i xff | None \<Rightarrow> xff)
         else case SplitHostPort (rq_RemoteAddr r) of Inl err \<Rightarrow> rq_RemoteAddr r | Inr host \<Rightarrow> host)"

text \<open>The decision about one address.\<close>

definition limit_ip ::
  "(f64 \<Rightarrow> int \<Rightarrow> 'l) \<Rightarrow> (time \<Rightarrow> 'l \<Rightarrow> 'l \<times> bool) \<Rightarrow> time \<Rightarrow> time \<Rightarrow> string \<Rightarrow> 'l PerIPRateLimiter \<Rightarrow> 'l PerIPRateLimiter \<times> bool" where
  "limit_ip NewLimiter Allow seen now ip rl =
     (let (rl1, limiter) = getLimiter NewLimiter seen ip rl; (limiter1, ok) = Allow now limiter
      in (put_limiter ip limiter1 rl1, ok))"

definition RateLimit :: "(f64 \<Rightarrow> int \<Rightarrow> 'l) \<Rightarrow> (time \<Rightarrow> 'l \<Rightarrow> 'l \<times> bool) \<Rightarrow> nat \<Rightarrow> 'l Middleware" where
  "RateLimit NewLimiter Allow addr next w rw r =
     (let (seen, w1) = draw_now w;
          (now, w2) = draw_now w1;
          (rl, ok) = limit_ip NewLimiter Allow seen now (extractIP r) (wo_limiters w2 ! addr);
          w3 = w2\<lparr>wo_limiters := (wo_limiters w2)[addr := rl]\<rparr>
      in if \<not> ok
         then reply (http_Error ''Too Many Requests'' 429 (on_Header (Header_Set ''Retry-After'' ''1'') rw)) w3 r
         else next w3 rw r)"

end
