(* ===== verification/Proxy.thy ===== *)
theory Proxy
  imports Filters
begin

text \<open>
  The last handler of every chain, \<^verbatim>\<open>src/internal/proxy/proxy.go\<close>: it asks the service's router for a server, forwards the request, and
  keeps the metrics of the server. A handler belongs to the instance \<open>k\<close> of the manager at address \<open>a\<close>.
\<close>

section \<open>Access to a service\<close>

definition wo_instance :: "nat \<Rightarrow> string \<Rightarrow> 'l World \<Rightarrow> Instance option" where
  "wo_instance a k w = (if a < length (wo_mgrs w) then mg_instances (wo_mgrs w ! a) k else None)"

definition wo_put :: "nat \<Rightarrow> string \<Rightarrow> Instance \<Rightarrow> 'l World \<Rightarrow> 'l World" where
  "wo_put a k inst w = w\<lparr>wo_mgrs := (wo_mgrs w)[a := set_instance k inst (wo_mgrs w ! a)]\<rparr>"

definition on_collector :: "nat \<Rightarrow> string \<Rightarrow> (Collector \<Rightarrow> Collector) \<Rightarrow> 'l World \<Rightarrow> 'l World" where
  "on_collector a k f w =
     (case wo_instance a k w of
        None \<Rightarrow> w
      | Some inst \<Rightarrow> wo_put a k (set_collector (f (is_Collector inst)) inst) w)"

section \<open>Values in the context\<close>

definition getCurrentAttempt :: "Context \<Rightarrow> int" where
  "getCurrentAttempt ctx = (case cx_attempt ctx of Some n \<Rightarrow> n | None \<Rightarrow> 1)"

definition AttemptFromContext :: "Context \<Rightarrow> int" where
  "AttemptFromContext ctx = getCurrentAttempt ctx"

definition ExcludedFromContext :: "Context \<Rightarrow> url list" where
  "ExcludedFromContext ctx = (case cx_excluded ctx of Some us \<Rightarrow> us | None \<Rightarrow> [])"

section \<open>One exchange with a backend\<close>

text \<open>
  \<^verbatim>\<open>http.Client.Do\<close>: it fails at once when the deadline has passed, and it cannot send a body that has been closed; otherwise the
  environment answers. In every case it closes the body.
\<close>

definition client_Do :: "OutRequest \<Rightarrow> 'l World \<Rightarrow> Answer result \<times> 'l World" where
  "client_Do q w =
     (let (now, w1) = draw_now w
      in if or_deadline q \<le> now then (Inl (GoError ''context deadline exceeded''), w1)
         else if or_Body q = ClosedBody then (Inl (GoError ''http: invalid Read on closed Body''), w1)
         else draw_answer (w1\<lparr>wo_sent := wo_sent w1 @ [q]\<rparr>))"

definition body_Close :: "ReqBody \<Rightarrow> ReqBody" where
  "body_Close b = (if b = NoBody then NoBody else ClosedBody)"

definition Milliseconds :: "duration \<Rightarrow> int" where
  "Milliseconds d = go_quot d 1000000"

text \<open>The timeout of the attempt: the configured one, or what the context's deadline leaves of it.\<close>

definition attempt_timeout :: "ProxyHandler \<Rightarrow> Context \<Rightarrow> 'l World \<Rightarrow> duration \<times> 'l World" where
  "attempt_timeout ph ctx w =
     (case cx_deadline ctx of
        None \<Rightarrow> (ph_perAttemptTimeout ph, w)
      | Some deadline \<Rightarrow>
          (let (now, w1) = draw_now w; remaining = time_Sub deadline now
           in (if remaining < ph_perAttemptTimeout ph then remaining else ph_perAttemptTimeout ph, w1)))"

text \<open>The response of the backend is copied with three headers of the balancer.\<close>

definition copy_response :: "string \<Rightarrow> url \<Rightarrow> int \<Rightarrow> Answer \<Rightarrow> Writer \<Rightarrow> Writer result" where
  "copy_response serverName target attempt resp rw =
     (let rw1 = on_Header (\<lambda>h.
            Header_Set ''X-Retry-Count'' (Itoa (i64 (attempt - 1)))
              (Header_Set ''X-Backend-URL'' target
                (Header_Set ''X-Handled-By'' serverName (h ++ an_header resp)))) rw
      in case WriteHeader (an_status resp) rw1 of
           Inl e \<Rightarrow> Inl e
         | Inr rw2 \<Rightarrow> Inr (if an_body resp = [] then rw2 else fst (Write (an_body resp) rw2)))"

text \<open>The start of the exchange: the metrics, the first reading of the clock, and the request for the backend.\<close>

definition prepare :: "nat \<Rightarrow> string \<Rightarrow> ProxyHandler \<Rightarrow> url \<Rightarrow> Request \<Rightarrow> 'l World \<Rightarrow> time \<times> OutRequest \<times> 'l World" where
  "prepare a k ph target req w =
     (let w1 = on_collector a k (RecordStart target) w;
          (start, w2) = draw_now w1;
          (timeout, w3) = attempt_timeout ph (rq_ctx req) w2;
          (now, w4) = draw_now w3;
          ctx = WithTimeout now timeout (rq_ctx req)
      in (start,
          \<lparr>or_Method = rq_Method req, or_URL = target @ rq_RequestURI req, or_Header = Map.empty ++ rq_Header req,
           or_Body = rq_Body req, or_deadline = the (cx_deadline ctx)\<rparr>,
          w4))"

definition proxyToBackend ::
  "nat \<Rightarrow> string \<Rightarrow> ProxyHandler \<Rightarrow> url \<Rightarrow> string \<Rightarrow> int \<Rightarrow> string \<Rightarrow> string \<Rightarrow> 'l Handler" where
  "proxyToBackend a k ph target pri attempt requestID clientIP w rw req =
     (let (start, proxyReq, w1) = prepare a k ph target req w
      in if \<not> en_url_ok (wo_env w1) (or_URL proxyReq)
         then reply (http_Error ''Failed to build proxy request'' 500 rw) (on_collector a k (RecordEnd target 0 False) w1) req
         else
           let (resp, w2) = client_Do proxyReq w1;
               req1 = req\<lparr>rq_Body := body_Close (rq_Body req)\<rparr>;
               (finish, w3) = draw_now w2;
               latencyMs = f64_of_int (Milliseconds (time_Sub finish start));
               entry = blank_log\<lparr>al_RequestID := requestID, al_ClientIP := clientIP, al_Method := rq_Method req,
                  al_Path := rq_Path req, al_Priority := pri, al_Target := target, al_LatencyMs := latencyMs, al_Attempt := attempt\<rparr>
           in case resp of
                Inl err \<Rightarrow>
                  reply (http_Error ''Backend server error'' 502 rw)
                    (log_Error (entry\<lparr>al_Message := ''Proxy request failed'', al_Error := error_text err\<rparr>)
                      (on_collector a k (RecordEnd target latencyMs False) w3)) req1
              | Inr an \<Rightarrow>
                  (let isSuccess = an_status an < 500;
                       w4 = on_collector a k (RecordPriority target pri) (on_collector a k (RecordEnd target latencyMs isSuccess) w3);
                       serverName = (case wo_instance a k w4 of
                          None \<Rightarrow> target | Some inst \<Rightarrow> GetName (is_Collector inst) target)
                   in and_do (reply (copy_response serverName target attempt an rw) w4 req1) (\<lambda>w5 x.
                        (log_Info (entry\<lparr>al_Message := ''Request proxied successfully'', al_ServerName := serverName,
                            al_StatusCode := an_status an\<rparr>) w5, Inr x))))"

text \<open>The router that the handler shares with its instance: the selection reads the clock for each candidate, and once more.\<close>

definition select_server :: "nat \<Rightarrow> string \<Rightarrow> string \<Rightarrow> url list \<Rightarrow> 'l World \<Rightarrow> url result \<times> 'l World" where
  "select_server a k pri excluded w =
     (case wo_instance a k w of
        None \<Rightarrow> (Inl (GoPanic ''nil router''), w)
      | Some inst \<Rightarrow>
          (let (tf, w1) = draw_clocks w;
               (tc, w2) = draw_now w1;
               ((r, rnd), res) = Router_Select tf tc (en_rand (wo_env w2)) pri excluded (is_Router inst)
           in (res, wo_put a k (set_router r inst) (w2\<lparr>wo_env := wo_env w2\<lparr>en_rand := rnd\<rparr>\<rparr>))))"

definition proxy_ServeHTTP :: "nat \<Rightarrow> string \<Rightarrow> ProxyHandler \<Rightarrow> 'l Handler" where
  "proxy_ServeHTTP a k ph w rw req =
     (let requestID = RequestIDFromContext (rq_ctx req);
          realIP = Header_Get (rq_Header req) ''X-Real-IP'';
          clientIP = (if realIP = [] then rq_RemoteAddr req else realIP);
          pri = Classify (rq_Path req) (Header_Get (rq_Header req) ''X-Priority'');
          attempt = AttemptFromContext (rq_ctx req);
          excluded = ExcludedFromContext (rq_ctx req);
          (target, w1) = select_server a k pri excluded w
      in case target of
           Inl (GoPanic p) \<Rightarrow> (w1, Inl (GoPanic p))
         | Inl (GoError err) \<Rightarrow>
             reply (http_Error (''All backend servers unavailable: '' @ err) 502 rw)
               (log_Error (blank_log\<lparr>al_Message := ''No healthy servers available'', al_RequestID := requestID, al_ClientIP := clientIP,
                  al_Method := rq_Method req, al_Path := rq_Path req, al_Priority := pri, al_Error := err\<rparr>) w1) req
         | Inr url \<Rightarrow> proxyToBackend a k ph url pri attempt requestID clientIP w1 rw req)"

end
