(* ===== verification/Retry.thy ===== *)
theory Retry
  imports Proxy
begin

text \<open>
  The middlewares that watch the response of the handler behind them, in \<^verbatim>\<open>src/internal/middleware/\<close>: \<^verbatim>\<open>retry.go\<close>,
  \<^verbatim>\<open>circuitbreaker.go\<close> and \<^verbatim>\<open>accesslog.go\<close>. Each hands on a wrapped writer and looks at the wrapper afterwards.
\<close>

section \<open>Retries\<close>

definition new_retryWriter :: retryResponseWriter where
  "new_retryWriter = \<lparr>rw_statusCode = 200, rw_body = [], rw_headers = Map.empty, rw_committed = False\<rparr>"

text \<open>
  The copy of the buffered headers. The code adds them key by key and value by value, in the order of a map iteration;
  since the keys of a header map are canonical, this appends to each key's values (lemma \<open>add_headers_merge\<close>).
\<close>

definition merge_headers :: "Header \<Rightarrow> Header \<Rightarrow> Header" where
  "merge_headers src dst =
     (\<lambda>k. case src k of
        None \<Rightarrow> dst k
      | Some [] \<Rightarrow> dst k
      | Some (v # vs) \<Rightarrow> Some ((case dst k of None \<Rightarrow> [] | Some us \<Rightarrow> us) @ v # vs))"

fun add_values :: "string \<Rightarrow> string list \<Rightarrow> Header \<Rightarrow> Header" where
  "add_values k [] h = h"
| "add_values k (v # vs) h = add_values k vs (Header_Add k v h)"

fun add_headers :: "string list \<Rightarrow> Header \<Rightarrow> Header \<Rightarrow> Header" where
  "add_headers [] src h = h"
| "add_headers (k # ks) src h = add_headers ks src (add_values k (case src k of None \<Rightarrow> [] | Some vs \<Rightarrow> vs) h)"

definition flush :: "retryResponseWriter \<Rightarrow> Writer \<Rightarrow> Writer result" where
  "flush rw w =
     (if rw_committed rw then Inr (RetryW w rw)
      else case WriteHeader (rw_statusCode rw) (on_Header (merge_headers (rw_headers rw)) w) of
             Inl e \<Rightarrow> Inl e
           | Inr w1 \<Rightarrow>
               Inr (RetryW (if length (rw_body rw) > 0 then fst (Write (rw_body rw) w1) else w1) (rw\<lparr>rw_committed := True\<rparr>)))"

fun unwrap :: "Writer \<Rightarrow> Writer" where
  "unwrap (ConnW c) = ConnW c"
| "unwrap (RetryW w rw) = w"
| "unwrap (CbW w cs) = w"
| "unwrap (LogW w sr) = w"

definition isRetryable :: "int \<Rightarrow> bool" where
  "isRetryable statusCode \<longleftrightarrow> statusCode \<ge> 500"

text \<open>
  The conversion of a float to an integer truncates; out of range it gives the least integer, as on amd64. The result of
  \<^verbatim>\<open>math.Pow(2, n)\<close> is exact below \<open>2 ^ 1024\<close>.
\<close>

definition f64_to_i64 :: "f64 \<Rightarrow> int" where
  "f64_to_i64 x =
     (let n = (if x < 0 then \<lceil>x\<rceil> else \<lfloor>x\<rfloor>) in if in_i64 n then n else - (2 ^ 63))"

definition calculateBackoff :: "int \<Rightarrow> f64 \<Rightarrow> nat \<Rightarrow> duration" where
  "calculateBackoff initialIntervalMs rnd attempt =
     (let base = fmul (f64_of_int initialIntervalMs) (2 ^ (attempt - 1));
          jitter = fmul (fmul rnd (fl (25 / 100))) base
      in i64 (f64_to_i64 (fadd base jitter) * 1000000))"

text \<open>
  The attempts from number \<open>attempt\<close> on, \<open>n\<close> of them left. The excluded servers are put into a request that the
  next turn of the loop does not use: it builds its own from the original one.
\<close>

definition exclude_backend :: "Request \<Rightarrow> Request \<Rightarrow> Header \<Rightarrow> Request" where
  "exclude_backend r attemptReq headers =
     (let backendURL = Header_Get headers ''X-Backend-URL''
      in if backendURL \<noteq> []
         then WithContext (rq_ctx r\<lparr>cx_excluded := Some (ExcludedFromContext (rq_ctx attemptReq) @ [backendURL])\<rparr>) r
         else attemptReq)"

definition retry_entry :: "Request \<Rightarrow> nat \<Rightarrow> AccessLog" where
  "retry_entry r attempt =
     blank_log\<lparr>al_RequestID := RequestIDFromContext (rq_ctx r), al_Method := rq_Method r, al_Path := rq_Path r, al_Attempt := int attempt\<rparr>"

definition retry_pause :: "nat \<Rightarrow> int \<Rightarrow> Request \<Rightarrow> 'l World \<Rightarrow> bool \<times> 'l World" where
  "retry_pause attempt ms r w =
     (if attempt > 1
      then let (rnd, w1) = draw_rand w;
               backoff = calculateBackoff ms rnd (attempt - 1);
               w2 = log_Info (retry_entry r attempt\<lparr>al_Message := ''Retry middleware: backoff before retry'',
                      al_BackoffMs := Milliseconds backoff\<rparr>) w1
           in draw_waited w2
      else (True, w))"

definition commit_response :: "Request \<Rightarrow> retryResponseWriter \<Rightarrow> Writer \<Rightarrow> Writer result" where
  "commit_response r lastWriter rw =
     (case flush (lastWriter\<lparr>rw_headers :=
             Header_Set ''X-Attempts'' (Itoa (getCurrentAttempt (rq_ctx r))) (rw_headers lastWriter)\<rparr>) rw of
        Inl e \<Rightarrow> Inl e
      | Inr rw1 \<Rightarrow> Inr (unwrap rw1))"

fun retry_loop :: "nat \<Rightarrow> nat \<Rightarrow> nat \<Rightarrow> int \<Rightarrow> 'l Handler \<Rightarrow> 'l Handler" where
  "retry_loop 0 attempt maxAttempts ms next w rw r = (w, Inr (rw, r))"
| "retry_loop (Suc n) attempt maxAttempts ms next w rw r =
     (let (waited, w1) = retry_pause attempt ms r w
      in if \<not> waited then reply (http_Error ''Client disconnected during retry backoff'' 504 rw) w1 r
         else let attemptReq = WithContext (rq_ctx r\<lparr>cx_attempt := Some (int attempt)\<rparr>) r
              in and_do (next w1 (RetryW rw new_retryWriter) attemptReq) (\<lambda>w2 (lastWriter, r1).
                   case lastWriter of
                     RetryW rw1 b \<Rightarrow>
                       (if \<not> isRetryable (rw_statusCode b) \<or> attempt = maxAttempts
                        then reply (commit_response r b rw1) w2 (resume r r1)
                        else let w3 = log_Info (retry_entry r attempt\<lparr>
                                        al_Message := ''Retry middleware: got retryable response, retrying'',
                                        al_StatusCode := rw_statusCode b\<rparr>) w2;
                                 attemptReq1 = exclude_backend r attemptReq (rw_headers b)
                             in retry_loop n (attempt + 1) maxAttempts ms next w3 rw1 (resume r r1))
                   | other \<Rightarrow> (w2, Inr (other, resume r r1))))"

definition NewRetry :: "int \<Rightarrow> int \<Rightarrow> 'l Middleware" where
  "NewRetry maxAttempts initialIntervalMs next =
     (let attempts = (if maxAttempts \<le> 0 then 3 else maxAttempts);
          ms = (if initialIntervalMs \<le> 0 then 100 else initialIntervalMs)
      in retry_loop (nat attempts) 1 (nat attempts) ms next)"

section \<open>Reports to the circuit breakers\<close>

definition report_result :: "nat \<Rightarrow> url \<Rightarrow> bool \<Rightarrow> 'l World \<Rightarrow> 'l World" where
  "report_result a url ok w =
     (let (ks, w1) = draw_order w; (now, w2) = draw_now w1; (stamp, w3) = draw_stamp w2
      in w3\<lparr>wo_mgrs := (wo_mgrs w3)[a := RecordCircuitBreakerResult ks now stamp url ok (wo_mgrs w3 ! a)]\<rparr>)"

definition NewCircuitBreaker :: "nat option \<Rightarrow> 'l Middleware" where
  "NewCircuitBreaker registry next w rw r =
     and_do (next w (CbW rw \<lparr>cs_statusCode = 200, cs_written = False\<rparr>) r) (\<lambda>w1 (recorder, r1).
       case recorder of
         CbW rw1 cs \<Rightarrow>
           (let backendURL = Header_Get (Writer_Header recorder) ''X-Backend-URL''
            in if backendURL = [] then (w1, Inr (rw1, resume r r1))
               else case registry of
                      None \<Rightarrow> (w1, Inr (rw1, resume r r1))
                    | Some a \<Rightarrow> (report_result a backendURL (cs_statusCode cs < 500) w1, Inr (rw1, resume r r1)))
       | other \<Rightarrow> (w1, Inr (other, resume r r1)))"

section \<open>The access log\<close>

text \<open>\<^verbatim>\<open>fmt.Sscanf(s, "%d", &n)\<close>: blanks, a sign, and at least one digit; what follows is not looked at.\<close>

fun digits_value :: "string \<Rightarrow> int \<Rightarrow> int" where
  "digits_value [] n = n"
| "digits_value (c # cs) n = (if digit_byte c then digits_value cs (n * 10 + (int (byte c) - 48)) else n)"

definition scan_unsigned :: "int \<Rightarrow> string \<Rightarrow> int option" where
  "scan_unsigned sign s =
     (case s of
        [] \<Rightarrow> None
      | c # cs \<Rightarrow>
          (if digit_byte c \<and> in_i64 (sign * digits_value s 0) then Some (sign * digits_value s 0) else None))"

definition Sscanf_d :: "string \<Rightarrow> int option" where
  "Sscanf_d s =
     (case dropWhile (\<lambda>c. c = CHR '' '' \<or> byte c = 9 \<or> byte c = 13) s of
        [] \<Rightarrow> None
      | c # cs \<Rightarrow>
          (if c = CHR ''-'' then scan_unsigned (- 1) cs
           else if c = CHR ''+'' then scan_unsigned 1 cs
           else scan_unsigned 1 (c # cs)))"

definition access_entry :: "duration \<Rightarrow> Request \<Rightarrow> Header \<Rightarrow> statusRecorder \<Rightarrow> accessLogEntry" where
  "access_entry latency r h sr =
     \<lparr>le_RequestID = RequestIDFromContext (rq_ctx r), le_ClientIP = extractIP r, le_Method = rq_Method r, le_Path = rq_Path r,
      le_Priority = Header_Get (rq_Header r) ''X-Priority'', le_BackendName = Header_Get h ''X-Handled-By'',
      le_BackendURL = Header_Get h ''X-Backend-URL'', le_StatusCode = sr_statusCode sr,
      le_LatencyMs = fdiv (f64_of_int (go_quot latency 1000)) 1000,
      le_Attempts = (let s = Header_Get h ''X-Attempts''
                     in if s \<noteq> [] then (case Sscanf_d s of Some n \<Rightarrow> n | None \<Rightarrow> 0) else 0),
      le_BytesSent = sr_bytes sr\<rparr>"

definition log_line :: "string \<Rightarrow> accessLogEntry \<Rightarrow> 'l World \<Rightarrow> 'l World" where
  "log_line path entry w =
     w\<lparr>wo_files := (wo_files w)(path \<mapsto> (case wo_files w path of None \<Rightarrow> [] | Some es \<Rightarrow> es) @ [entry])\<rparr>"

text \<open>\<open>opened\<close> says whether \<^verbatim>\<open>os.OpenFile\<close> succeeded; without a file the line goes to the terminal only.\<close>

definition NewAccessLog :: "bool \<Rightarrow> string \<Rightarrow> 'l Middleware" where
  "NewAccessLog opened filePath next w rw r =
     (let (start, w1) = draw_now w
      in and_do (next w1 (LogW rw \<lparr>sr_statusCode = 200, sr_bytes = 0, sr_written = False\<rparr>) r) (\<lambda>w2 (recorder, r1).
           case recorder of
             LogW rw1 sr \<Rightarrow>
               (let (now, w3) = draw_now w2;
                    entry = access_entry (time_Sub now start) (resume r r1) (Writer_Header recorder) sr
                in (if filePath \<noteq> [] \<and> opened then log_line filePath entry w3 else w3, Inr (rw1, resume r r1)))
           | other \<Rightarrow> (w2, Inr (other, resume r r1))))"

end
