(* ===== verification/Contract.thy ===== *)
theory Contract
  imports Retry
begin

text \<open>
  What every handler owes to the middlewares around it: it returns the writer it was given. The locale \<open>http_handler\<close> states
  this contract; the proxy handler is an interpretation of it, and each middleware turns a handler that keeps the contract into one that does.
\<close>

section \<open>The writer a handler returns\<close>

text \<open>
  A handler returns the writer that it was given, written to: the nesting is the same, and below a retry writer that
  has not been flushed nothing has changed.
\<close>

inductive same_writer :: "Writer \<Rightarrow> Writer \<Rightarrow> bool" where
  same_conn [intro]: "same_writer (ConnW c) (ConnW c1)"
| same_buffer [intro]: "\<not> rw_committed b \<Longrightarrow> \<not> rw_committed b1 \<Longrightarrow> same_writer (RetryW w b) (RetryW w b1)"
| same_flushed [intro]: "rw_committed b \<Longrightarrow> rw_committed b1 \<Longrightarrow> same_writer w w1 \<Longrightarrow> same_writer (RetryW w b) (RetryW w1 b1)"
| same_cb [intro]: "same_writer w w1 \<Longrightarrow> same_writer (CbW w cs) (CbW w1 cs1)"
| same_log [intro]: "same_writer w w1 \<Longrightarrow> same_writer (LogW w sr) (LogW w1 sr1)"

inductive_cases same_connE [elim!]: "same_writer (ConnW c) w"
inductive_cases same_retryE [elim!]: "same_writer (RetryW w b) w1"
inductive_cases same_cbE [elim!]: "same_writer (CbW w cs) w1"
inductive_cases same_logE [elim!]: "same_writer (LogW w sr) w1"

lemma same_writer_refl [simp, intro]: "same_writer w w"
proof (induction w)
  case (RetryW w b)
  then show ?case by (cases "rw_committed b") auto
qed auto

lemma same_writer_trans: "same_writer u v \<Longrightarrow> same_writer v w \<Longrightarrow> same_writer u w"
  by (induction u v arbitrary: w rule: same_writer.induct) blast+

lemma same_writer_WriteHeader: "WriteHeader code w = Inr w1 \<Longrightarrow> same_writer w w1"
proof (induction w arbitrary: w1)
  case (RetryW w b)
  then show ?case by (cases "rw_committed b") (auto simp: rw_WriteHeader_def)
qed (auto split: sum.splits)

lemma same_writer_Write: "same_writer w (fst (Write b w))"
proof (induction w)
  case (RetryW w rw)
  then show ?case by (cases "rw_committed rw") (auto simp: Let_def case_prod_beta)
qed (auto simp: Let_def case_prod_beta)

lemma same_writer_on_Header: "same_writer w (on_Header f w)"
proof (induction w)
  case (RetryW w rw)
  then show ?case by (cases "rw_committed rw") auto
qed auto

lemma same_writer_http_Error: "http_Error msg code w = Inr w1 \<Longrightarrow> same_writer w w1"
  unfolding http_Error_def
  by (auto split: sum.splits dest!: same_writer_WriteHeader
      intro: same_writer_trans [OF same_writer_on_Header] same_writer_trans [OF _ same_writer_Write])

section \<open>Copying the buffered headers\<close>

text \<open>The loops of the code, in whatever order the map is read, append to each key's values.\<close>

lemma add_values_canonical:
  assumes "CanonicalHeaderKey k = k"
  shows "add_values k vs h = (if vs = [] then h else h(k \<mapsto> (case h k of None \<Rightarrow> [] | Some us \<Rightarrow> us) @ vs))"
  by (induction vs arbitrary: h) (auto simp: Header_Add_def assms)

lemma add_headers_merge:
  assumes "range_order src ks" and "\<forall>k \<in> set ks. CanonicalHeaderKey k = k"
  shows "add_headers ks src h = merge_headers src h"
proof -
  have "add_headers js src h = (\<lambda>k. if k \<in> set js then merge_headers src h k else h k)"
    if "distinct js" "set js \<subseteq> set ks" for js
    using that assms(2)
    by (induction js arbitrary: h)
      (auto simp: fun_eq_iff merge_headers_def add_values_canonical split: option.splits list.splits)
  moreover have "distinct ks" "\<And>k. k \<notin> set ks \<Longrightarrow> src k = None" using assms(1) by (auto simp: range_order_def)
  ultimately show ?thesis by (auto simp: fun_eq_iff merge_headers_def)
qed

section \<open>The contract of handlers\<close>

locale http_handler =
  fixes serve :: "'l Handler"
  assumes keeps_writer: "serve w rw r = (w1, Inr (rw1, r1)) \<Longrightarrow> same_writer rw rw1"
begin

lemma buffered:
  assumes "serve w (RetryW rw b) r = (w1, Inr (x, r1))" and "\<not> rw_committed b"
  shows "\<exists>b1. x = RetryW rw b1 \<and> \<not> rw_committed b1"
  using keeps_writer [OF assms(1)] assms(2) by auto

lemma recorded:
  assumes "serve w (CbW rw cs) r = (w1, Inr (x, r1))"
  shows "\<exists>rw1 cs1. x = CbW rw1 cs1 \<and> same_writer rw rw1"
  using keeps_writer [OF assms] by auto

lemma logged:
  assumes "serve w (LogW rw sr) r = (w1, Inr (x, r1))"
  shows "\<exists>rw1 sr1. x = LogW rw1 sr1 \<and> same_writer rw rw1"
  using keeps_writer [OF assms] by auto

end

lemma reply_Inr: "reply x w r = (w1, Inr (rw1, r1)) \<longleftrightarrow> w1 = w \<and> x = Inr rw1 \<and> r1 = r"
  by (auto simp: reply_def split: sum.splits)

lemma and_do_Inr: "and_do x f = (w1, Inr y) \<longleftrightarrow> (\<exists>w a. x = (w, Inr a) \<and> f w a = (w1, Inr y))"
  by (cases "(x, f)" rule: and_do.cases) auto

lemma copy_response_writer: "copy_response name target attempt an rw = Inr rw1 \<Longrightarrow> same_writer rw rw1"
  unfolding copy_response_def Let_def
  by (auto split: sum.splits if_splits dest!: same_writer_WriteHeader
      intro: same_writer_trans [OF same_writer_on_Header] same_writer_trans [OF _ same_writer_Write])

interpretation proxy: http_handler "proxy_ServeHTTP a k ph" for a k ph
proof
  fix w :: "'a World" and rw r w1 rw1 r1
  assume "proxy_ServeHTTP a k ph w rw r = (w1, Inr (rw1, r1))"
  then show "same_writer rw rw1"
    by (auto simp: proxy_ServeHTTP_def proxyToBackend_def reply_Inr and_do_Inr Let_def case_prod_beta
        split: sum.splits fault.splits if_splits dest: same_writer_http_Error copy_response_writer)
qed


section \<open>The middlewares keep the contract\<close>

fun buffer_of :: "Writer \<Rightarrow> retryResponseWriter" where
  "buffer_of (RetryW w b) = b"
| "buffer_of w = new_retryWriter"

definition keeps_contract :: "'l Middleware \<Rightarrow> bool" where
  "keeps_contract mw \<longleftrightarrow> (\<forall>next. http_handler next \<longrightarrow> http_handler (mw next))"

lemma draw_simps [simp]:
  "fst (draw_now w) = en_now (wo_env w) 0" "wo_mgrs (snd (draw_now w)) = wo_mgrs w" "wo_sent (snd (draw_now w)) = wo_sent w"
  by (simp_all add: draw_now_def)

lemma new_retryWriter_committed [simp]: "\<not> rw_committed new_retryWriter"
  by (simp add: new_retryWriter_def)

lemma same_writer_header_status: "WriteHeader code (on_Header f w) = Inr w1 \<Longrightarrow> same_writer w w1"
  by (rule same_writer_trans [OF same_writer_on_Header same_writer_WriteHeader])

lemma commit_writer: "\<not> rw_committed b \<Longrightarrow> commit_response r b rw = Inr rw1 \<Longrightarrow> same_writer rw rw1"
  unfolding commit_response_def flush_def
  by (auto split: sum.splits if_splits intro: same_writer_header_status
      dest!: same_writer_header_status intro: same_writer_trans [OF _ same_writer_Write])

text \<open>What the loop logs before another attempt.\<close>

definition retry_again :: "Request \<Rightarrow> nat \<Rightarrow> int \<Rightarrow> 'l World \<Rightarrow> 'l World" where
  "retry_again r attempt status w =
     log_Info (retry_entry r attempt\<lparr>al_Message := ''Retry middleware: got retryable response, retrying'', al_StatusCode := status\<rparr>) w"

context http_handler
begin

text \<open>One turn of the retry loop, without the cases that cannot occur.\<close>

lemma retry_loop_turn:
  "retry_loop (Suc n) i m ms serve w rw r =
     (let (waited, w1) = retry_pause i ms r w
      in if \<not> waited then reply (http_Error ''Client disconnected during retry backoff'' 504 rw) w1 r
         else and_do (serve w1 (RetryW rw new_retryWriter) (WithContext (rq_ctx r\<lparr>cx_attempt := Some (int i)\<rparr>) r))
           (\<lambda>w2 (lastWriter, r1).
              if \<not> isRetryable (rw_statusCode (buffer_of lastWriter)) \<or> i = m
              then reply (commit_response r (buffer_of lastWriter) rw) w2 (resume r r1)
              else retry_loop n (i + 1) m ms serve (retry_again r i (rw_statusCode (buffer_of lastWriter)) w2) rw (resume r r1)))"
proof -
  have "and_do (serve w1 (RetryW rw new_retryWriter) q) f = and_do (serve w1 (RetryW rw new_retryWriter) q) g"
    if "\<And>w2 b r1. \<not> rw_committed b \<Longrightarrow> f w2 (RetryW rw b, r1) = g w2 (RetryW rw b, r1)" for w1 q and f g :: "_ \<Rightarrow> _ \<Rightarrow> _ \<times> (Writer \<times> Request) result"
  proof (cases "serve w1 (RetryW rw new_retryWriter) q")
    case (Pair w2 y)
    then show ?thesis using that buffered [of w1 rw new_retryWriter q w2] by (cases y) (auto simp: new_retryWriter_def)
  qed
  then show ?thesis by (auto simp: Let_def case_prod_beta retry_again_def)
qed

lemma retry_writer:
  "retry_loop n i m ms serve w rw r = (w1, Inr (rw1, r1)) \<Longrightarrow> same_writer rw rw1"
proof (induction n arbitrary: i w r)
  case (Suc n)
  then show ?case
    by (auto simp: retry_loop_turn reply_Inr and_do_Inr Let_def case_prod_beta
        simp del: retry_loop.simps split: if_splits dest: same_writer_http_Error dest!: buffered intro: commit_writer)
qed simp

lemma retry: "http_handler (NewRetry n ms serve)"
  by unfold_locales (simp add: NewRetry_def Let_def retry_writer del: retry_loop.simps)

lemma circuit_breaker: "http_handler (NewCircuitBreaker registry serve)"
  by unfold_locales
    (auto simp: NewCircuitBreaker_def and_do_Inr Let_def dest!: recorded split: if_splits option.splits)

lemma access_log: "http_handler (NewAccessLog opened path serve)"
  by unfold_locales
    (auto simp: NewAccessLog_def and_do_Inr Let_def case_prod_beta dest!: logged split: if_splits)

lemma rate_limit: "http_handler (RateLimit NewLimiter Allow addr serve)"
  by unfold_locales
    (auto simp: RateLimit_def Let_def case_prod_beta reply_Inr split: if_splits
      dest: keeps_writer dest!: same_writer_http_Error intro: same_writer_trans [OF same_writer_on_Header])

lemma timeout: "http_handler (NewPriorityTimeout h m l serve)"
  by unfold_locales (auto simp: NewPriorityTimeout_def Let_def case_prod_beta dest: keeps_writer)

lemma headers: "http_handler (RequestHeaders serve)"
  by unfold_locales
    (auto simp: RequestHeaders_def Let_def case_prod_beta dest!: keeps_writer
      intro: same_writer_trans [OF same_writer_on_Header])

lemma cors: "http_handler (CORS cfg serve)"
  by unfold_locales
    (auto simp: CORS_def Let_def reply_Inr split: if_splits dest!: keeps_writer same_writer_WriteHeader
      intro: same_writer_trans [OF same_writer_on_Header])

lemma basic_auth: "http_handler (BasicAuth user pass serve)"
  by unfold_locales
    (auto simp: BasicAuth_def unauthorized_def reply_Inr split: if_splits option.splits dest!: same_writer_http_Error
      dest: keeps_writer intro: same_writer_trans [OF same_writer_on_Header])

lemmas middlewares = retry circuit_breaker access_log rate_limit timeout headers cors basic_auth

end

lemma keeps_contract_middlewares:
  "keeps_contract (NewRetry n ms)" "keeps_contract (NewCircuitBreaker registry)" "keeps_contract (NewAccessLog opened path)"
  "keeps_contract (RateLimit NewLimiter Allow addr)" "keeps_contract (NewPriorityTimeout h m l)"
  "keeps_contract RequestHeaders" "keeps_contract (CORS cfg)" "keeps_contract (BasicAuth user pass)"
  by (simp_all add: keeps_contract_def http_handler.middlewares)

text \<open>\<^verbatim>\<open>Chain(A, B, C)(h)\<close> is \<^verbatim>\<open>A(B(C(h)))\<close>.\<close>

lemma chain_loop_foldr: "i \<le> length mws \<Longrightarrow> chain_loop mws i final = foldr (\<lambda>mw h. mw h) (take i mws) final"
  by (induction i arbitrary: final) (simp_all add: take_Suc_conv_app_nth)

lemma Chain_foldr: "Chain mws final = foldr (\<lambda>mw h. mw h) mws final"
  by (simp add: Chain_def chain_loop_foldr)

lemma http_handler_Chain:
  "list_all keeps_contract mws \<Longrightarrow> http_handler final \<Longrightarrow> http_handler (Chain mws final)"
  unfolding Chain_foldr by (induction mws) (auto simp: keeps_contract_def)

end
