(* ===== verification/Exchange.thy ===== *)
theory Exchange
  imports Contract
begin

text \<open>
  What a request that goes through the proxy handler does to the metrics of its service, and what the circuit breaker middleware learns of it.
\<close>

section \<open>What the proxy handler does to the world\<close>

lemma wo_instance_frame [simp]:
  "wo_instance a k (snd (draw_now w)) = wo_instance a k w"
  "wo_instance a k (snd (draw_clocks w)) = wo_instance a k w"
  "wo_instance a k (snd (draw_answer w)) = wo_instance a k w"
  "wo_instance a k (w\<lparr>wo_env := e\<rparr>) = wo_instance a k w"
  "wo_instance a k (w\<lparr>wo_sent := qs\<rparr>) = wo_instance a k w"
  by (simp_all add: wo_instance_def draw_now_def draw_clocks_def draw_answer_def)

lemma log_frame [simp]:
  "wo_mgrs (log_Info e w) = wo_mgrs w" "wo_mgrs (log_Error e w) = wo_mgrs w"
  "wo_sent (log_Info e w) = wo_sent w" "wo_sent (log_Error e w) = wo_sent w"
  "en_answer (wo_env (log_Info e w)) = en_answer (wo_env w)" "en_answer (wo_env (log_Error e w)) = en_answer (wo_env w)"
  by (simp_all add: log_Info_def log_Error_def log_write_def draw_stamp_def Let_def)

lemma wo_instance_log [simp]:
  "wo_instance a k (log_Info e w) = wo_instance a k w" "wo_instance a k (log_Error e w) = wo_instance a k w"
  by (simp_all add: wo_instance_def)

lemma fst_and_do_reply:
  "fst (and_do (reply x w r) f) = (case x of Inl e \<Rightarrow> w | Inr rw \<Rightarrow> fst (f w (rw, r)))"
  by (simp add: reply_def split: sum.splits)

lemma wo_instance_put [simp]:
  "wo_instance a k w = Some i \<Longrightarrow> wo_instance a k (wo_put a k inst w) = Some inst"
  "a \<noteq> b \<or> k \<noteq> j \<Longrightarrow> wo_instance b j (wo_put a k inst w) = wo_instance b j w"
  by (cases "b = a"; auto simp: wo_instance_def wo_put_def split: if_splits)+

lemma wo_instance_on_collector [simp]:
  "wo_instance a k w = Some i \<Longrightarrow> wo_instance a k (on_collector a k f w) = Some (set_collector (f (is_Collector i)) i)"
  "a \<noteq> b \<or> k \<noteq> j \<Longrightarrow> wo_instance b j (on_collector a k f w) = wo_instance b j w"
  by (auto simp: on_collector_def split: option.splits)

lemma wo_instance_client_Do [simp]: "wo_instance a k (snd (client_Do q w)) = wo_instance a k w"
  by (simp add: client_Do_def Let_def case_prod_beta)

lemma wo_instance_timeout [simp]: "wo_instance a k (snd (attempt_timeout ph ctx w)) = wo_instance a k w"
  by (simp add: attempt_timeout_def Let_def case_prod_beta split: option.splits)

lemma wo_instance_prepare:
  assumes "wo_instance a k w = Some inst"
  shows "wo_instance a k (snd (snd (prepare a k ph t req w))) = Some (set_collector (RecordStart t (is_Collector inst)) inst)"
  using assms by (simp add: prepare_def Let_def case_prod_beta)

lemma fst_reply [simp]: "fst (reply x w r) = w"
  by (simp add: reply_def)

text \<open>The metrics of one exchange: a start, an end, and the priority if the backend answered.\<close>

lemma proxyToBackend_instance:
  assumes "wo_instance a k w = Some inst"
  shows "\<exists>lat ok c. wo_instance a k (fst (proxyToBackend a k ph t pri n rid cip w rw req)) = Some (set_collector c inst)
     \<and> (c = RecordEnd t lat ok (RecordStart t (is_Collector inst))
        \<or> c = RecordPriority t pri (RecordEnd t lat ok (RecordStart t (is_Collector inst))))"
proof -
  have twice: "set_collector c (set_collector c' inst) = set_collector c inst" for c c'
    by (simp add: set_collector_def set_router_def)
  show ?thesis
    using wo_instance_prepare [OF assms]
    by (auto simp: proxyToBackend_def Let_def case_prod_beta twice fst_and_do_reply split: sum.splits)
qed

lemma Router_Select_metrics: "ro_metrics (fst (fst (Router_Select tf tc rnd pri excl r))) = ro_metrics r"
  by (auto simp: Router_Select_def Let_def case_prod_beta split: sum.splits option.splits)

lemma select_server_instance:
  assumes "wo_instance a k w = Some inst"
  shows "\<exists>r. wo_instance a k (snd (select_server a k pri excl w)) = Some (set_router r inst) \<and> ro_metrics r = is_Collector inst"
  using assms by (auto simp: select_server_def Let_def case_prod_beta Router_Select_metrics)

text \<open>The server that a request is sent to, if any.\<close>

definition chosen_server :: "nat \<Rightarrow> string \<Rightarrow> 'l World \<Rightarrow> Request \<Rightarrow> url option" where
  "chosen_server a k w req =
     (case fst (select_server a k (Classify (rq_Path req) (Header_Get (rq_Header req) ''X-Priority''))
                  (ExcludedFromContext (rq_ctx req)) w) of
        Inl e \<Rightarrow> None
      | Inr t \<Rightarrow> Some t)"

text \<open>The metrics of a request that was sent to \<open>t\<close>.\<close>

definition request_metrics :: "url \<Rightarrow> Collector \<Rightarrow> Collector \<Rightarrow> bool" where
  "request_metrics t c c1 \<longleftrightarrow>
     (\<exists>lat ok pri. c1 = RecordEnd t lat ok (RecordStart t c) \<or> c1 = RecordPriority t pri (RecordEnd t lat ok (RecordStart t c)))"

lemma proxy_metrics:
  assumes "wo_instance a k w = Some inst"
  shows "\<exists>inst1. wo_instance a k (fst (proxy_ServeHTTP a k ph w rw req)) = Some inst1
     \<and> (case chosen_server a k w req of
          None \<Rightarrow> is_Collector inst1 = is_Collector inst
        | Some t \<Rightarrow> request_metrics t (is_Collector inst) (is_Collector inst1))"
proof -
  define sel where "sel = select_server a k (Classify (rq_Path req) (Header_Get (rq_Header req) ''X-Priority''))
                  (ExcludedFromContext (rq_ctx req)) w"
  obtain r where r: "wo_instance a k (snd sel) = Some (set_router r inst)" "ro_metrics r = is_Collector inst"
    using select_server_instance [OF assms] unfolding sel_def by blast
  have eq: "chosen_server a k w req = (case fst sel of Inl e \<Rightarrow> None | Inr t \<Rightarrow> Some t)"
    by (simp add: chosen_server_def sel_def)
  show ?thesis
  proof (cases "fst sel")
    case (Inl e)
    then show ?thesis
      using r by (cases e) (simp_all add: proxy_ServeHTTP_def sel_def [symmetric] Let_def case_prod_beta eq)
  next
    case (Inr t)
    then have "fst (proxy_ServeHTTP a k ph w rw req) = fst (proxyToBackend a k ph t
        (Classify (rq_Path req) (Header_Get (rq_Header req) ''X-Priority'')) (AttemptFromContext (rq_ctx req)) (RequestIDFromContext (rq_ctx req))
        (if Header_Get (rq_Header req) ''X-Real-IP'' = [] then rq_RemoteAddr req else Header_Get (rq_Header req) ''X-Real-IP'') (snd sel) rw req)"
      by (simp add: proxy_ServeHTTP_def sel_def [symmetric] Let_def case_prod_beta)
    then show ?thesis using proxyToBackend_instance [OF r(1)] r(2) Inr by (fastforce simp: eq request_metrics_def)
  qed
qed

text \<open>
  C11. The books of the metrics balance over every request. Whatever the backend does, and even if writing the response panics, a request that was sent to
  a server leaves the server's active connections as they were, adds one to its requests and one to its successes or failures, and
  changes neither its health nor its shown circuit state; no other server's statistics change, and none at all if no server could be chosen.
\<close>

theorem proxy_balances_metrics:
  assumes "wo_instance a k w = Some inst"
    and "\<forall>u s. co_servers (is_Collector inst) u = Some s \<longrightarrow>
          0 \<le> ss_ActiveConnections s \<and> ss_ActiveConnections s < 2 ^ 62 \<and> 0 \<le> ss_SuccessCount s \<and> 0 \<le> ss_FailureCount s
          \<and> ss_TotalRequests s = ss_SuccessCount s + ss_FailureCount s \<and> ss_TotalRequests s < 2 ^ 62"
  shows "\<exists>inst1. wo_instance a k (fst (proxy_ServeHTTP a k ph w rw req)) = Some inst1
     \<and> (\<forall>u s. co_servers (is_Collector inst) u = Some s \<longrightarrow>
          (if chosen_server a k w req = Some u
           then \<exists>s1. co_servers (is_Collector inst1) u = Some s1
             \<and> ss_ActiveConnections s1 = ss_ActiveConnections s \<and> ss_TotalRequests s1 = ss_TotalRequests s + 1
             \<and> ss_TotalRequests s1 = ss_SuccessCount s1 + ss_FailureCount s1
             \<and> ss_IsHealthy s1 = ss_IsHealthy s \<and> ss_CircuitState s1 = ss_CircuitState s
           else co_servers (is_Collector inst1) u = Some s))"
proof -
  obtain inst1 where inst1: "wo_instance a k (fst (proxy_ServeHTTP a k ph w rw req)) = Some inst1"
    "case chosen_server a k w req of
          None \<Rightarrow> is_Collector inst1 = is_Collector inst
        | Some t \<Rightarrow> request_metrics t (is_Collector inst) (is_Collector inst1)"
    using proxy_metrics [OF assms(1)] by blast
  have one: "\<exists>s1. co_servers (is_Collector inst1) u = Some s1
             \<and> ss_ActiveConnections s1 = ss_ActiveConnections s \<and> ss_TotalRequests s1 = ss_TotalRequests s + 1
             \<and> ss_TotalRequests s1 = ss_SuccessCount s1 + ss_FailureCount s1
             \<and> ss_IsHealthy s1 = ss_IsHealthy s \<and> ss_CircuitState s1 = ss_CircuitState s"
    if s: "co_servers (is_Collector inst) u = Some s" and t: "chosen_server a k w req = Some u" for u s
  proof -
    have b: "0 \<le> ss_ActiveConnections s" "ss_ActiveConnections s < 2 ^ 62" "0 \<le> ss_SuccessCount s" "0 \<le> ss_FailureCount s"
      "ss_TotalRequests s = ss_SuccessCount s + ss_FailureCount s" "ss_TotalRequests s < 2 ^ 62"
      using assms(2) s by blast+
    then have e: "ss_ActiveConnections (end_stats lat ok (s\<lparr>ss_ActiveConnections := i64 (ss_ActiveConnections s + 1)\<rparr>)) = ss_ActiveConnections s"
      "ss_TotalRequests (end_stats lat ok (s\<lparr>ss_ActiveConnections := i64 (ss_ActiveConnections s + 1)\<rparr>)) = ss_TotalRequests s + 1"
      "ss_SuccessCount (end_stats lat ok (s\<lparr>ss_ActiveConnections := i64 (ss_ActiveConnections s + 1)\<rparr>))
         + ss_FailureCount (end_stats lat ok (s\<lparr>ss_ActiveConnections := i64 (ss_ActiveConnections s + 1)\<rparr>)) = ss_TotalRequests s + 1"
      for lat ok
      by (simp_all add: end_stats_def Let_def i64_nonneg)
    have h: "ss_IsHealthy (end_stats lat ok x) = ss_IsHealthy x" "ss_CircuitState (end_stats lat ok x) = ss_CircuitState x" for lat ok x
      by (simp_all add: end_stats_def Let_def)
    show ?thesis using inst1(2) s t
      by (auto simp: request_metrics_def RecordEnd_def RecordStart_def RecordPriority_def e h)
  qed
  have other: "co_servers (is_Collector inst1) u = co_servers (is_Collector inst) u" if "chosen_server a k w req \<noteq> Some u" for u
    using that inst1(2) by (auto simp: request_metrics_def RecordEnd_def RecordStart_def RecordPriority_def split: option.splits)
  show ?thesis using inst1(1) one other by auto
qed


text \<open>What the parts of an exchange leave alone.\<close>

lemma sent_frame [simp]:
  "wo_sent (on_collector a k f w) = wo_sent w" "wo_env (on_collector a k f w) = wo_env w"
  "wo_sent (wo_put a k i w) = wo_sent w" "wo_env (wo_put a k i w) = wo_env w"
  "en_answer (wo_env (snd (draw_now w))) = en_answer (wo_env w)"
  "wo_sent (snd (draw_clocks w)) = wo_sent w" "en_answer (wo_env (snd (draw_clocks w))) = en_answer (wo_env w)"
  by (simp_all add: on_collector_def wo_put_def draw_now_def draw_clocks_def split: option.splits)

lemma attempt_timeout_frame [simp]:
  "wo_sent (snd (attempt_timeout ph ctx w)) = wo_sent w"
  "en_answer (wo_env (snd (attempt_timeout ph ctx w))) = en_answer (wo_env w)"
  by (simp_all add: attempt_timeout_def Let_def case_prod_beta split: option.splits)

lemma prepare_frame [simp]:
  "wo_sent (snd (snd (prepare a k ph t req w))) = wo_sent w"
  "en_answer (wo_env (snd (snd (prepare a k ph t req w)))) = en_answer (wo_env w)"
  by (simp_all add: prepare_def Let_def case_prod_beta)

lemma select_server_frame [simp]:
  "wo_sent (snd (select_server a k pri ex w)) = wo_sent w"
  "en_answer (wo_env (snd (select_server a k pri ex w))) = en_answer (wo_env w)"
  by (simp_all add: select_server_def Let_def case_prod_beta split: option.splits)

section \<open>Reports to the circuit breakers\<close>

lemma Writer_Header_on_Header [simp]: "Writer_Header (on_Header f w) = f (Writer_Header w)"
  by (induction w) auto

lemma Writer_Header_WriteHeader: "WriteHeader code w = Inr w1 \<Longrightarrow> Writer_Header w1 = Writer_Header w"
  by (induction w arbitrary: w1) (auto simp: conn_WriteHeader_def rw_WriteHeader_def split: sum.splits if_splits)

lemma Writer_Header_Write [simp]: "Writer_Header (fst (Write b w)) = Writer_Header w"
  by (induction w) (auto simp: conn_Write_def conn_implicit_def Let_def case_prod_beta)

lemma http_Error_backend:
  "http_Error msg code w = Inr w1 \<Longrightarrow> Header_Get (Writer_Header w1) ''X-Backend-URL'' = Header_Get (Writer_Header w) ''X-Backend-URL''"
  by (auto simp: http_Error_def dest!: Writer_Header_WriteHeader split: sum.splits)

lemma copy_response_backend:
  "copy_response name t n an w = Inr w1 \<Longrightarrow> Header_Get (Writer_Header w1) ''X-Backend-URL'' = t"
  by (auto simp: copy_response_def Let_def dest!: Writer_Header_WriteHeader split: sum.splits if_splits)

lemma copy_response_recorder:
  assumes "copy_response name t n an (CbW w \<lparr>cs_statusCode = 200, cs_written = False\<rparr>) = Inr x"
  shows "\<exists>w1 cs. x = CbW w1 cs \<and> cs_statusCode cs = an_status an"
  using assms by (auto simp: copy_response_def Let_def cs_mark_def case_prod_beta split: sum.splits if_splits)

lemma Router_Select_nonempty: "snd (Router_Select tf tc rnd pri excl r) = Inr u \<Longrightarrow> u \<noteq> []"
  by (auto simp: Router_Select_def Let_def case_prod_beta split: sum.splits option.splits if_splits)

lemma select_server_nonempty: "fst (select_server a k pri ex w) = Inr u \<Longrightarrow> u \<noteq> []"
  by (auto simp: select_server_def Let_def case_prod_beta split: option.splits dest: Router_Select_nonempty)

text \<open>The answer of the backend, if a request was sent and answered.\<close>

definition backend_answer :: "'l World \<Rightarrow> 'l World \<Rightarrow> Answer option" where
  "backend_answer w w1 =
     (if length (wo_sent w1) = length (wo_sent w) then None
      else case en_answer (wo_env w) 0 of Inl e \<Rightarrow> None | Inr an \<Rightarrow> Some an)"

lemma client_Do_answer:
  "(case fst (client_Do q w) of Inl e \<Rightarrow> None | Inr an \<Rightarrow> Some an) = backend_answer w (snd (client_Do q w))"
  by (auto simp: client_Do_def backend_answer_def Let_def case_prod_beta draw_answer_def split: sum.splits)

lemma proxyToBackend_reported:
  assumes "proxyToBackend a k ph t pri n rid cip w (CbW rw \<lparr>cs_statusCode = 200, cs_written = False\<rparr>) req = (w1, Inr (x, r1))"
    and "Header_Get (Writer_Header rw) ''X-Backend-URL'' = []"
  shows "\<exists>rw1 cs. x = CbW rw1 cs
     \<and> (case backend_answer w w1 of
          None \<Rightarrow> Header_Get (Writer_Header rw1) ''X-Backend-URL'' = []
        | Some an \<Rightarrow> Header_Get (Writer_Header rw1) ''X-Backend-URL'' = t \<and> cs_statusCode cs = an_status an)"
proof -
  obtain start q w4 where p: "prepare a k ph t req w = (start, q, w4)" by (metis surj_pair)
  have w4: "wo_sent w4 = wo_sent w" "en_answer (wo_env w4) = en_answer (wo_env w)"
    using prepare_frame [of a k ph t req w] by (simp_all add: p)
  have err: "\<exists>rw1 cs. x = CbW rw1 cs \<and> Header_Get (Writer_Header rw1) ''X-Backend-URL'' = []"
    if "http_Error msg code (CbW rw \<lparr>cs_statusCode = 200, cs_written = False\<rparr>) = Inr x" for msg code
    using http_Error_backend [OF that] same_writer_http_Error [OF that] assms(2) by auto
  show ?thesis
  proof (cases "en_url_ok (wo_env w4) (or_URL q)")
    case False
    then have "http_Error ''Failed to build proxy request'' 500 (CbW rw \<lparr>cs_statusCode = 200, cs_written = False\<rparr>) = Inr x"
      "backend_answer w w1 = None"
      using assms(1) by (auto simp: proxyToBackend_def p Let_def reply_Inr backend_answer_def w4)
    then show ?thesis using err by fastforce
  next
    case True
    obtain res w5 where d: "client_Do q w4 = (res, w5)" by (metis surj_pair)
    have "wo_sent w1 = wo_sent w5"
      using assms(1) True by (auto simp: proxyToBackend_def p d Let_def case_prod_beta reply_Inr and_do_Inr split: sum.splits)
    then have ba: "backend_answer w w1 = (case res of Inl e \<Rightarrow> None | Inr an \<Rightarrow> Some an)"
      using client_Do_answer [of q w4] by (simp add: d backend_answer_def w4)
    show ?thesis
    proof (cases res)
      case (Inl e)
      then have "http_Error ''Backend server error'' 502 (CbW rw \<lparr>cs_statusCode = 200, cs_written = False\<rparr>) = Inr x"
        using assms(1) True by (auto simp: proxyToBackend_def p d Let_def case_prod_beta reply_Inr)
      then show ?thesis using err ba Inl by fastforce
    next
      case (Inr an)
      then obtain name where c: "copy_response name t n an (CbW rw \<lparr>cs_statusCode = 200, cs_written = False\<rparr>) = Inr x"
        using assms(1) True by (auto simp: proxyToBackend_def p d Let_def case_prod_beta reply_Inr and_do_Inr)
      show ?thesis using copy_response_recorder [OF c] copy_response_backend [OF c] ba Inr by auto
    qed
  qed
qed

lemma proxy_reported:
  assumes "proxy_ServeHTTP a k ph w (CbW rw \<lparr>cs_statusCode = 200, cs_written = False\<rparr>) req = (w1, Inr (x, r1))"
    and "Header_Get (Writer_Header rw) ''X-Backend-URL'' = []"
  shows "\<exists>rw1 cs. x = CbW rw1 cs
     \<and> (case backend_answer w w1 of
          None \<Rightarrow> Header_Get (Writer_Header rw1) ''X-Backend-URL'' = []
        | Some an \<Rightarrow> chosen_server a k w req = Some (Header_Get (Writer_Header rw1) ''X-Backend-URL'')
            \<and> Header_Get (Writer_Header rw1) ''X-Backend-URL'' \<noteq> [] \<and> cs_statusCode cs = an_status an)"
proof -
  define pri where "pri = Classify (rq_Path req) (Header_Get (rq_Header req) ''X-Priority'')"
  obtain res w2 where sel: "select_server a k pri (ExcludedFromContext (rq_ctx req)) w = (res, w2)" by (metis surj_pair)
  have w2: "wo_sent w2 = wo_sent w" "en_answer (wo_env w2) = en_answer (wo_env w)"
    using select_server_frame [of a k pri "ExcludedFromContext (rq_ctx req)" w] by (simp_all add: sel)
  have ch: "chosen_server a k w req = (case res of Inl e \<Rightarrow> None | Inr t \<Rightarrow> Some t)"
    by (simp add: chosen_server_def pri_def [symmetric] sel)
  show ?thesis
  proof (cases res)
    case (Inl e)
    then obtain msg where h: "http_Error msg 502 (CbW rw \<lparr>cs_statusCode = 200, cs_written = False\<rparr>) = Inr x" "wo_sent w1 = wo_sent w2"
      using assms(1) by (cases e) (auto simp: proxy_ServeHTTP_def pri_def [symmetric] sel reply_Inr Let_def)
    then show ?thesis
      using http_Error_backend [OF h(1)] same_writer_http_Error [OF h(1)] assms(2) by (auto simp: backend_answer_def w2)
  next
    case (Inr t)
    then have b: "proxyToBackend a k ph t pri (AttemptFromContext (rq_ctx req)) (RequestIDFromContext (rq_ctx req))
        (if Header_Get (rq_Header req) ''X-Real-IP'' = [] then rq_RemoteAddr req else Header_Get (rq_Header req) ''X-Real-IP'') w2
        (CbW rw \<lparr>cs_statusCode = 200, cs_written = False\<rparr>) req = (w1, Inr (x, r1))"
      using assms(1) by (simp add: proxy_ServeHTTP_def pri_def [symmetric] sel Let_def)
    have "t \<noteq> []" using select_server_nonempty [of a k pri "ExcludedFromContext (rq_ctx req)" w t] sel Inr by simp
    moreover have "backend_answer w2 w1 = backend_answer w w1" by (simp add: backend_answer_def w2)
    ultimately show ?thesis
      using proxyToBackend_reported [OF b assms(2)] ch Inr by (auto split: option.splits)
  qed
qed

text \<open>
  What the circuit breaker middleware in front of the proxy handler reports: if the request was sent and answered, the chosen server with success meaning a status below 500, and nothing
  otherwise. In particular an error of the connection is not reported, although the proxy handler leaves this to the middleware.
\<close>

theorem breaker_hears_answers_only:
  assumes "NewCircuitBreaker (Some b) (proxy_ServeHTTP a k ph) w rw req = (w2, Inr (rw2, r2))"
    and "Header_Get (Writer_Header rw) ''X-Backend-URL'' = []"
  shows "let w1 = fst (proxy_ServeHTTP a k ph w (CbW rw \<lparr>cs_statusCode = 200, cs_written = False\<rparr>) req)
         in case backend_answer w w1 of
              None \<Rightarrow> w2 = w1
            | Some an \<Rightarrow> \<exists>t. chosen_server a k w req = Some t \<and> w2 = report_result b t (an_status an < 500) w1"
proof -
  obtain w1 x r1 where c: "proxy_ServeHTTP a k ph w (CbW rw \<lparr>cs_statusCode = 200, cs_written = False\<rparr>) req = (w1, Inr (x, r1))"
    using assms(1) by (auto simp: NewCircuitBreaker_def and_do_Inr)
  obtain rw1 cs where x: "x = CbW rw1 cs" and ba: "case backend_answer w w1 of
          None \<Rightarrow> Header_Get (Writer_Header rw1) ''X-Backend-URL'' = []
        | Some an \<Rightarrow> chosen_server a k w req = Some (Header_Get (Writer_Header rw1) ''X-Backend-URL'')
            \<and> Header_Get (Writer_Header rw1) ''X-Backend-URL'' \<noteq> [] \<and> cs_statusCode cs = an_status an"
    using proxy_reported [OF c assms(2)] by blast
  show ?thesis using assms(1) ba by (auto simp: NewCircuitBreaker_def c x Let_def split: option.splits)
qed

text \<open>
  C31. The circuit breaker middleware reports every answer of a backend. In front of the proxy handler, when the request was sent and answered, it records on the breaker of exactly the
  chosen server a success if the status is below 500 and a failure otherwise, and nothing else changes after the proxy handler; when no server could be chosen, it records nothing.
\<close>

theorem breaker_hears_answers:
  assumes "NewCircuitBreaker (Some b) (proxy_ServeHTTP a k ph) w rw req = (w2, Inr (rw2, r2))"
    and "Header_Get (Writer_Header rw) ''X-Backend-URL'' = []"
  shows "let w1 = fst (proxy_ServeHTTP a k ph w (CbW rw \<lparr>cs_statusCode = 200, cs_written = False\<rparr>) req)
         in (\<forall>an. backend_answer w w1 = Some an \<longrightarrow>
               (\<exists>t. chosen_server a k w req = Some t \<and> w2 = report_result b t (an_status an < 500) w1))
            \<and> (chosen_server a k w req = None \<longrightarrow> w2 = w1)"
  using breaker_hears_answers_only [OF assms] by (auto simp: Let_def split: option.splits)

section \<open>An example\<close>

text \<open>
  A service of two servers, one behind an open breaker, in a world where the clock stands still and every backend gives the same
  answer, for the witnesses.
\<close>

definition demo_env :: "Answer result \<Rightarrow> Env" where
  "demo_env answer =
     \<lparr>en_now = (\<lambda>n. 106), en_clocks = (\<lambda>n u. 105), en_stamp = (\<lambda>n. ''t''), en_rand = (\<lambda>n. 0), en_bytes = (\<lambda>n i. 0),
      en_order = (\<lambda>n. [''s'']), en_orders = (\<lambda>n k. [''a'', ''b'']), en_answer = (\<lambda>n. answer), en_waited = (\<lambda>n. True), en_url_ok = (\<lambda>s. True)\<rparr>"

definition demo_instance :: "Collector \<Rightarrow> Instance" where
  "demo_instance c =
     \<lparr>is_Name = ''s'', is_Config = empty_service [demo_server ''a'', demo_server ''b''], is_Monitor = None,
      is_Router = demo_router\<lparr>ro_metrics := c\<rparr>, is_Handler = proxy_New 3 5\<rparr>"

definition demo_world :: "Answer result \<Rightarrow> Collector \<Rightarrow> OutRequest list \<Rightarrow> AccessLog list \<Rightarrow> unit World" where
  "demo_world answer c qs ls =
     \<lparr>wo_env = demo_env answer, wo_mgrs = [\<lparr>mg_instances = [''s'' \<mapsto> demo_instance c], mg_cfg = demo_config\<rparr>],
      wo_hub = \<lparr>hu_provider = 0, hu_clients = [], hu_htmlPath = [], hu_history = [], hu_wire = []\<rparr>,
      wo_limiters = [], wo_files = Map.empty, wo_disk = Map.empty, wo_sent = qs, wo_stdout = ls, wo_fileLog = None\<rparr>"

definition demo_request :: Request where
  "demo_request =
     \<lparr>rq_Method = ''GET'', rq_Path = ''/x'', rq_RequestURI = ''/x'', rq_Host = ''h'', rq_RemoteAddr = ''1.2.3.4:5'', rq_TLS = False,
      rq_Header = Map.empty, rq_Body = NoBody, rq_ctx = background\<rparr>"

definition demo_answer :: Answer where
  "demo_answer = \<lparr>an_status = 200, an_header = Map.empty, an_body = ''ok''\<rparr>"

lemma demo_env_simps [simp]:
  "en_now (demo_env x) = (\<lambda>n. 106)" "en_answer (demo_env x) = (\<lambda>n. x)" "en_url_ok (demo_env x) = (\<lambda>s. True)"
  "demo_env x\<lparr>en_now := \<lambda>n. 106\<rparr> = demo_env x" "demo_env x\<lparr>en_clocks := \<lambda>n u. 105\<rparr> = demo_env x"
  "demo_env x\<lparr>en_rand := \<lambda>n. 0\<rparr> = demo_env x" "demo_env x\<lparr>en_answer := \<lambda>n. x\<rparr> = demo_env x"
  "en_rand (demo_env x) = (\<lambda>n. 0)" "en_clocks (demo_env x) = (\<lambda>n u. 105)"
  by (simp_all add: demo_env_def)

lemma demo_world_simps [simp]:
  "draw_now (demo_world x c qs ls) = (106, demo_world x c qs ls)"
  "draw_clocks (demo_world x c qs ls) = (\<lambda>u. 105, demo_world x c qs ls)"
  "draw_answer (demo_world x c qs ls) = (x, demo_world x c qs ls)"
  "wo_instance 0 ''s'' (demo_world x c qs ls) = Some (demo_instance c)"
  "wo_env (demo_world x c qs ls) = demo_env x" "wo_sent (demo_world x c qs ls) = qs"
  "demo_world x c qs ls\<lparr>wo_sent := qs'\<rparr> = demo_world x c qs' ls" "demo_world x c qs ls\<lparr>wo_env := demo_env x\<rparr> = demo_world x c qs ls"
  by (simp_all add: demo_world_def draw_now_def draw_clocks_def draw_answer_def draw_def wo_instance_def)

lemma demo_log [simp]:
  "log_Info e (demo_world x c qs ls) = demo_world x c qs (ls @ [(if al_Level e = [] then e\<lparr>al_Level := ''INFO''\<rparr> else e)\<lparr>al_Time := ''t''\<rparr>])"
  "log_Error e (demo_world x c qs ls) = demo_world x c qs (ls @ [e\<lparr>al_Time := ''t'', al_Level := ''ERROR''\<rparr>])"
  by (simp_all add: demo_world_def log_Info_def log_Error_def log_write_def draw_stamp_def draw_def demo_env_def Let_def)

lemma demo_collector [simp]:
  "is_Collector (demo_instance c) = c" "set_collector c1 (demo_instance c) = demo_instance c1"
  by (simp_all add: demo_instance_def set_collector_def set_router_def)

lemma demo_put [simp]: "wo_put 0 ''s'' (demo_instance c1) (demo_world x c qs ls) = demo_world x c1 qs ls"
  by (simp add: wo_put_def demo_world_def set_instance_def)

lemma demo_on_collector [simp]: "on_collector 0 ''s'' f (demo_world x c qs ls) = demo_world x (f c) qs ls"
  by (simp add: on_collector_def)

abbreviation demo_metrics :: Collector where
  "demo_metrics \<equiv> ro_metrics demo_router"

lemma demo_select [simp]: "select_server 0 ''s'' ''LOW'' [] (demo_world x demo_metrics qs ls) = (Inr ''b'', demo_world x demo_metrics qs ls)"
proof -
  have r: "is_Router (demo_instance demo_metrics) = demo_router" "set_router demo_router (demo_instance demo_metrics) = demo_instance demo_metrics"
    by (simp_all add: demo_instance_def set_router_def)
  show ?thesis by (simp add: select_server_def Let_def r demo_router_select)
qed

lemma demo_request_simps [simp]:
  "Classify (rq_Path demo_request) (Header_Get (rq_Header demo_request) ''X-Priority'') = ''LOW''"
  "rq_ctx demo_request = background" "rq_Body demo_request = NoBody"
  by (simp_all add: demo_request_def Classify_def Header_Get_def highPriorityPaths_def HasPrefix_def)

lemma demo_ctx: "WithContext ctx demo_request\<lparr>rq_Body := NoBody\<rparr> = WithContext ctx demo_request"
  by (simp add: WithContext_def demo_request_def)

lemmas demo_proxy_defs =
  proxy_ServeHTTP_def ExcludedFromContext_def demo_ctx proxyToBackend_def prepare_def Let_def attempt_timeout_def client_Do_def
  WithTimeout_def proxy_New_def seconds_def i64_def body_Close_def

lemma demo_proxy_answer:
  assumes "cx_excluded ctx = None" and "cx_deadline ctx = None"
    and "\<And>name n. \<exists>x. copy_response name ''b'' n an rw = Inr x \<and> P x"
  shows "\<exists>c1 q ls x. P x \<and> proxy_ServeHTTP 0 ''s'' (proxy_New 3 5) (demo_world (Inr an) demo_metrics [] []) rw (WithContext ctx demo_request)
      = (demo_world (Inr an) c1 [q] ls, Inr (x, WithContext ctx demo_request))"
proof -
  have n: "GetName c t = the (Some (GetName c t))" for c t by simp
  obtain x where x: "copy_response (GetName (RecordPriority ''b'' ''LOW'' (RecordEnd ''b'' (f64_of_int (Milliseconds (time_Sub 106 106)))
      (an_status an < 500) (RecordStart ''b'' demo_metrics))) ''b'') ''b'' (AttemptFromContext ctx) an rw = Inr x" "P x"
    using assms(3) by blast
  then show ?thesis using assms(1,2) by (auto simp: demo_proxy_defs reply_def)
qed

lemma demo_proxy_error:
  assumes "cx_excluded ctx = None" and "cx_deadline ctx = None"
  shows "\<exists>q ls. proxy_ServeHTTP 0 ''s'' (proxy_New 3 5) (demo_world (Inl e) demo_metrics [] []) rw (WithContext ctx demo_request)
      = reply (http_Error ''Backend server error'' 502 rw)
          (demo_world (Inl e) (RecordEnd ''b'' (f64_of_int (Milliseconds (time_Sub 106 106))) False (RecordStart ''b'' demo_metrics)) [q] ls)
          (WithContext ctx demo_request)"
  using assms by (simp add: demo_proxy_defs) blast

lemma demo_stats: "co_servers demo_metrics = [''a'' \<mapsto> new_stats ''a'' ''a'' 1, ''b'' \<mapsto> new_stats ''b'' ''b'' 1]"
  by (simp add: demo_router_def NewRouter_def New_def)

lemma demo_chosen: "chosen_server 0 ''s'' (demo_world x demo_metrics qs ls) demo_request = Some ''b''"
  by (simp add: chosen_server_def ExcludedFromContext_def background_def)

theorem proxy_balances_metrics_witness:
  "\<exists>inst1 s1. wo_instance 0 ''s'' (fst (proxy_ServeHTTP 0 ''s'' (proxy_New 3 5) (demo_world (Inl (GoError ''refused'')) demo_metrics [] [])
        (ConnW (new_Conn False)) demo_request)) = Some inst1
     \<and> co_servers (is_Collector inst1) ''b'' = Some s1 \<and> ss_ActiveConnections s1 = 0 \<and> ss_TotalRequests s1 = 1"
proof -
  let ?w = "demo_world (Inl (GoError ''refused'')) demo_metrics [] []"
  have b: "\<forall>u s. co_servers (is_Collector (demo_instance demo_metrics)) u = Some s \<longrightarrow>
          0 \<le> ss_ActiveConnections s \<and> ss_ActiveConnections s < 2 ^ 62 \<and> 0 \<le> ss_SuccessCount s \<and> 0 \<le> ss_FailureCount s
          \<and> ss_TotalRequests s = ss_SuccessCount s + ss_FailureCount s \<and> ss_TotalRequests s < 2 ^ 62"
    unfolding demo_collector demo_stats by (auto simp: new_stats_def split: if_splits)
  have s: "co_servers (is_Collector (demo_instance demo_metrics)) ''b'' = Some (new_stats ''b'' ''b'' 1)"
    unfolding demo_collector demo_stats by simp
  obtain inst1 where "wo_instance 0 ''s'' (fst (proxy_ServeHTTP 0 ''s'' (proxy_New 3 5) ?w (ConnW (new_Conn False)) demo_request)) = Some inst1"
    and "\<forall>u s. co_servers (is_Collector (demo_instance demo_metrics)) u = Some s \<longrightarrow>
          (if chosen_server 0 ''s'' ?w demo_request = Some u
           then \<exists>s1. co_servers (is_Collector inst1) u = Some s1
             \<and> ss_ActiveConnections s1 = ss_ActiveConnections s \<and> ss_TotalRequests s1 = ss_TotalRequests s + 1
             \<and> ss_TotalRequests s1 = ss_SuccessCount s1 + ss_FailureCount s1
             \<and> ss_IsHealthy s1 = ss_IsHealthy s \<and> ss_CircuitState s1 = ss_CircuitState s
           else co_servers (is_Collector inst1) u = Some s)"
    using proxy_balances_metrics [OF demo_world_simps(4) b, of "proxy_New 3 5" "Inl (GoError ''refused'')" "[]" "[]"
        "ConnW (new_Conn False)" demo_request] by blast
  with s show ?thesis by (force simp: demo_chosen new_stats_def)
qed

lemma background_ctx: "cx_excluded background = None" "cx_deadline background = None"
  by (simp_all add: background_def)

lemma demo_request_ctx: "WithContext background demo_request = demo_request"
  by (simp add: WithContext_def demo_request_def)

theorem breaker_hears_answers_witness:
  "\<exists>w1 w2 rw2 r2. NewCircuitBreaker (Some 0) (proxy_ServeHTTP 0 ''s'' (proxy_New 3 5)) (demo_world (Inr demo_answer) demo_metrics [] [])
        (ConnW (new_Conn False)) demo_request = (w2, Inr (rw2, r2)) \<and> w2 = report_result 0 ''b'' True w1"
proof -
  let ?w = "demo_world (Inr demo_answer) demo_metrics [] []"
  let ?rec = "CbW (ConnW (new_Conn False)) \<lparr>cs_statusCode = 200, cs_written = False\<rparr>"
  have "\<exists>x. copy_response name ''b'' n demo_answer ?rec = Inr x \<and> True" for name n
    by (simp add: copy_response_def demo_answer_def conn_WriteHeader_def new_Conn_def Let_def)
  from demo_proxy_answer [OF background_ctx this] obtain c1 q ls x where
    p: "proxy_ServeHTTP 0 ''s'' (proxy_New 3 5) ?w ?rec demo_request = (demo_world (Inr demo_answer) c1 [q] ls, Inr (x, demo_request))"
    unfolding demo_request_ctx by blast
  let ?w1 = "demo_world (Inr demo_answer) c1 [q] ls"
  have h: "Header_Get (Writer_Header (ConnW (new_Conn False))) ''X-Backend-URL'' = []" by (simp add: new_Conn_def Header_Get_def)
  obtain w2 rw2 r2 where r: "NewCircuitBreaker (Some 0) (proxy_ServeHTTP 0 ''s'' (proxy_New 3 5)) ?w (ConnW (new_Conn False)) demo_request
      = (w2, Inr (rw2, r2))"
    by (cases x; cases "Header_Get (Writer_Header x) ''X-Backend-URL'' = []") (auto simp: NewCircuitBreaker_def p Let_def)
  have st: "an_status demo_answer = 200" by (simp add: demo_answer_def)
  have "backend_answer ?w ?w1 = Some demo_answer" by (simp add: backend_answer_def)
  then have "w2 = report_result 0 ''b'' True ?w1"
    using breaker_hears_answers [OF r h] st by (simp add: Let_def p demo_chosen)
  with r show ?thesis by blast
qed

end
