(* ===== verification/Retrying.thy ===== *)
theory Retrying
  imports Exchange
begin

text \<open>
  What the retry middleware achieves in front of the proxy handler: which answer the client gets, how many requests are sent, and until when.
\<close>

section \<open>Retries\<close>

definition failed :: "Answer result \<Rightarrow> bool" where
  "failed x = (case x of Inl e \<Rightarrow> True | Inr an \<Rightarrow> an_status an \<ge> 500)"

text \<open>What one attempt consumes and what status it leaves in the buffer.\<close>

lemma http_Error_buffer:
  "http_Error msg code (RetryW rw b) = Inr x \<Longrightarrow> \<not> rw_committed b \<Longrightarrow> \<exists>b1. x = RetryW rw b1 \<and> rw_statusCode b1 = code"
  by (auto simp: http_Error_def rw_WriteHeader_def)

lemma copy_response_buffer:
  "copy_response name t n an (RetryW rw b) = Inr x \<Longrightarrow> \<not> rw_committed b
     \<Longrightarrow> \<exists>b1. x = RetryW rw b1 \<and> rw_statusCode b1 = an_status an \<and> rw_body b1 = rw_body b @ an_body an"
  by (auto simp: copy_response_def rw_WriteHeader_def Let_def split: if_splits)

text \<open>An exchange sends at most one request; if it sends one, it takes the next answer and leaves it in the buffer.\<close>

definition answered :: "Answer result \<Rightarrow> retryResponseWriter \<Rightarrow> bool" where
  "answered x b = (case x of Inl e \<Rightarrow> rw_statusCode b \<ge> 500
     | Inr an \<Rightarrow> rw_statusCode b = an_status an \<and> rw_body b = an_body an)"

definition exchange :: "'l World \<Rightarrow> 'l World \<Rightarrow> retryResponseWriter \<Rightarrow> bool" where
  "exchange w w1 b \<longleftrightarrow>
     (wo_sent w1 = wo_sent w \<and> en_answer (wo_env w1) = en_answer (wo_env w) \<and> rw_statusCode b \<ge> 500)
     \<or> ((\<exists>q. wo_sent w1 = wo_sent w @ [q]) \<and> en_answer (wo_env w1) = (\<lambda>n. en_answer (wo_env w) (Suc n))
        \<and> answered (en_answer (wo_env w) 0) b)"

lemma client_Do_exchange:
  assumes "\<And>e. fst (client_Do q w) = Inl e \<Longrightarrow> 500 \<le> rw_statusCode b"
    and "\<And>an. fst (client_Do q w) = Inr an \<Longrightarrow> rw_statusCode b = an_status an \<and> rw_body b = an_body an"
  shows "exchange w (snd (client_Do q w)) b"
  using assms
  by (auto simp: client_Do_def exchange_def answered_def Let_def case_prod_beta draw_answer_def draw_def
      split: if_splits sum.splits)

lemma exchange_cong:
  "exchange w w1 b \<Longrightarrow> wo_sent w' = wo_sent w \<Longrightarrow> en_answer (wo_env w') = en_answer (wo_env w)
     \<Longrightarrow> wo_sent w1' = wo_sent w1 \<Longrightarrow> en_answer (wo_env w1') = en_answer (wo_env w1) \<Longrightarrow> exchange w' w1' b"
  by (simp add: exchange_def)

lemma proxyToBackend_exchange:
  assumes "proxyToBackend a k ph t pri n rid cip w (RetryW rw new_retryWriter) req = (w1, Inr (x, r1))"
  shows "\<exists>b. x = RetryW rw b \<and> exchange w w1 b"
proof -
  obtain start q w4 where p: "prepare a k ph t req w = (start, q, w4)" by (metis surj_pair)
  have w4: "wo_sent w4 = wo_sent w" "en_answer (wo_env w4) = en_answer (wo_env w)"
    using prepare_frame [of a k ph t req w] by (simp_all add: p)
  show ?thesis
  proof (cases "en_url_ok (wo_env w4) (or_URL q)")
    case False
    then show ?thesis using assms
      by (auto simp: proxyToBackend_def p Let_def reply_Inr exchange_def w4 dest!: http_Error_buffer)
  next
    case True
    obtain res w5 where d: "client_Do q w4 = (res, w5)" by (metis surj_pair)
    show ?thesis
    proof (cases res)
      case (Inl e)
      then obtain b where b: "x = RetryW rw b" "rw_statusCode b = 502"
        using assms True by (auto simp: proxyToBackend_def p d Let_def case_prod_beta reply_Inr and_do_Inr dest!: http_Error_buffer)
      have "exchange w4 w5 b" using client_Do_exchange [of q w4 b] d Inl b by simp
      then show ?thesis using assms True Inl b
        by (auto simp: proxyToBackend_def p d Let_def case_prod_beta reply_Inr and_do_Inr w4 elim: exchange_cong)
    next
      case (Inr an)
      then obtain b where b: "x = RetryW rw b" "rw_statusCode b = an_status an" "rw_body b = an_body an"
        using assms True
        by (auto simp: proxyToBackend_def p d Let_def case_prod_beta reply_Inr and_do_Inr new_retryWriter_def dest!: copy_response_buffer)
      have "exchange w4 w5 b" using client_Do_exchange [of q w4 b] d Inr b by simp
      then show ?thesis using assms True Inr b
        by (auto simp: proxyToBackend_def p d Let_def case_prod_beta reply_Inr and_do_Inr w4 elim: exchange_cong)
    qed
  qed
qed

lemma proxy_exchange:
  assumes "proxy_ServeHTTP a k ph w (RetryW rw new_retryWriter) req = (w1, Inr (x, r1))"
  shows "\<exists>b. x = RetryW rw b \<and> exchange w w1 b"
  using assms
  by (auto simp: proxy_ServeHTTP_def Let_def case_prod_beta reply_Inr split: sum.splits fault.splits
      dest!: http_Error_buffer proxyToBackend_exchange simp: exchange_def)


lemma retry_pause_frame [simp]:
  "wo_sent (snd (retry_pause i ms r w)) = wo_sent w" "en_answer (wo_env (snd (retry_pause i ms r w))) = en_answer (wo_env w)"
  by (simp_all add: retry_pause_def Let_def case_prod_beta draw_rand_def draw_waited_def)

lemma retry_again_frame [simp]:
  "wo_sent (retry_again r i status w) = wo_sent w" "en_answer (wo_env (retry_again r i status w)) = en_answer (wo_env w)"
  by (simp_all add: retry_again_def)

lemma resume_ctx [simp]: "rq_ctx (resume r r1) = rq_ctx r"
  by (simp add: resume_def)

lemma commit_response_cong: "rq_ctx r1 = rq_ctx r \<Longrightarrow> commit_response r1 = commit_response r"
  by (simp add: commit_response_def fun_eq_iff)

text \<open>Among the first \<open>m\<close> answers only the last is none of a failed attempt, and then it is what the client gets.\<close>

definition success_kept :: "Request \<Rightarrow> Writer \<Rightarrow> Writer \<Rightarrow> (nat \<Rightarrow> Answer result) \<Rightarrow> nat \<Rightarrow> bool" where
  "success_kept r rw rw1 answers m \<longleftrightarrow> (\<forall>j < m. \<not> failed (answers j) \<longrightarrow>
     j = m - 1 \<and> (\<exists>b. answered (answers j) b \<and> \<not> rw_committed b \<and> commit_response r b rw = Inr rw1))"

lemma success_kept_Suc:
  assumes "success_kept r rw rw1 (\<lambda>n. answers (Suc n)) m" and "failed (answers 0)"
  shows "success_kept r rw rw1 answers (Suc m)"
  unfolding success_kept_def
proof (intro allI impI)
  fix j assume "j < Suc m" "\<not> failed (answers j)"
  then show "j = Suc m - 1 \<and> (\<exists>b. answered (answers j) b \<and> \<not> rw_committed b \<and> commit_response r b rw = Inr rw1)"
    using assms by (cases j) (auto simp: success_kept_def)
qed

lemma retry_exchanges:
  assumes "retry_loop n i N ms (proxy_ServeHTTP a k ph) w rw r = (w1, Inr (rw1, r1))" and "i + n = N + 1"
  shows "\<exists>m \<le> n. length (wo_sent w1) = length (wo_sent w) + m \<and> success_kept r rw rw1 (en_answer (wo_env w)) m"
  using assms
proof (induction n arbitrary: i w r)
  case (Suc n)
  let ?w = "snd (retry_pause i ms r w)" and ?q = "WithContext (rq_ctx r\<lparr>cx_attempt := Some (int i)\<rparr>) r"
  show ?case
  proof (cases "fst (retry_pause i ms r w)")
    case False
    then have "w1 = ?w" using Suc.prems by (auto simp: proxy.retry_loop_turn Let_def case_prod_beta reply_Inr simp del: retry_loop.simps)
    then show ?thesis by (intro exI [of _ 0]) (simp add: success_kept_def)
  next
    case True
    then obtain w2 x q where c: "proxy_ServeHTTP a k ph ?w (RetryW rw new_retryWriter) ?q = (w2, Inr (x, q))"
      and l: "(if \<not> isRetryable (rw_statusCode (buffer_of x)) \<or> i = N
              then reply (commit_response r (buffer_of x) rw) w2 (resume r q)
              else retry_loop n (i + 1) N ms (proxy_ServeHTTP a k ph) (retry_again r i (rw_statusCode (buffer_of x)) w2) rw (resume r q)) = (w1, Inr (rw1, r1))"
      using Suc.prems(1)
      by (auto simp: proxy.retry_loop_turn Let_def case_prod_beta and_do_Inr simp del: retry_loop.simps cong: if_cong)
    obtain b where b: "x = RetryW rw b" "exchange ?w w2 b" using proxy_exchange [OF c] by blast
    have nc: "\<not> rw_committed b" using proxy.buffered [OF c] b(1) by simp
    consider (last) "\<not> isRetryable (rw_statusCode b) \<or> i = N" | (again) "isRetryable (rw_statusCode b)" "i \<noteq> N" by blast
    then show ?thesis
    proof cases
      case last
      then have "w1 = w2" "commit_response r b rw = Inr rw1" using l b(1) by (auto simp: reply_Inr)
      then show ?thesis using b(2) nc
        by (auto simp: exchange_def success_kept_def intro!: exI [of _ "length (wo_sent w2) - length (wo_sent w)"])
    next
      case again
      then have l': "retry_loop n (i + 1) N ms (proxy_ServeHTTP a k ph) (retry_again r i (rw_statusCode b) w2) rw (resume r q) = (w1, Inr (rw1, r1))" using l b(1) by simp
      have "(i + 1) + n = N + 1" using Suc.prems(2) by simp
      from Suc.IH [OF l' this] obtain m where m: "m \<le> n" "length (wo_sent w1) = length (wo_sent w2) + m"
        "success_kept r rw rw1 (en_answer (wo_env w2)) m"
        by (auto simp: success_kept_def commit_response_cong [of "resume r q" r])
      from b(2) show ?thesis unfolding exchange_def
      proof
        assume "wo_sent w2 = wo_sent ?w \<and> en_answer (wo_env w2) = en_answer (wo_env ?w) \<and> rw_statusCode b \<ge> 500"
        then show ?thesis using m by (intro exI [of _ m]) auto
      next
        assume e: "(\<exists>q. wo_sent w2 = wo_sent ?w @ [q]) \<and> en_answer (wo_env w2) = (\<lambda>n. en_answer (wo_env ?w) (Suc n))
          \<and> answered (en_answer (wo_env ?w) 0) b"
        then have f: "failed (en_answer (wo_env w) 0)"
          using again(1) by (auto simp: answered_def failed_def isRetryable_def split: sum.splits)
        have "success_kept r rw rw1 (en_answer (wo_env w)) (Suc m)" using success_kept_Suc m(3) e f by simp
        then show ?thesis using m e by (intro exI [of _ "Suc m"]) auto
      qed
    qed
  qed
qed (simp add: success_kept_def)


lemma commit_response_conn:
  assumes "commit_response r b (ConnW c) = Inr x" and "\<not> rw_committed b" and "cn_status c = None"
    and "200 \<le> rw_statusCode b" and "rw_statusCode b \<le> 999"
  shows "\<exists>c1. x = ConnW c1 \<and> cn_status c1 = Some (rw_statusCode b)
     \<and> cn_body c1 = cn_body c @ (if bodyAllowedForStatus (rw_statusCode b) \<and> \<not> cn_head c then rw_body b else [])"
  using assms
  by (auto simp: commit_response_def flush_def conn_WriteHeader_def conn_Write_def conn_implicit_def Let_def split: if_splits)

text \<open>
  C7. Retrying never discards a success and never sends too much. Behind the retry middleware the proxy handler sends at most as many requests as
  attempts are allowed. If one of the backends' answers is not a failure (a transport error or a status of 500 and above), it was the last one asked for, and its
  status and body are what the client receives; so every answer that was not delivered is a failure.
\<close>

theorem retry_never_discards_success:
  assumes "NewRetry n ms (proxy_ServeHTTP a k ph) w (ConnW c) r = (w1, Inr (rw1, r1))" and "cn_status c = None"
  shows "\<exists>m \<le> nat (if n \<le> 0 then 3 else n). length (wo_sent w1) = length (wo_sent w) + m
     \<and> (\<forall>j < m. \<forall>an. en_answer (wo_env w) j = Inr an \<longrightarrow> an_status an < 500 \<longrightarrow>
          j = m - 1 \<and> (200 \<le> an_status an \<longrightarrow> (\<exists>c1. rw1 = ConnW c1 \<and> cn_status c1 = Some (an_status an)
            \<and> cn_body c1 = cn_body c @ (if bodyAllowedForStatus (an_status an) \<and> \<not> cn_head c then an_body an else []))))"
proof -
  let ?n = "nat (if n \<le> 0 then 3 else n)"
  from assms(1) have l: "retry_loop ?n 1 ?n (if ms \<le> 0 then 100 else ms) (proxy_ServeHTTP a k ph) w (ConnW c) r = (w1, Inr (rw1, r1))"
    by (simp only: NewRetry_def Let_def)
  obtain m where m: "m \<le> ?n" "length (wo_sent w1) = length (wo_sent w) + m"
    "\<forall>j < m. \<not> failed (en_answer (wo_env w) j) \<longrightarrow>
          j = m - 1 \<and> (\<exists>b. answered (en_answer (wo_env w) j) b \<and> \<not> rw_committed b \<and> commit_response r b (ConnW c) = Inr rw1)"
    using retry_exchanges [OF l] unfolding success_kept_def by auto
  have "j = m - 1 \<and> (200 \<le> an_status an \<longrightarrow> (\<exists>c1. rw1 = ConnW c1 \<and> cn_status c1 = Some (an_status an)
            \<and> cn_body c1 = cn_body c @ (if bodyAllowedForStatus (an_status an) \<and> \<not> cn_head c then an_body an else [])))"
    if "j < m" "en_answer (wo_env w) j = Inr an" "an_status an < 500" for j an
  proof -
    note jm = that(1)
    have "\<not> failed (en_answer (wo_env w) j)" using that by (simp add: failed_def)
    then obtain b where j: "j = m - 1" and a: "answered (en_answer (wo_env w) j) b"
      and c: "\<not> rw_committed b" "commit_response r b (ConnW c) = Inr rw1" using m(3) jm by blast
    have b: "rw_statusCode b = an_status an" "rw_body b = an_body an" using a that(2) by (simp_all add: answered_def)
    show ?thesis using j commit_response_conn [OF c(2,1) assms(2)] b that(3) by auto
  qed
  then show ?thesis using m by blast
qed

section \<open>The exclusion list\<close>

text \<open>
  The list of failed servers has no effect. A request that comes to the retry middleware without an exclusion list is served exactly as by a middleware that deletes
  the list before every attempt: the servers that failed are collected, but no later attempt, and so no selection, ever sees them.
\<close>

theorem retry_exclusion_has_no_effect:
  assumes "cx_excluded (rq_ctx r) = None"
  shows "NewRetry n ms next w rw r
     = NewRetry n ms (\<lambda>w rw q. next w rw (WithContext (rq_ctx q\<lparr>cx_excluded := None\<rparr>) q)) w rw r"
proof -
  let ?next = "\<lambda>w rw q. next w rw (WithContext (rq_ctx q\<lparr>cx_excluded := None\<rparr>) q)"
  have "retry_loop j i N d next w rw r = retry_loop j i N d ?next w rw r" if "cx_excluded (rq_ctx r) = None" for j i N d w rw r
    using that
  proof (induction j arbitrary: i w rw r)
    case (Suc j)
    have "ctx\<lparr>cx_attempt := x, cx_excluded := None\<rparr> = ctx\<lparr>cx_attempt := x\<rparr>" if "cx_excluded ctx = None" for ctx x
      using that by (cases ctx) simp
    note c = this [OF Suc.prems]
    have q: "WithContext (rq_ctx r\<lparr>cx_attempt := x, cx_excluded := None\<rparr>) (WithContext (rq_ctx r\<lparr>cx_attempt := x\<rparr>) r)
        = WithContext (rq_ctx r\<lparr>cx_attempt := x\<rparr>) r" for x
      by (simp add: WithContext_def c)
    show ?case unfolding retry_loop.simps
      using Suc by (auto intro!: arg_cong2 [where f = and_do] simp: q Let_def case_prod_beta fun_eq_iff split: Writer.splits)
  qed simp
  then show ?thesis using assms by (simp add: NewRetry_def del: retry_loop.simps)
qed

section \<open>Deadlines\<close>

text \<open>A handler that sends nothing that outlives the deadline of its request.\<close>

definition sends_until :: "time \<Rightarrow> 'l World \<Rightarrow> 'l World \<Rightarrow> bool" where
  "sends_until d w w1 \<longleftrightarrow> (\<exists>qs. wo_sent w1 = wo_sent w @ qs \<and> (\<forall>q \<in> set qs. or_deadline q \<le> d))"

lemma sends_until_same: "wo_sent w1 = wo_sent w \<Longrightarrow> sends_until d w w1"
  by (simp add: sends_until_def)

lemma sends_until_trans: "sends_until d w w1 \<Longrightarrow> sends_until d w1 w2 \<Longrightarrow> sends_until d w w2"
  unfolding sends_until_def by (metis Un_iff append_assoc set_append)

lemma sends_until_cong: "wo_sent w' = wo_sent w \<Longrightarrow> wo_sent w1' = wo_sent w1 \<Longrightarrow> sends_until d w' w1' = sends_until d w w1"
  by (simp add: sends_until_def)

lemma sends_until_mono: "sends_until d w w1 \<Longrightarrow> d \<le> d' \<Longrightarrow> sends_until d' w w1"
  by (force simp: sends_until_def)

locale timely_handler = http_handler +
  assumes keeps_deadline: "cx_deadline (rq_ctx r) = Some d \<Longrightarrow> sends_until d w (fst (serve w rw r))"
begin

lemma retry_timely:
  "cx_deadline (rq_ctx r) = Some d \<Longrightarrow> sends_until d w (fst (retry_loop n i N ms serve w rw r))"
proof (induction n arbitrary: i w r)
  case (Suc n)
  let ?w = "snd (retry_pause i ms r w)" and ?q = "WithContext (rq_ctx r\<lparr>cx_attempt := Some (int i)\<rparr>) r"
  show ?case
  proof (cases "fst (retry_pause i ms r w)")
    case False
    then show ?thesis by (simp add: retry_loop_turn Let_def case_prod_beta sends_until_same del: retry_loop.simps)
  next
    case True
    obtain w2 y where c: "serve ?w (RetryW rw new_retryWriter) ?q = (w2, y)" by (metis surj_pair)
    have "sends_until d ?w w2" using keeps_deadline [of ?q d ?w "RetryW rw new_retryWriter"] Suc.prems c by (simp add: WithContext_def)
    then have s: "sends_until d w w2" by (simp add: sends_until_def)
    have "sends_until d w2 (fst (retry_loop n (i + 1) N ms serve (retry_again r i st w2) rw (resume r r1)))" for r1 st
      using Suc.IH [where r = "resume r r1" and i = "i + 1" and w = "retry_again r i st w2"] Suc.prems
      by (simp add: sends_until_cong [of "retry_again r i st w2" w2, OF _ refl])
    then show ?thesis
      using True s by (cases y) (auto simp: retry_loop_turn Let_def case_prod_beta c simp del: retry_loop.simps intro: sends_until_trans)
  qed
qed (simp add: sends_until_same)

end

lemma client_Do_until: "sends_until (or_deadline q) w (snd (client_Do q w))"
  by (auto simp: client_Do_def Let_def case_prod_beta sends_until_def draw_answer_def)

lemma prepare_deadline:
  "cx_deadline (rq_ctx req) = Some d \<Longrightarrow> or_deadline (fst (snd (prepare a k ph t req w))) \<le> d"
  by (simp add: prepare_def Let_def case_prod_beta WithTimeout_def)

lemma proxyToBackend_until:
  assumes "cx_deadline (rq_ctx req) = Some d"
  shows "sends_until d w (fst (proxyToBackend a k ph t pri n rid cip w rw req))"
proof -
  obtain start q w1 where p: "prepare a k ph t req w = (start, q, w1)" by (metis surj_pair)
  have w1: "wo_sent w1 = wo_sent w" using prepare_frame(1) [of a k ph t req w] by (simp add: p)
  have "or_deadline q \<le> d" using prepare_deadline [OF assms, of a k ph t w] by (simp add: p)
  then have c: "sends_until d w (snd (client_Do q w1))"
    using sends_until_mono [OF client_Do_until [of q w1]] by (simp add: sends_until_def w1)
  show ?thesis
  proof (cases "en_url_ok (wo_env w1) (or_URL q)")
    case True
    obtain res w2 where r: "client_Do q w1 = (res, w2)" by (metis surj_pair)
    then show ?thesis using True c
      by (cases res) (simp_all add: proxyToBackend_def p Let_def case_prod_beta sends_until_def fst_and_do_reply split: sum.splits)
  qed (simp add: proxyToBackend_def p sends_until_same w1 Let_def)
qed

interpretation proxy: timely_handler "proxy_ServeHTTP a k ph" for a k ph
proof
  fix r :: Request and d rw and w :: "'a World"
  assume d: "cx_deadline (rq_ctx r) = Some d"
  obtain res w1 where s: "select_server a k (Classify (rq_Path r) (Header_Get (rq_Header r) ''X-Priority''))
      (ExcludedFromContext (rq_ctx r)) w = (res, w1)" by (metis surj_pair)
  have w1: "wo_sent w1 = wo_sent w"
    using select_server_frame(1) [of a k "Classify (rq_Path r) (Header_Get (rq_Header r) ''X-Priority'')" "ExcludedFromContext (rq_ctx r)" w]
    by (simp add: s)
  show "sends_until d w (fst (proxy_ServeHTTP a k ph w rw r))"
  proof (cases res)
    case (Inl e)
    then show ?thesis by (cases e) (simp_all add: proxy_ServeHTTP_def Let_def s sends_until_same w1)
  next
    case (Inr t)
    then have "sends_until d w1 (fst (proxy_ServeHTTP a k ph w rw r))"
      by (simp add: proxy_ServeHTTP_def Let_def s proxyToBackend_until [OF d])
    then show ?thesis by (simp add: sends_until_def w1)
  qed
qed

text \<open>
  C32. The timeout of a request holds over all its attempts together. When a request passes the timeout middleware, the retry middleware and the proxy
  handler, every request that is sent to a backend, in whichever attempt, has a deadline no later than the time at which the request arrived plus the
  timeout of its priority, and no later than the deadline it came with.
\<close>

theorem timeout_covers_retries:
  assumes "NewPriorityTimeout hs ms ls (NewRetry n ivl (proxy_ServeHTTP a k ph)) w rw r = (w1, y)"
  shows "\<exists>qs. wo_sent w1 = wo_sent w @ qs
     \<and> (\<forall>q \<in> set qs. or_deadline q
          \<le> en_now (wo_env w) 0 + priority_timeout hs ms ls (Classify (rq_Path r) (Header_Get (rq_Header r) ''X-Priority''))
        \<and> (\<forall>d. cx_deadline (rq_ctx r) = Some d \<longrightarrow> or_deadline q \<le> d))"
proof -
  define T where "T = en_now (wo_env w) 0 + priority_timeout hs ms ls (Classify (rq_Path r) (Header_Get (rq_Header r) ''X-Priority''))"
  define D where "D = (case cx_deadline (rq_ctx r) of None \<Rightarrow> T | Some cur \<Rightarrow> if cur < T then cur else T)"
  have D: "D \<le> T" "\<And>d. cx_deadline (rq_ctx r) = Some d \<Longrightarrow> D \<le> d" by (auto simp: D_def split: option.splits)
  define q where "q = WithContext (WithTimeout (en_now (wo_env w) 0)
      (priority_timeout hs ms ls (Classify (rq_Path r) (Header_Get (rq_Header r) ''X-Priority''))) (rq_ctx r)
      \<lparr>cx_priority := Some (Classify (rq_Path r) (Header_Get (rq_Header r) ''X-Priority''))\<rparr>) r"
  have "cx_deadline (rq_ctx q) = Some D" by (simp add: q_def WithContext_def WithTimeout_def D_def T_def split: option.splits)
  from proxy.retry_timely [OF this]
  have "sends_until D (snd (draw_now w)) (fst (NewRetry n ivl (proxy_ServeHTTP a k ph) (snd (draw_now w)) rw q))"
    by (simp only: NewRetry_def Let_def)
  moreover have "NewRetry n ivl (proxy_ServeHTTP a k ph) (snd (draw_now w)) rw q = (w1, y)"
    using assms by (simp add: NewPriorityTimeout_def Let_def case_prod_beta q_def)
  ultimately have "sends_until D (snd (draw_now w)) w1" by simp
  then show ?thesis unfolding T_def [symmetric] using D by (fastforce simp: sends_until_def)
qed

section \<open>An example\<close>

theorem retry_never_discards_success_witness:
  "\<exists>w1 rw1 r1. NewRetry 3 100 (proxy_ServeHTTP 0 ''s'' (proxy_New 3 5)) (demo_world (Inr demo_answer) demo_metrics [] [])
        (ConnW (new_Conn False)) demo_request = (w1, Inr (rw1, r1))
     \<and> length (wo_sent w1) = 1 \<and> (\<exists>c1. rw1 = ConnW c1 \<and> cn_status c1 = Some 200 \<and> cn_body c1 = ''ok'')"
proof -
  let ?ctx = "background\<lparr>cx_attempt := Some 1\<rparr>" and ?w = "demo_world (Inr demo_answer) demo_metrics [] []" and ?c = "ConnW (new_Conn False)"
  have x: "cx_excluded ?ctx = None" "cx_deadline ?ctx = None" by (simp_all add: background_def)
  have "\<exists>x. copy_response name ''b'' n demo_answer (RetryW ?c new_retryWriter) = Inr x
      \<and> (\<exists>b. x = RetryW ?c b \<and> rw_statusCode b = 200 \<and> \<not> rw_committed b)" for name n
    by (simp add: copy_response_def rw_WriteHeader_def demo_answer_def Let_def new_retryWriter_def)
  from demo_proxy_answer [OF x this] obtain c1 q ls b where b: "rw_statusCode b = 200" "\<not> rw_committed b"
    and p: "proxy_ServeHTTP 0 ''s'' (proxy_New 3 5) ?w (RetryW ?c new_retryWriter) (WithContext ?ctx demo_request)
      = (demo_world (Inr demo_answer) c1 [q] ls, Inr (RetryW ?c b, WithContext ?ctx demo_request))" by blast
  obtain rw1 where f: "commit_response demo_request b ?c = Inr rw1"
    using b by (simp add: commit_response_def flush_def conn_WriteHeader_def new_Conn_def split: sum.splits)
  have r: "NewRetry 3 100 (proxy_ServeHTTP 0 ''s'' (proxy_New 3 5)) ?w ?c demo_request
      = (demo_world (Inr demo_answer) c1 [q] ls, Inr (rw1, resume demo_request (WithContext ?ctx demo_request)))"
    using b(1) by (simp add: NewRetry_def Let_def numeral_3_eq_3 retry_pause_def p f reply_def isRetryable_def)
  have s: "cn_status (new_Conn False) = None" by (simp add: new_Conn_def)
  have a: "en_answer (wo_env ?w) 0 = Inr demo_answer" "an_status demo_answer = 200" "an_body demo_answer = ''ok''"
    by (simp_all add: demo_answer_def)
  obtain m where m: "length (wo_sent (demo_world (Inr demo_answer) c1 [q] ls)) = length (wo_sent ?w) + m"
    "\<forall>j < m. \<forall>an. en_answer (wo_env ?w) j = Inr an \<longrightarrow> an_status an < 500 \<longrightarrow>
          j = m - 1 \<and> (200 \<le> an_status an \<longrightarrow> (\<exists>c1. rw1 = ConnW c1 \<and> cn_status c1 = Some (an_status an)
            \<and> cn_body c1 = cn_body (new_Conn False)
                @ (if bodyAllowedForStatus (an_status an) \<and> \<not> cn_head (new_Conn False) then an_body an else [])))"
    using retry_never_discards_success [OF r s] by blast
  have "m = 1" using m(1) by simp
  with m(2) a have "\<exists>c1. rw1 = ConnW c1 \<and> cn_status c1 = Some 200 \<and> cn_body c1 = ''ok''"
    by (auto simp: new_Conn_def bodyAllowedForStatus_def)
  with r show ?thesis by auto
qed

theorem retry_exclusion_has_no_effect_witness:
  "NewRetry 3 100 (proxy_ServeHTTP 0 ''s'' (proxy_New 3 5)) (demo_world (Inl (GoError ''refused'')) demo_metrics [] [])
        (ConnW (new_Conn False)) demo_request
     = NewRetry 3 100 (\<lambda>w rw q. proxy_ServeHTTP 0 ''s'' (proxy_New 3 5) w rw (WithContext (rq_ctx q\<lparr>cx_excluded := None\<rparr>) q))
        (demo_world (Inl (GoError ''refused'')) demo_metrics [] []) (ConnW (new_Conn False)) demo_request"
  by (rule retry_exclusion_has_no_effect) (simp add: background_def)

theorem timeout_covers_retries_witness:
  "\<exists>w1 y qs. NewPriorityTimeout 5 10 20 (NewRetry 3 100 (proxy_ServeHTTP 0 ''s'' (proxy_New 3 60)))
        (demo_world (Inl (GoError ''refused'')) demo_metrics [] []) (ConnW (new_Conn False)) demo_request = (w1, y)
     \<and> wo_sent w1 = qs \<and> (\<forall>q \<in> set qs. or_deadline q \<le> 106 + 20000000000)"
proof -
  let ?w = "demo_world (Inl (GoError ''refused'')) demo_metrics [] []"
  obtain w1 y where r: "NewPriorityTimeout 5 10 20 (NewRetry 3 100 (proxy_ServeHTTP 0 ''s'' (proxy_New 3 60))) ?w (ConnW (new_Conn False)) demo_request
      = (w1, y)" by (metis surj_pair)
  have t: "priority_timeout 5 10 20 ''LOW'' = 20000000000" by (simp add: priority_timeout_def seconds_def i64_def)
  show ?thesis using timeout_covers_retries [OF r] r by (auto simp: t)
qed

end
