(* ===== verification/Gate.thy ===== *)
theory Gate
  imports Retrying
begin

text \<open>
  The two middlewares that turn requests away: whom basic authentication lets through, and that the rate limits of different
  addresses do not interfere.
\<close>

section \<open>Credentials\<close>

text \<open>The encoder that clients use, \<^verbatim>\<open>base64.StdEncoding\<close>.\<close>

definition b64_char :: "nat \<Rightarrow> char" where
  "b64_char n =
     (if n < 26 then char_of (65 + n) else if n < 52 then char_of (71 + n) else if n < 62 then char_of (n - 4)
      else if n = 62 then CHR ''+'' else CHR ''/'')"

definition b64_four :: "char \<Rightarrow> char \<Rightarrow> char \<Rightarrow> string" where
  "b64_four a b c =
     (let n = byte a * 65536 + byte b * 256 + byte c
      in [b64_char (n div 262144), b64_char (n div 4096 mod 64), b64_char (n div 64 mod 64), b64_char (n mod 64)])"

fun b64_encode :: "string \<Rightarrow> string" where
  "b64_encode [] = []"
| "b64_encode [a] = take 2 (b64_four a (char_of (0::nat)) (char_of (0::nat))) @ ''==''"
| "b64_encode [a, b] = take 3 (b64_four a b (char_of (0::nat))) @ ''=''"
| "b64_encode (a # b # c # s) = b64_four a b c @ b64_encode s"

lemma byte_char_of: "n < 256 \<Longrightarrow> byte (char_of n) = n"
  by (simp add: byte_def)

lemma b64_char_value: "n < 64 \<Longrightarrow> b64_value (b64_char n) = Some n \<and> byte (b64_char n) \<noteq> 10 \<and> byte (b64_char n) \<noteq> 13"
proof -
  assume n: "n < 64"
  consider "n < 26" | "26 \<le> n" "n < 52" | "52 \<le> n" "n < 62" | "n = 62" | "n = 63" using n by linarith
  then show ?thesis
  proof cases
    case 4
    then show ?thesis by (simp add: b64_char_def b64_value_def byte_def)
  next
    case 5
    then show ?thesis by (simp add: b64_char_def b64_value_def byte_def)
  qed (simp_all add: b64_char_def b64_value_def byte_char_of Let_def, arith?)
qed

lemma b64_four_bytes:
  fixes a b c :: nat
  assumes "a < 256" "b < 256" "c < 256" and n: "n = a * 65536 + b * 256 + c"
  shows "n div 262144 < 64" "n div 262144 * 262144 + n div 4096 mod 64 * 4096 + n div 64 mod 64 * 64 + n mod 64 = n"
    "n div 65536 = a" "n div 256 mod 256 = b" "n mod 256 = c"
proof -
  have n1: "n < 64 * 262144" using assms by simp
  then show "n div 262144 < 64" by (simp add: less_mult_imp_div_less)
  have d: "n div 4096 = n div 64 div 64" "n div 262144 = n div 64 div 64 div 64" by (simp_all flip: div_mult2_eq)
  show "n div 262144 * 262144 + n div 4096 mod 64 * 4096 + n div 64 mod 64 * 64 + n mod 64 = n"
    using div_mult_mod_eq [of n 64] div_mult_mod_eq [of "n div 64" 64] div_mult_mod_eq [of "n div 64 div 64" 64]
    unfolding d by linarith
  have n': "n = (a * 256 + b) * 256 + c" using n by simp
  then have e: "n div 256 = a * 256 + b" using assms(3) by simp
  show "n div 256 mod 256 = b" using assms(2) e by simp
  show "n mod 256 = c" using assms(3) unfolding n' by (subst mod_mult_self3) simp
  show "n div 65536 = a" using e assms(2) by (simp add: div_mult2_eq [of n 256 256, simplified])
qed

lemma b64_bytes_four:
  assumes "n = byte a * 65536 + byte b * 256 + byte c"
  shows "b64_bytes (n div 262144) (n div 4096 mod 64) (n div 64 mod 64) (n mod 64) = [a, b, c]"
proof -
  have l: "byte a < 256" "byte b < 256" "byte c < 256" by (simp_all add: byte_def)
  show ?thesis
    unfolding b64_bytes_def b64_four_bytes(2) [OF l assms] Let_def b64_four_bytes(3-5) [OF l assms] by (simp add: byte_def)
qed

lemma b64_value_first:
  "let n = byte a * 65536 + byte b * 256 + byte c in b64_value (b64_char (n div 262144)) = Some (n div 262144)"
proof -
  have "byte a < 256" "byte b < 256" "byte c < 256" by (simp_all add: byte_def)
  from b64_four_bytes(1) [OF this refl] show ?thesis by (simp add: Let_def b64_char_value)
qed

lemma b64_pad: "b64_value CHR ''='' = None"
  by (simp add: b64_value_def byte_def)

lemma b64_quanta_encode: "b64_quanta (b64_encode s) = Some s"
proof (induction s rule: b64_encode.induct)
  case (2 a)
  let ?n = "byte a * 65536"
  have n: "?n = byte a * 16 * 64 * 64" by simp
  have z: "?n div 64 mod 64 = 0" "?n mod 64 = 0"
    unfolding n by (simp_all only: nonzero_mult_div_cancel_right zero_neq_numeral not_False_eq_True mod_mult_self2_is_0)
  have "b64_bytes (?n div 262144) (?n div 4096 mod 64) 0 0 = [a, char_of (0::nat), char_of (0::nat)]"
    using b64_bytes_four [of ?n a "char_of (0::nat)" "char_of (0::nat)"] z by (simp add: byte_char_of)
  then show ?case using b64_value_first [of a "char_of (0::nat)" "char_of (0::nat)"]
    by (simp add: b64_four_def Let_def b64_char_value byte_char_of b64_pad)
next
  case (3 a b)
  let ?n = "byte a * 65536 + byte b * 256"
  have n: "?n = (byte a * 1024 + byte b * 4) * 64" by simp
  have z: "?n mod 64 = 0" unfolding n by (simp only: mod_mult_self2_is_0)
  have "b64_bytes (?n div 262144) (?n div 4096 mod 64) (?n div 64 mod 64) 0 = [a, b, char_of (0::nat)]"
    using b64_bytes_four [of ?n a b "char_of (0::nat)"] z by (simp add: byte_char_of)
  then show ?case using b64_value_first [of a b "char_of (0::nat)"]
    by (simp add: b64_four_def Let_def b64_char_value byte_char_of b64_pad)
next
  case (4 a b c s)
  then show ?case using b64_bytes_four [OF refl, of a b c] b64_value_first [of a b c]
    by (simp add: b64_four_def Let_def b64_char_value)
qed simp


lemma b64_char_plain: "byte (b64_char n) \<noteq> 10 \<and> byte (b64_char n) \<noteq> 13"
  using b64_char_value [of n] by (cases "n < 64") (simp_all add: b64_char_def byte_def)

lemma b64_encode_plain: "list_all (\<lambda>c. byte c \<noteq> 10 \<and> byte c \<noteq> 13) (b64_encode s)"
  by (induction s rule: b64_encode.induct) (simp_all add: b64_four_def Let_def b64_char_plain, simp_all add: byte_def)

lemma b64_decode_encode: "b64_decode (b64_encode s) = Some s"
proof -
  have "filter (\<lambda>c. byte c \<noteq> 10 \<and> byte c \<noteq> 13) (b64_encode s) = b64_encode s"
    using b64_encode_plain [of s] by (simp add: list_all_iff)
  then show ?thesis by (simp add: b64_decode_def b64_quanta_encode)
qed

lemma parseBasicAuth_encode:
  assumes "CHR '':'' \<notin> set user"
  shows "parseBasicAuth (''Basic '' @ b64_encode (user @ CHR '':'' # pass)) = Some (user, pass)"
proof -
  have "map lower_byte ''Basic '' = ''basic ''" by code_simp
  then show ?thesis by (simp add: parseBasicAuth_def b64_decode_encode IndexByte_append [OF assms])
qed

lemma unauthorized_conn:
  assumes "cn_status c = None"
  shows "\<exists>c1. unauthorized w (ConnW c) r = (w, Inr (ConnW c1, r)) \<and> cn_status c1 = Some 401
     \<and> Header_Get (cn_sent c1) ''WWW-Authenticate'' = ''Basic realm='' @ dquoted ''Load Balancer Dashboard''"
  using assms
  by (auto simp: unauthorized_def reply_def http_Error_def conn_WriteHeader_def conn_Write_def conn_implicit_def
      bodyAllowedForStatus_def Let_def)

text \<open>
  A request presents the credentials \<open>u\<close> and \<open>p\<close>: its \<^verbatim>\<open>Authorization\<close> header is the scheme \<^verbatim>\<open>Basic\<close>, in any case, with the base64 encoding of \<^verbatim>\<open>u:p\<close>, where \<open>u\<close> has no colon.
\<close>

definition presents :: "Request \<Rightarrow> string \<Rightarrow> string \<Rightarrow> bool" where
  "presents r u p \<longleftrightarrow> (\<exists>scheme code. Header_Get (rq_Header r) ''Authorization'' = scheme @ code \<and> map lower_byte scheme = ''basic ''
     \<and> b64_decode code = Some (u @ CHR '':'' # p) \<and> CHR '':'' \<notin> set u)"

lemma parseBasicAuth_iff:
  "parseBasicAuth auth = Some (u, p) \<longleftrightarrow>
     (\<exists>scheme code. auth = scheme @ code \<and> map lower_byte scheme = ''basic '' \<and> b64_decode code = Some (u @ CHR '':'' # p) \<and> CHR '':'' \<notin> set u)"
proof
  assume h: "parseBasicAuth auth = Some (u, p)"
  then obtain cs i where c: "map lower_byte (take 6 auth) = ''basic ''" "b64_decode (drop 6 auth) = Some cs" "IndexByte cs CHR '':'' = Some i"
    "u = take i cs" "p = drop (i + 1) cs"
    by (auto simp: parseBasicAuth_def split: if_splits option.splits)
  from IndexByte_Some [OF c(3)] have "cs = u @ CHR '':'' # p" "CHR '':'' \<notin> set u"
    using id_take_nth_drop [of i cs] by (simp_all add: c(4,5))
  with c(1,2) show "\<exists>scheme code. auth = scheme @ code \<and> map lower_byte scheme = ''basic '' \<and> b64_decode code = Some (u @ CHR '':'' # p) \<and> CHR '':'' \<notin> set u"
    by (intro exI [of _ "take 6 auth"] exI [of _ "drop 6 auth"]) simp
next
  assume "\<exists>scheme code. auth = scheme @ code \<and> map lower_byte scheme = ''basic '' \<and> b64_decode code = Some (u @ CHR '':'' # p) \<and> CHR '':'' \<notin> set u"
  then show "parseBasicAuth auth = Some (u, p)"
  proof (elim exE conjE)
    fix scheme code
    assume c: "auth = scheme @ code" "map lower_byte scheme = ''basic ''" "b64_decode code = Some (u @ CHR '':'' # p)" "CHR '':'' \<notin> set u"
    have "length scheme = 6" using arg_cong [OF c(2), of length] by simp
    then show ?thesis using c by (simp add: parseBasicAuth_def IndexByte_append)
  qed
qed

lemma Request_BasicAuth_iff: "Request_BasicAuth r = Some (u, p) \<longleftrightarrow> presents r u p"
proof -
  have "\<not> presents r u p" if "Header_Get (rq_Header r) ''Authorization'' = []"
    using that by (auto simp: presents_def)
  then show ?thesis by (auto simp: Request_BasicAuth_def Let_def parseBasicAuth_iff presents_def)
qed

text \<open>
  C34. Basic authentication lets exactly the configured user through, whatever the \<^verbatim>\<open>Authorization\<close> header is. A request that presents the configured credentials, in particular one that
  encodes them as clients do, reaches the handler behind the middleware unchanged. For every other request (wrong credentials, no header, another scheme, a malformed encoding) that handler is not
  run at all: the world stays as it is and the client gets a challenge and an error status, which is 401 when no credentials are presented.
\<close>

theorem basic_auth_gate:
  assumes "username \<noteq> []" and "password \<noteq> []" and "cn_status c = None"
  shows "(presents r username password \<longrightarrow> BasicAuth username password next w (ConnW c) r = next w (ConnW c) r)
     \<and> (\<not> presents r username password \<longrightarrow>
          (\<exists>c1 status. BasicAuth username password next w (ConnW c) r = (w, Inr (ConnW c1, r))
            \<and> cn_status c1 = Some status \<and> 400 \<le> status \<and> status \<le> 499 \<and> ((\<nexists>u p. presents r u p) \<longrightarrow> status = 401)
            \<and> Header_Get (cn_sent c1) ''WWW-Authenticate'' = ''Basic realm='' @ dquoted ''Load Balancer Dashboard''))
     \<and> (CHR '':'' \<notin> set username \<and> Header_Get (rq_Header r) ''Authorization'' = ''Basic '' @ b64_encode (username @ CHR '':'' # password)
          \<longrightarrow> presents r username password)"
proof (intro conjI impI)
  have n: "ConstantTimeCompare x y \<noteq> 1 \<longleftrightarrow> x \<noteq> y" for x y by (simp add: ConstantTimeCompare_def)
  show "BasicAuth username password next w (ConnW c) r = next w (ConnW c) r" if "presents r username password"
    using assms(1,2) that by (simp add: BasicAuth_def Request_BasicAuth_iff [symmetric] n)
  assume "\<not> presents r username password"
  then have "BasicAuth username password next w (ConnW c) r = unauthorized w (ConnW c) r"
    using assms(1,2) by (auto simp: BasicAuth_def Request_BasicAuth_iff [symmetric] n split: option.splits)
  then show "\<exists>c1 status. BasicAuth username password next w (ConnW c) r = (w, Inr (ConnW c1, r))
        \<and> cn_status c1 = Some status \<and> 400 \<le> status \<and> status \<le> 499 \<and> ((\<nexists>u p. presents r u p) \<longrightarrow> status = 401)
        \<and> Header_Get (cn_sent c1) ''WWW-Authenticate'' = ''Basic realm='' @ dquoted ''Load Balancer Dashboard''"
    using unauthorized_conn [OF assms(3), of w r] by auto
next
  assume h: "CHR '':'' \<notin> set username \<and> Header_Get (rq_Header r) ''Authorization'' = ''Basic '' @ b64_encode (username @ CHR '':'' # password)"
  then have "parseBasicAuth (Header_Get (rq_Header r) ''Authorization'') = Some (username, password)"
    using parseBasicAuth_encode [of username password] by (simp only: not_False_eq_True simp_thms)
  then show "presents r username password" by (simp add: parseBasicAuth_iff presents_def)
qed

theorem basic_auth_gate_witness:
  "let r = demo_request\<lparr>rq_Header := Header_Set ''Authorization'' ''Bearer x'' Map.empty\<rparr>; w = demo_world (Inr demo_answer) demo_metrics [] []
   in \<exists>c1 status. BasicAuth ''admin'' ''secret'' (proxy_ServeHTTP 0 ''s'' (proxy_New 3 5)) w (ConnW (new_Conn False)) r = (w, Inr (ConnW c1, r))
     \<and> cn_status c1 = Some status \<and> 400 \<le> status"
proof -
  let ?r = "demo_request\<lparr>rq_Header := Header_Set ''Authorization'' ''Bearer x'' Map.empty\<rparr>"
  have "parseBasicAuth ''Bearer x'' = None" by code_simp
  then have "Request_BasicAuth ?r \<noteq> Some (''admin'', ''secret'')" by (simp add: Request_BasicAuth_def Let_def)
  then have "\<not> presents ?r ''admin'' ''secret''" by (simp only: Request_BasicAuth_iff not_False_eq_True)
  then show ?thesis
    using basic_auth_gate [of "''admin''" "''secret''" "new_Conn False" ?r "proxy_ServeHTTP 0 ''s'' (proxy_New 3 5)"
        "demo_world (Inr demo_answer) demo_metrics [] []"]
    by (simp add: new_Conn_def Let_def) blast
qed

section \<open>Rate limits\<close>

datatype rl_event = RlRequest string time time | RlCleanup "string \<Rightarrow> time"

fun rl_run :: "(f64 \<Rightarrow> int \<Rightarrow> 'l) \<Rightarrow> (time \<Rightarrow> 'l \<Rightarrow> 'l \<times> bool) \<Rightarrow> rl_event list \<Rightarrow> 'l PerIPRateLimiter \<Rightarrow> (string \<times> bool) list" where
  "rl_run new allow [] rl = []"
| "rl_run new allow (RlRequest ip seen now # es) rl =
     (let (rl1, ok) = limit_ip new allow seen now ip rl in (ip, ok) # rl_run new allow es rl1)"
| "rl_run new allow (RlCleanup clock # es) rl = rl_run new allow es (cleanup clock rl)"

fun concerns :: "string \<Rightarrow> rl_event \<Rightarrow> bool" where
  "concerns ip (RlRequest i seen now) \<longleftrightarrow> i = ip"
| "concerns ip (RlCleanup clock) \<longleftrightarrow> True"

definition same_for :: "string \<Rightarrow> 'l PerIPRateLimiter \<Rightarrow> 'l PerIPRateLimiter \<Rightarrow> bool" where
  "same_for ip rl rl1 \<longleftrightarrow> rl_limiters rl1 ip = rl_limiters rl ip \<and> rl_rps rl1 = rl_rps rl \<and> rl_burst rl1 = rl_burst rl"

lemma limit_ip_other: "i \<noteq> ip \<Longrightarrow> same_for ip rl (fst (limit_ip new allow seen now i rl))"
  by (simp add: same_for_def limit_ip_def getLimiter_def put_limiter_def Let_def case_prod_beta split: option.splits)

lemma limit_ip_same:
  "same_for ip rl rl1 \<Longrightarrow> snd (limit_ip new allow seen now ip rl1) = snd (limit_ip new allow seen now ip rl)
     \<and> same_for ip (fst (limit_ip new allow seen now ip rl)) (fst (limit_ip new allow seen now ip rl1))"
  by (simp add: same_for_def limit_ip_def getLimiter_def put_limiter_def Let_def case_prod_beta split: option.splits)

lemma cleanup_same: "same_for ip rl rl1 \<Longrightarrow> same_for ip (cleanup clock rl) (cleanup clock rl1)"
  by (simp add: same_for_def cleanup_def)

text \<open>
  C35. Rate limits are per client. Whatever other addresses send in between, the decisions about the requests of one address are those that it would get
  if it were alone: the requests of the others can be deleted from the run. This holds for every implementation of the token buckets and with the clean-up
  of stale entries at any time.
\<close>

theorem rate_limits_are_independent:
  "filter (\<lambda>(i, ok). i = ip) (rl_run new allow es rl) = rl_run new allow (filter (concerns ip) es) rl"
proof -
  have "same_for ip rl rl1 \<Longrightarrow> filter (\<lambda>(i, ok). i = ip) (rl_run new allow es rl1) = rl_run new allow (filter (concerns ip) es) rl" for rl rl1
  proof (induction es arbitrary: rl rl1)
    case (Cons e es)
    show ?case
    proof (cases e)
      case (RlRequest i seen now)
      show ?thesis
      proof (cases "i = ip")
        case True
        then show ?thesis using Cons.IH limit_ip_same [OF Cons.prems, of new allow seen now] RlRequest
          by (simp add: Let_def case_prod_beta)
      next
        case False
        have "same_for ip rl (fst (limit_ip new allow seen now i rl1))"
          using Cons.prems limit_ip_other [OF False, of rl1 new allow seen now] by (simp add: same_for_def)
        then show ?thesis using Cons.IH False RlRequest by (simp add: Let_def case_prod_beta)
      qed
    next
      case (RlCleanup clock)
      then show ?thesis using Cons.IH [OF cleanup_same [OF Cons.prems]] by simp
    qed
  qed simp
  then show ?thesis by (simp add: same_for_def)
qed

end
