(* ===== verification/Builder.thy ===== *)
theory Builder
  imports Gate
begin

text \<open>
  The builder of middlewares, \<^verbatim>\<open>src/internal/middleware/middleware.go\<close>, and the resolution of a list of names,
  \<^verbatim>\<open>src/internal/entrypoint/entrypoint.go\<close>: from the \<^verbatim>\<open>middlewares\<close> block of the configuration, or from its older settings, to the functions of the
  other theories. The rate limiters that a builder makes are objects of the world.
\<close>

section \<open>State\<close>

record 'l Builder =
  bu_cfg :: Config
  bu_registry :: "nat option"
  bu_cache :: "string \<rightharpoonup> 'l Middleware"

definition NewBuilder :: "Config \<Rightarrow> nat option \<Rightarrow> 'l Builder" where
  "NewBuilder cfg registry = \<lparr>bu_cfg = cfg, bu_registry = registry, bu_cache = Map.empty\<rparr>"

text \<open>What is not in the repository: the token buckets of \<^verbatim>\<open>golang.org/x/time/rate\<close>, and which files can be opened.\<close>

record 'l Deps =
  de_NewLimiter :: "f64 \<Rightarrow> int \<Rightarrow> 'l"
  de_Allow :: "time \<Rightarrow> 'l \<Rightarrow> 'l \<times> bool"
  de_opens :: "string \<Rightarrow> bool"

section \<open>Typed settings\<close>

record rateLimitConfig =
  rlc_RequestsPerSecond :: f64
  rlc_Burst :: int

record basicAuthConfig =
  bac_Username :: string
  bac_Password :: string

record retryConfig =
  rtc_Attempts :: int
  rtc_InitialIntervalMs :: int

record accessLogConfig =
  acc_FilePath :: string

record timeoutMwConfig =
  tmc_HighSec :: int
  tmc_MediumSec :: int
  tmc_LowSec :: int

record circuitBreakerConfig =
  cbc_Threshold :: int
  cbc_RecoveryTimeoutSec :: int

record corsConfigJSON =
  crc_AllowedOrigins :: "string list"
  crc_AllowedMethods :: "string list"
  crc_AllowedHeaders :: "string list"

definition rateLimit_fields :: "rateLimitConfig fields" where
  "rateLimit_fields =
     [field ''requests_per_second'' rlc_RequestsPerSecond (\<lambda>v. rlc_RequestsPerSecond_update (\<lambda>_. v)) read_float,
      field ''burst'' rlc_Burst (\<lambda>v. rlc_Burst_update (\<lambda>_. v)) read_int]"

definition basicAuth_fields :: "basicAuthConfig fields" where
  "basicAuth_fields =
     [field ''username'' bac_Username (\<lambda>v. bac_Username_update (\<lambda>_. v)) read_string,
      field ''password'' bac_Password (\<lambda>v. bac_Password_update (\<lambda>_. v)) read_string]"

definition retry_fields :: "retryConfig fields" where
  "retry_fields =
     [field ''attempts'' rtc_Attempts (\<lambda>v. rtc_Attempts_update (\<lambda>_. v)) read_int,
      field ''initial_interval_ms'' rtc_InitialIntervalMs (\<lambda>v. rtc_InitialIntervalMs_update (\<lambda>_. v)) read_int]"

definition accessLog_fields :: "accessLogConfig fields" where
  "accessLog_fields = [field ''file_path'' acc_FilePath (\<lambda>v. acc_FilePath_update (\<lambda>_. v)) read_string]"

definition timeout_fields :: "timeoutMwConfig fields" where
  "timeout_fields =
     [field ''high_sec'' tmc_HighSec (\<lambda>v. tmc_HighSec_update (\<lambda>_. v)) read_int,
      field ''medium_sec'' tmc_MediumSec (\<lambda>v. tmc_MediumSec_update (\<lambda>_. v)) read_int,
      field ''low_sec'' tmc_LowSec (\<lambda>v. tmc_LowSec_update (\<lambda>_. v)) read_int]"

definition circuitBreaker_fields :: "circuitBreakerConfig fields" where
  "circuitBreaker_fields =
     [field ''threshold'' cbc_Threshold (\<lambda>v. cbc_Threshold_update (\<lambda>_. v)) read_int,
      field ''recovery_timeout_sec'' cbc_RecoveryTimeoutSec (\<lambda>v. cbc_RecoveryTimeoutSec_update (\<lambda>_. v)) read_int]"

definition cors_fields :: "corsConfigJSON fields" where
  "cors_fields =
     [field ''allowed_origins'' crc_AllowedOrigins (\<lambda>v. crc_AllowedOrigins_update (\<lambda>_. v)) read_strings,
      field ''allowed_methods'' crc_AllowedMethods (\<lambda>v. crc_AllowedMethods_update (\<lambda>_. v)) read_strings,
      field ''allowed_headers'' crc_AllowedHeaders (\<lambda>v. crc_AllowedHeaders_update (\<lambda>_. v)) read_strings]"

section \<open>Building one middleware\<close>

text \<open>A middleware that is made without touching the world, and the one that needs a new table of limiters.\<close>

definition built :: "'l Middleware \<Rightarrow> 'l World \<Rightarrow> 'l World \<times> 'l Middleware result" where
  "built mw w = (w, Inr mw)"

definition new_rate_limit :: "'l Deps \<Rightarrow> f64 \<Rightarrow> int \<Rightarrow> 'l World \<Rightarrow> 'l World \<times> 'l Middleware result" where
  "new_rate_limit d rps burst w =
     built (RateLimit (de_NewLimiter d) (de_Allow d) (length (wo_limiters w)))
       (w\<lparr>wo_limiters := wo_limiters w @ [NewPerIPRateLimiter rps burst]\<rparr>)"

text \<open>The lists that the configuration gives replace those of the default.\<close>

definition override :: "'a list \<Rightarrow> 'a list \<Rightarrow> 'a list" where
  "override given standard = (if length given > 0 then given else standard)"

definition cors_config :: "string list \<Rightarrow> string list \<Rightarrow> string list \<Rightarrow> CORSConfig" where
  "cors_config origins methods headers =
     DefaultCORSConfig
       \<lparr>co_AllowedOrigins := override origins (co_AllowedOrigins DefaultCORSConfig),
        co_AllowedMethods := override methods (co_AllowedMethods DefaultCORSConfig),
        co_AllowedHeaders := override headers (co_AllowedHeaders DefaultCORSConfig)\<rparr>"

text \<open>The settings are read, or the error tells the type and the name; then \<open>f\<close> makes the middleware.\<close>

definition with_settings ::
  "string \<Rightarrow> string \<Rightarrow> 'c result \<Rightarrow> ('c \<Rightarrow> 'l World \<Rightarrow> 'l World \<times> 'l Middleware result) \<Rightarrow> 'l World \<Rightarrow> 'l World \<times> 'l Middleware result" where
  "with_settings type name settings f w =
     (case settings of
        Inl err \<Rightarrow> (w, Inl (GoError (''parsing '' @ type @ '' config for '' @ dquoted name @ '': '' @ error_text err)))
      | Inr cfg \<Rightarrow> f cfg w)"

definition buildFromConfig ::
  "'l Deps \<Rightarrow> 'l Builder \<Rightarrow> string \<Rightarrow> MiddlewareConfig option \<Rightarrow> 'l World \<Rightarrow> 'l World \<times> 'l Middleware result" where
  "buildFromConfig d b name mw w =
     (case mw of
        None \<Rightarrow> (w, Inl (GoPanic ''nil middleware config''))
      | Some mwCfg \<Rightarrow>
          if mc_Type mwCfg = ''rateLimit'' then
            with_settings ''rateLimit'' name
              (Unmarshal (read_struct rateLimit_fields) (mc_Config mwCfg) \<lparr>rlc_RequestsPerSecond = 0, rlc_Burst = 0\<rparr>)
              (\<lambda>cfg. new_rate_limit d (default_int (cf_RateLimitRPS (bu_cfg b)) (rlc_RequestsPerSecond cfg))
                 (default_int (cf_RateLimitBurst (bu_cfg b)) (rlc_Burst cfg))) w
          else if mc_Type mwCfg = ''basicAuth'' then
            with_settings ''basicAuth'' name
              (Unmarshal (read_struct basicAuth_fields) (mc_Config mwCfg) \<lparr>bac_Username = [], bac_Password = []\<rparr>)
              (\<lambda>cfg. built (BasicAuth (bac_Username cfg) (bac_Password cfg))) w
          else if mc_Type mwCfg = ''retry'' then
            with_settings ''retry'' name
              (Unmarshal (read_struct retry_fields) (mc_Config mwCfg) \<lparr>rtc_Attempts = 0, rtc_InitialIntervalMs = 0\<rparr>)
              (\<lambda>cfg. built (NewRetry (default_int (cf_MaxRetries (bu_cfg b)) (rtc_Attempts cfg))
                 (default_int (cf_RetryBackoffMs (bu_cfg b)) (rtc_InitialIntervalMs cfg)))) w
          else if mc_Type mwCfg = ''accessLog'' then
            with_settings ''accessLog'' name
              (Unmarshal (read_struct accessLog_fields) (mc_Config mwCfg) \<lparr>acc_FilePath = []\<rparr>)
              (\<lambda>cfg. let path = default_str (cf_AccessLogPath (bu_cfg b)) (acc_FilePath cfg)
                     in built (NewAccessLog (de_opens d path) path)) w
          else if mc_Type mwCfg = ''headers'' then built RequestHeaders w
          else if mc_Type mwCfg = ''timeout'' then
            with_settings ''timeout'' name
              (Unmarshal (read_struct timeout_fields) (mc_Config mwCfg) \<lparr>tmc_HighSec = 0, tmc_MediumSec = 0, tmc_LowSec = 0\<rparr>)
              (\<lambda>cfg. built (NewPriorityTimeout (default_int (tc_HighSec (cf_Timeouts (bu_cfg b))) (tmc_HighSec cfg))
                 (default_int (tc_MediumSec (cf_Timeouts (bu_cfg b))) (tmc_MediumSec cfg))
                 (default_int (tc_LowSec (cf_Timeouts (bu_cfg b))) (tmc_LowSec cfg)))) w
          else if mc_Type mwCfg = ''circuitBreaker'' then
            with_settings ''circuitBreaker'' name
              (Unmarshal (read_struct circuitBreaker_fields) (mc_Config mwCfg) \<lparr>cbc_Threshold = 0, cbc_RecoveryTimeoutSec = 0\<rparr>)
              (\<lambda>cfg. built (NewCircuitBreaker (bu_registry b))) w
          else if mc_Type mwCfg = ''cors'' then
            with_settings ''cors'' name
              (Unmarshal (read_struct cors_fields) (mc_Config mwCfg)
                 \<lparr>crc_AllowedOrigins = [], crc_AllowedMethods = [], crc_AllowedHeaders = []\<rparr>)
              (\<lambda>cfg. built (CORS (cors_config (crc_AllowedOrigins cfg) (crc_AllowedMethods cfg) (crc_AllowedHeaders cfg)))) w
          else (w, Inl (GoError (''unknown middleware type '' @ dquoted (mc_Type mwCfg) @ '' for '' @ dquoted name))))"

definition buildLegacy :: "'l Deps \<Rightarrow> 'l Builder \<Rightarrow> string \<Rightarrow> 'l World \<Rightarrow> 'l World \<times> 'l Middleware result" where
  "buildLegacy d b name w =
     (let cfg = bu_cfg b
      in if name = ''rate-limit'' then new_rate_limit d (cf_RateLimitRPS cfg) (cf_RateLimitBurst cfg) w
         else if name = ''headers'' then built RequestHeaders w
         else if name = ''cors'' then
           built (CORS (cors_config (cc_AllowedOrigins (cf_CORS cfg)) (cc_AllowedMethods (cf_CORS cfg)) (cc_AllowedHeaders (cf_CORS cfg)))) w
         else if name = ''basic-auth'' then built (BasicAuth (da_Username (cf_DashboardAuth cfg)) (da_Password (cf_DashboardAuth cfg))) w
         else if name = ''access-log'' then built (NewAccessLog (de_opens d (cf_AccessLogPath cfg)) (cf_AccessLogPath cfg)) w
         else if name = ''retry'' then built (NewRetry (cf_MaxRetries cfg) (cf_RetryBackoffMs cfg)) w
         else if name = ''timeout'' then
           built (NewPriorityTimeout (tc_HighSec (cf_Timeouts cfg)) (tc_MediumSec (cf_Timeouts cfg)) (tc_LowSec (cf_Timeouts cfg))) w
         else (w, Inl (GoError (''unknown legacy middleware '' @ dquoted name))))"

text \<open>A named middleware is made once; a configured one comes before an older setting of the same name.\<close>

definition Build :: "'l Deps \<Rightarrow> string \<Rightarrow> 'l Builder \<times> 'l World \<Rightarrow> ('l Builder \<times> 'l World) \<times> 'l Middleware result" where
  "Build d name s =
     (let (b, w) = s
      in case bu_cache b name of
           Some mw \<Rightarrow> ((b, w), Inr mw)
         | None \<Rightarrow>
             (case (case cf_Middlewares (bu_cfg b) name of
                      Some mwCfg \<Rightarrow> buildFromConfig d b name mwCfg w
                    | None \<Rightarrow> buildLegacy d b name w) of
                (w1, Inl err) \<Rightarrow> ((b, w1), Inl err)
              | (w1, Inr mw) \<Rightarrow> ((b\<lparr>bu_cache := (bu_cache b)(name \<mapsto> mw)\<rparr>, w1), Inr mw)))"

section \<open>Lists of names\<close>

fun wrap_error :: "string \<Rightarrow> fault \<Rightarrow> fault" where
  "wrap_error msg (GoError e) = GoError (msg @ e)"
| "wrap_error msg (GoPanic p) = GoPanic p"

fun chain_names ::
  "'l Deps \<Rightarrow> string list \<Rightarrow> 'l Middleware list \<Rightarrow> 'l Builder \<times> 'l World \<Rightarrow> ('l Builder \<times> 'l World) \<times> 'l Middleware list result" where
  "chain_names d [] middlewares s = (s, Inr middlewares)"
| "chain_names d (name # names) middlewares s =
     (case Build d name s of
        (s1, Inl err) \<Rightarrow> (s1, Inl (wrap_error (''building middleware '' @ dquoted name @ '': '') err))
      | (s1, Inr mw) \<Rightarrow> chain_names d names (middlewares @ [mw]) s1)"

definition BuildChain ::
  "'l Deps \<Rightarrow> string list \<Rightarrow> 'l Builder \<times> 'l World \<Rightarrow> ('l Builder \<times> 'l World) \<times> 'l Middleware list result" where
  "BuildChain d names s = chain_names d names [] s"

fun resolve_names ::
  "'l Deps \<Rightarrow> string list \<Rightarrow> 'l Middleware list \<Rightarrow> 'l Builder \<times> 'l World \<Rightarrow> ('l Builder \<times> 'l World) \<times> 'l Middleware list result" where
  "resolve_names d [] resolved s = (s, Inr resolved)"
| "resolve_names d (name # names) resolved s =
     (case Build d name s of
        (s1, Inl err) \<Rightarrow> (s1, Inl (wrap_error (''failed to build middleware '' @ dquoted name @ '': '') err))
      | (s1, Inr mw) \<Rightarrow> resolve_names d names (resolved @ [mw]) s1)"

definition ResolveMiddlewares ::
  "string list \<Rightarrow> 'l Deps \<Rightarrow> 'l Builder \<times> 'l World \<Rightarrow> ('l Builder \<times> 'l World) \<times> 'l Middleware list result" where
  "ResolveMiddlewares names d s = resolve_names d names [] s"

section \<open>What a builder keeps\<close>

text \<open>Building appends tables of limiters to the world and remembers what it made; nothing else changes.\<close>

definition grows :: "'l World \<Rightarrow> 'l World \<Rightarrow> nat \<Rightarrow> bool" where
  "grows w w1 n \<longleftrightarrow> (\<exists>ls. w1 = w\<lparr>wo_limiters := wo_limiters w @ ls\<rparr> \<and> length ls \<le> n)"

lemma grows_refl [simp, intro]: "grows w w n"
  unfolding grows_def by (rule exI [of _ "[]"]) simp

lemma grows_mono: "grows w w1 m \<Longrightarrow> m \<le> n \<Longrightarrow> grows w w1 n"
  unfolding grows_def by (elim exE conjE) (intro exI conjI, assumption, rule order_trans)

lemma grows_trans: "grows w w1 m \<Longrightarrow> grows w1 w2 n \<Longrightarrow> grows w w2 (m + n)"
  by (fastforce simp: grows_def)

lemma grows_frame:
  assumes "grows w w1 n"
  shows "wo_mgrs w1 = wo_mgrs w" "wo_env w1 = wo_env w" "wo_hub w1 = wo_hub w" "wo_sent w1 = wo_sent w" "wo_disk w1 = wo_disk w"
  using assms by (auto simp: grows_def)

lemma grows_built [simp]: "grows w (fst (built mw w)) n"
  by (simp add: built_def)

lemma grows_new_rate_limit [simp]: "grows w (fst (new_rate_limit d rps burst w)) (Suc 0)"
  by (auto simp: new_rate_limit_def built_def grows_def)

lemma grows_with_settings: "(\<And>cfg. grows w (fst (f cfg w)) n) \<Longrightarrow> grows w (fst (with_settings type name x f w)) n"
  by (simp add: with_settings_def split: sum.splits)

lemma grows_buildFromConfig: "grows w (fst (buildFromConfig d b name mw w)) (Suc 0)"
  by (auto simp: buildFromConfig_def Let_def split: option.splits intro!: grows_with_settings)

lemma grows_buildLegacy: "grows w (fst (buildLegacy d b name w)) (Suc 0)"
  by (auto simp: buildLegacy_def Let_def)

lemma Build_cases:
  obtains (cached) mw where "bu_cache b name = Some mw" "Build d name (b, w) = ((b, w), Inr mw)"
  | (failed) w1 e where "bu_cache b name = None" "Build d name (b, w) = ((b, w1), Inl e)" "grows w w1 (Suc 0)"
  | (made) w1 mw where "bu_cache b name = None" "grows w w1 (Suc 0)"
      "Build d name (b, w) = ((b\<lparr>bu_cache := (bu_cache b)(name \<mapsto> mw)\<rparr>, w1), Inr mw)"
      "(\<exists>c. cf_Middlewares (bu_cfg b) name = Some c \<and> buildFromConfig d b name c w = (w1, Inr mw))
        \<or> cf_Middlewares (bu_cfg b) name = None \<and> buildLegacy d b name w = (w1, Inr mw)"
proof (cases "bu_cache b name")
  case (Some mw)
  then show ?thesis using cached by (simp add: Build_def)
next
  case None
  define x where "x = (case cf_Middlewares (bu_cfg b) name of Some mwCfg \<Rightarrow> buildFromConfig d b name mwCfg w | None \<Rightarrow> buildLegacy d b name w)"
  obtain w1 y where y: "x = (w1, y)" by (metis surj_pair)
  have g: "grows w w1 (Suc 0)"
    using y grows_buildFromConfig [of w d b name] grows_buildLegacy [of w d b name] unfolding x_def
    by (cases "cf_Middlewares (bu_cfg b) name") (simp, metis fst_conv option.simps(5))+
  have "Build d name (b, w) = (case x of (w1, Inl err) \<Rightarrow> ((b, w1), Inl err)
      | (w1, Inr mw) \<Rightarrow> ((b\<lparr>bu_cache := (bu_cache b)(name \<mapsto> mw)\<rparr>, w1), Inr mw))"
    using None by (simp add: Build_def x_def)
  then show ?thesis using None y g failed made unfolding x_def
    by (cases y) (auto split: option.splits)
qed

text \<open>A middleware stands for a name if the configuration makes it so.\<close>

definition stands_for :: "'l Deps \<Rightarrow> Config \<Rightarrow> nat option \<Rightarrow> string \<Rightarrow> 'l Middleware \<Rightarrow> bool" where
  "stands_for d cfg registry name mw \<longleftrightarrow>
     (\<exists>b w w1. bu_cfg b = cfg \<and> bu_registry b = registry
        \<and> ((\<exists>c. cf_Middlewares cfg name = Some c \<and> buildFromConfig d b name c w = (w1, Inr mw))
           \<or> cf_Middlewares cfg name = None \<and> buildLegacy d b name w = (w1, Inr mw)))"

definition builder_knows :: "'l Deps \<Rightarrow> 'l Builder \<Rightarrow> bool" where
  "builder_knows d b \<longleftrightarrow> (\<forall>name mw. bu_cache b name = Some mw \<longrightarrow> stands_for d (bu_cfg b) (bu_registry b) name mw)"

lemma builder_new [simp]:
  "builder_knows d (NewBuilder cfg registry)" "bu_cfg (NewBuilder cfg registry) = cfg" "bu_registry (NewBuilder cfg registry) = registry"
  by (simp_all add: builder_knows_def NewBuilder_def)

lemma Build_knows:
  assumes "builder_knows d b" and "Build d name (b, w) = ((b1, w1), x)"
  shows "builder_knows d b1 \<and> bu_cfg b1 = bu_cfg b \<and> bu_registry b1 = bu_registry b
     \<and> (\<forall>mw. x = Inr mw \<longrightarrow> stands_for d (bu_cfg b) (bu_registry b) name mw)"
proof (cases rule: Build_cases [of b name d w])
  case (made w2 mw)
  then have "stands_for d (bu_cfg b) (bu_registry b) name mw" unfolding stands_for_def by blast
  then show ?thesis using made assms by (auto simp: builder_knows_def)
qed (use assms in \<open>auto simp: builder_knows_def\<close>)

lemma resolve_names_knows:
  "resolve_names d names mws (b, w) = ((b1, w1), x) \<Longrightarrow> builder_knows d b
     \<Longrightarrow> builder_knows d b1 \<and> bu_cfg b1 = bu_cfg b \<and> bu_registry b1 = bu_registry b
       \<and> (\<forall>mws1. x = Inr mws1 \<longrightarrow> (\<exists>ms. mws1 = mws @ ms \<and> list_all2 (stands_for d (bu_cfg b) (bu_registry b)) names ms))"
proof (induction names arbitrary: mws b w)
  case (Cons name names)
  obtain b2 w2 y where b: "Build d name (b, w) = ((b2, w2), y)" by (metis surj_pair)
  note o = Build_knows [OF Cons.prems(2) b]
  show ?case
  proof (cases y)
    case (Inr mw)
    with Cons.prems b have r: "resolve_names d names (mws @ [mw]) (b2, w2) = ((b1, w1), x)" by simp
    show ?thesis using Cons.IH [OF r] o Inr by auto
  qed (use Cons.prems(1) o b in auto)
qed auto

lemma resolve_knows:
  assumes "ResolveMiddlewares names d (b, w) = ((b1, w1), Inr mws)" and "builder_knows d b"
  shows "builder_knows d b1 \<and> bu_cfg b1 = bu_cfg b \<and> bu_registry b1 = bu_registry b
     \<and> list_all2 (stands_for d (bu_cfg b) (bu_registry b)) names mws"
  using resolve_names_knows [of d names "[]" b w b1 w1 "Inr mws"] assms by (auto simp: ResolveMiddlewares_def)

text \<open>
  A property of handlers that every middleware keeps is kept by whatever the builder makes. The registry is the one that the
  circuit breaker middleware reports to.
\<close>

definition preserves :: "('l Handler \<Rightarrow> bool) \<Rightarrow> 'l Middleware \<Rightarrow> bool" where
  "preserves P mw \<longleftrightarrow> (\<forall>next. P next \<longrightarrow> P (mw next))"

lemma preserves_Chain: "list_all (preserves P) mws \<Longrightarrow> P final \<Longrightarrow> P (Chain mws final)"
  unfolding Chain_foldr by (induction mws) (auto simp: preserves_def)

locale middleware_invariant =
  fixes registry :: "nat option" and P :: "'l Handler \<Rightarrow> bool"
  assumes retry: "P next \<Longrightarrow> P (NewRetry n ms next)"
    and circuit_breaker: "P next \<Longrightarrow> P (NewCircuitBreaker registry next)"
    and access_log: "P next \<Longrightarrow> P (NewAccessLog opened path next)"
    and rate_limit: "P next \<Longrightarrow> P (RateLimit NewLimiter Allow addr next)"
    and timeout: "P next \<Longrightarrow> P (NewPriorityTimeout h m l next)"
    and headers: "P next \<Longrightarrow> P (RequestHeaders next)"
    and cors: "P next \<Longrightarrow> P (CORS cfg next)"
    and basic_auth: "P next \<Longrightarrow> P (BasicAuth user pass next)"
begin

lemma keeps:
  "preserves P (NewRetry n ms)" "preserves P (NewCircuitBreaker registry)" "preserves P (NewAccessLog opened path)"
  "preserves P (RateLimit NewLimiter Allow addr)" "preserves P (NewPriorityTimeout h m l)" "preserves P RequestHeaders"
  "preserves P (CORS cfg)" "preserves P (BasicAuth user pass)"
  by (simp_all add: preserves_def retry circuit_breaker access_log rate_limit timeout headers cors basic_auth)

lemma made:
  "built mw w = (w1, Inr mw1) \<Longrightarrow> preserves P mw \<Longrightarrow> preserves P mw1"
  "new_rate_limit d rps burst w = (w1, Inr mw1) \<Longrightarrow> preserves P mw1"
  using keeps(4) by (auto simp: built_def new_rate_limit_def)

lemma settings:
  "with_settings type name x f w = (w1, Inr mw1) \<Longrightarrow> (\<And>cfg. f cfg w = (w1, Inr mw1) \<Longrightarrow> preserves P mw1) \<Longrightarrow> preserves P mw1"
  by (simp add: with_settings_def split: sum.splits)

lemma from_config:
  assumes "bu_registry b = registry" and "buildFromConfig d b name c w = (w1, Inr mw)"
  shows "preserves P mw"
  using assms(2) unfolding buildFromConfig_def Let_def assms(1)
  by (auto split: option.splits if_splits elim!: settings elim: made(1) [OF _ keeps(1)] made(1) [OF _ keeps(2)] made(1) [OF _ keeps(3)]
      made(1) [OF _ keeps(5)] made(1) [OF _ keeps(6)] made(1) [OF _ keeps(7)] made(1) [OF _ keeps(8)] made(2))

lemma legacy: "buildLegacy d b name w = (w1, Inr mw) \<Longrightarrow> preserves P mw"
  unfolding buildLegacy_def Let_def
  by (auto split: if_splits elim: made(1) [OF _ keeps(1)] made(1) [OF _ keeps(3)]
      made(1) [OF _ keeps(5)] made(1) [OF _ keeps(6)] made(1) [OF _ keeps(7)] made(1) [OF _ keeps(8)] made(2))

lemma stands: "stands_for d cfg registry name mw \<Longrightarrow> preserves P mw"
  unfolding stands_for_def using from_config legacy by blast

lemma chain: "list_all2 (stands_for d cfg registry) names mws \<Longrightarrow> P final \<Longrightarrow> P (Chain mws final)"
  by (rule preserves_Chain) (auto simp: list_all2_conv_all_nth list_all_length intro: stands)

end

interpretation contract: middleware_invariant registry http_handler for registry
  by (rule middleware_invariant.intro) (simp_all add: http_handler.middlewares)

section \<open>Every name is built once\<close>

lemma Build_again: "Build d name s = (s1, Inr mw) \<Longrightarrow> bu_cache (fst s1) name = Some mw \<and> bu_cache (fst s) \<subseteq>\<^sub>m bu_cache (fst s1)"
  by (cases s, cases rule: Build_cases [of "fst s" name d "snd s"]) (auto simp: map_le_def)

lemma Build_cached: "bu_cache (fst s) name = Some mw \<Longrightarrow> Build d name s = (s, Inr mw)"
  by (cases s) (simp add: Build_def)

lemma resolve_names_cached:
  "map (bu_cache (fst s)) names = map Some ms \<Longrightarrow> resolve_names d names mws s = (s, Inr (mws @ ms)) \<and> chain_names d names mws s = (s, Inr (mws @ ms))"
  by (induction names arbitrary: ms mws) (auto simp: Build_cached)

lemma resolve_names_all:
  assumes "resolve_names d names mws s = (s1, Inr mws1)"
  shows "\<exists>ms. mws1 = mws @ ms \<and> map (bu_cache (fst s1)) names = map Some ms \<and> bu_cache (fst s) \<subseteq>\<^sub>m bu_cache (fst s1)"
  using assms
proof (induction names arbitrary: mws s)
  case (Cons name names)
  obtain s2 y where b: "Build d name s = (s2, y)" by (metis surj_pair)
  then obtain mw where mw: "y = Inr mw" using Cons.prems by (cases y) auto
  with Cons.prems b have r: "resolve_names d names (mws @ [mw]) s2 = (s1, Inr mws1)" by simp
  from Build_again [of d name s s2 mw] b mw
  have c: "bu_cache (fst s2) name = Some mw" "bu_cache (fst s) \<subseteq>\<^sub>m bu_cache (fst s2)" by simp_all
  from Cons.IH [OF r] obtain ms where ms: "mws1 = (mws @ [mw]) @ ms" "map (bu_cache (fst s1)) names = map Some ms"
    "bu_cache (fst s2) \<subseteq>\<^sub>m bu_cache (fst s1)" by blast
  have "name \<in> dom (bu_cache (fst s2))" using c(1) by blast
  then have "bu_cache (fst s1) name = Some mw" using c(1) ms(3) unfolding map_le_def by simp
  then show ?case using ms(1,2) map_le_trans [OF c(2) ms(3)] by (intro exI [of _ "mw # ms"]) simp
qed simp

lemma resolve_names_grows:
  "resolve_names d names mws (b, w) = ((b1, w1), x) \<Longrightarrow> grows w w1 (card (set names - dom (bu_cache b)))"
proof (induction names arbitrary: mws b w)
  case (Cons name names)
  show ?case
  proof (cases rule: Build_cases [of b name d w])
    case (cached mw)
    then have "set (name # names) - dom (bu_cache b) = set names - dom (bu_cache b)" by auto
    then show ?thesis using Cons.IH [of "mws @ [mw]" b w] Cons.prems cached by simp
  next
    case (failed w2 e)
    have "Suc 0 \<le> card (set (name # names) - dom (bu_cache b))" using failed(1) by (intro Suc_leI) (auto simp: card_gt_0_iff)
    then show ?thesis using Cons.prems failed grows_mono by auto
  next
    case (made w2 mw)
    let ?b = "b\<lparr>bu_cache := (bu_cache b)(name \<mapsto> mw)\<rparr>"
    have "grows w2 w1 (card (set names - dom (bu_cache ?b)))" 
      by (rule Cons.IH [of "mws @ [mw]"]) (use Cons.prems made(3) in simp)
    moreover have dm: "dom (bu_cache ?b) = insert name (dom (bu_cache b))" by simp
    ultimately have "grows w2 w1 (card (set names - insert name (dom (bu_cache b))))" by (simp only: dm)
    from grows_trans [OF made(2) this]
    have g: "grows w w1 (Suc (card (set names - insert name (dom (bu_cache b)))))" by simp
    have "set (name # names) - dom (bu_cache b) = insert name (set names - insert name (dom (bu_cache b)))" using made(1) by auto
    then have "card (set (name # names) - dom (bu_cache b)) = Suc (card (set names - insert name (dom (bu_cache b))))" by simp
    with g show ?thesis by simp
  qed
qed simp

text \<open>
  C36. A name stands for one middleware. When a list of names has been resolved, resolving it again, by either of the two functions that do it, gives the
  same middlewares and changes nothing, so that two entrypoints that name the same rate limit share its tables; and however often a name occurs in the list, at
  most one table of limiters was made for it.
\<close>

theorem resolve_once:
  assumes "ResolveMiddlewares names d s = (s1, Inr mws)"
  shows "length mws = length names
     \<and> ResolveMiddlewares names d s1 = (s1, Inr mws) \<and> BuildChain d names s1 = (s1, Inr mws)
     \<and> (\<forall>i < length names. \<forall>j < length names. names ! i = names ! j \<longrightarrow> mws ! i = mws ! j)
     \<and> length (wo_limiters (snd s1)) \<le> length (wo_limiters (snd s)) + card (set names)"
proof -
  obtain ms where m: "map (bu_cache (fst s1)) names = map Some ms" "mws = ms"
    using resolve_names_all assms by (fastforce simp: ResolveMiddlewares_def)
  have l: "length mws = length names" using m by (metis length_map)
  have "mws ! i = mws ! j" if "i < length names" "j < length names" "names ! i = names ! j" for i j
  proof -
    have "bu_cache (fst s1) (names ! n) = Some (mws ! n)" if "n < length names" for n
      using m that l by (metis nth_map)
    with that show ?thesis by (metis option.inject)
  qed
  moreover have "grows (snd s) (snd s1) (card (set names - dom (bu_cache (fst s))))"
    using resolve_names_grows [of d names "[]" "fst s" "snd s" "fst s1" "snd s1"] assms by (simp add: ResolveMiddlewares_def)
  then have "grows (snd s) (snd s1) (card (set names))" by (rule grows_mono) (simp add: card_mono)
  then have "length (wo_limiters (snd s1)) \<le> length (wo_limiters (snd s)) + card (set names)" unfolding grows_def by force
  moreover have "ResolveMiddlewares names d s1 = (s1, Inr mws)" "BuildChain d names s1 = (s1, Inr mws)"
    using resolve_names_cached [OF m(1), of d "[]"] m(2) by (simp_all add: ResolveMiddlewares_def BuildChain_def)
  ultimately show ?thesis using l by blast
qed

definition demo_deps :: "unit Deps" where
  "demo_deps = \<lparr>de_NewLimiter = (\<lambda>rps burst. ()), de_Allow = (\<lambda>now l. (l, True)), de_opens = (\<lambda>path. True)\<rparr>"

theorem resolve_once_witness:
  "\<exists>b w mws. ResolveMiddlewares [''rate-limit'', ''headers'', ''rate-limit''] demo_deps
        (NewBuilder demo_config (Some 0), demo_world (Inr demo_answer) demo_metrics [] []) = ((b, w), Inr mws)
     \<and> mws ! 0 = mws ! 2 \<and> length (wo_limiters w) \<le> 2"
proof -
  let ?names = "[''rate-limit'', ''headers'', ''rate-limit'']"
  let ?s = "(NewBuilder demo_config (Some 0), demo_world (Inr demo_answer) demo_metrics [] [])"
  obtain b w mws where r: "ResolveMiddlewares ?names demo_deps ?s = ((b, w), Inr mws)"
    by (simp add: ResolveMiddlewares_def Build_def NewBuilder_def buildLegacy_def new_rate_limit_def built_def demo_config_def)
  from resolve_once [OF r] have e: "\<forall>i < 3. \<forall>j < 3. ?names ! i = ?names ! j \<longrightarrow> mws ! i = mws ! j"
    and l: "length (wo_limiters w) \<le> length (wo_limiters (snd ?s)) + card (set ?names)" by simp_all
  have "mws ! 0 = mws ! 2" using e [rule_format, of 0 2] by simp
  moreover have "set ?names = {''rate-limit'', ''headers''}" by auto
  then have "card (set ?names) = 2" by simp
  ultimately show ?thesis using r l by (auto simp: demo_world_def)
qed

end
