(* ===== verification/NetIP.thy ===== *)
theory NetIP
  imports GoText
begin

unbundle bit_operations_syntax

text \<open>
  IP addresses as package \<^verbatim>\<open>net\<close> reads and compares them: \<^verbatim>\<open>net.ParseIP\<close>, \<^verbatim>\<open>net.ParseCIDR\<close>, \<^verbatim>\<open>IPNet.Contains\<close> and
  \<^verbatim>\<open>IP.Equal\<close>, which the \<^verbatim>\<open>ClientIP\<close> rule calls. An address is the list of its bytes, 16 of them for the results of
  \<^verbatim>\<open>ParseIP\<close> (an IPv4 address is mapped into IPv6).
\<close>

type_synonym IP = "8 word list"

definition v4InV6Prefix :: IP where
  "v4InV6Prefix = replicate 10 0 @ [255, 255]"

section \<open>Parsing\<close>

definition is_digit :: "char \<Rightarrow> bool" where
  "is_digit c \<longleftrightarrow> 48 \<le> byte c \<and> byte c \<le> 57"

definition digit_value :: "char \<Rightarrow> nat" where
  "digit_value c = byte c - 48"

text \<open>
  \<^verbatim>\<open>parseIPv4Fields\<close>: the value and the number of digits of the current field, and the fields before it. A dot is
  refused at the ends of the string and after another dot.
\<close>

fun parseIPv4Fields :: "string \<Rightarrow> nat \<Rightarrow> nat \<Rightarrow> IP \<Rightarrow> IP option" where
  "parseIPv4Fields [] val digLen fields =
     (if length fields < 3 then None else Some (fields @ [of_nat val]))"
| "parseIPv4Fields (c # cs) val digLen fields =
     (if is_digit c
      then (if digLen = 1 \<and> val = 0 then None
            else let val1 = val * 10 + digit_value c
                 in if val1 > 255 then None else parseIPv4Fields cs val1 (digLen + 1) fields)
      else if c = CHR ''.''
      then (if digLen = 0 \<or> cs = [] then None
            else if length fields = 3 then None
            else parseIPv4Fields cs 0 0 (fields @ [of_nat val]))
      else None)"

definition is_hex :: "char \<Rightarrow> bool" where
  "is_hex c \<longleftrightarrow> is_digit c \<or> (97 \<le> byte c \<and> byte c \<le> 102) \<or> (65 \<le> byte c \<and> byte c \<le> 70)"

definition hex_value :: "char \<Rightarrow> nat" where
  "hex_value c =
     (if is_digit c then byte c - 48 else if 97 \<le> byte c then byte c - 97 + 10 else byte c - 65 + 10)"

text \<open>
  The loop of \<^verbatim>\<open>parseIPv6\<close>: \<open>n\<close> is the number of 16-bit groups that still fit, \<open>ip\<close> the bytes so far, \<open>ell\<close> the position of
  the ellipsis. It returns what is left of the string, the bytes and the position of the ellipsis.
\<close>

fun parseIPv6_loop :: "nat \<Rightarrow> string \<Rightarrow> IP \<Rightarrow> nat option \<Rightarrow> (string \<times> IP \<times> nat option) option" where
  "parseIPv6_loop 0 s ip ell = Some (s, ip, ell)"
| "parseIPv6_loop (Suc n) s ip ell =
     (let digits = takeWhile is_hex s; off = length digits; rest = drop off s;
          acc = foldl (\<lambda>a c. a * 16 + hex_value c) 0 digits
      in if off > 4 \<or> off = 0 then None
         else if rest \<noteq> [] \<and> hd rest = CHR ''.''
         then (if ell = None \<and> length ip \<noteq> 12 then None
               else if length ip + 4 > 16 then None
               else case parseIPv4Fields s 0 0 [] of
                      None \<Rightarrow> None
                    | Some v4 \<Rightarrow> Some ([], ip @ v4, ell))
         else let ip1 = ip @ [of_nat (acc div 256), of_nat acc]
              in case rest of
                   [] \<Rightarrow> Some ([], ip1, ell)
                 | c # s1 \<Rightarrow>
                     (if c \<noteq> CHR '':'' \<or> s1 = [] then None
                      else if hd s1 = CHR '':''
                      then (if ell \<noteq> None then None
                            else if tl s1 = [] then Some ([], ip1, Some (length ip1))
                            else parseIPv6_loop n (tl s1) ip1 (Some (length ip1)))
                      else parseIPv6_loop n s1 ip1 ell))"

text \<open>A scoped address, with a zone after a percent sign, parses as an address that \<^verbatim>\<open>net\<close> refuses.\<close>

definition parseIPv6 :: "string \<Rightarrow> IP option" where
  "parseIPv6 s =
     (if CHR ''%'' \<in> set s then None
      else let lead = (take 2 s = ''::'');
               s1 = (if lead then drop 2 s else s)
           in if lead \<and> s1 = [] then Some (replicate 16 0)
              else case parseIPv6_loop 8 s1 [] (if lead then Some 0 else None) of
                     None \<Rightarrow> None
                   | Some (rest, ip, ell) \<Rightarrow>
                       (if rest \<noteq> [] then None
                        else if length ip < 16
                        then (case ell of
                                None \<Rightarrow> None
                              | Some e \<Rightarrow> Some (take e ip @ replicate (16 - length ip) 0 @ drop e ip))
                        else if ell \<noteq> None then None else Some ip))"

datatype Addr = Addr4 IP | Addr6 IP

text \<open>\<^verbatim>\<open>netip.ParseAddr\<close>, without zones: the first dot, colon or percent sign decides the kind.\<close>

definition ParseAddr :: "string \<Rightarrow> Addr option" where
  "ParseAddr s =
     (case find (\<lambda>c. c = CHR ''.'' \<or> c = CHR '':'' \<or> c = CHR ''%'') s of
        Some c \<Rightarrow>
          (if c = CHR ''.'' then map_option Addr4 (parseIPv4Fields s 0 0 [])
           else if c = CHR '':'' then map_option Addr6 (parseIPv6 s) else None)
      | None \<Rightarrow> None)"

fun As16 :: "Addr \<Rightarrow> IP" where
  "As16 (Addr4 b) = v4InV6Prefix @ b"
| "As16 (Addr6 b) = b"

fun BitLen :: "Addr \<Rightarrow> nat" where
  "BitLen (Addr4 b) = 32"
| "BitLen (Addr6 b) = 128"

definition ParseIP :: "string \<Rightarrow> IP option" where
  "ParseIP s = map_option As16 (ParseAddr s)"

definition To4 :: "IP \<Rightarrow> IP option" where
  "To4 ip =
     (if length ip = 4 then Some ip
      else if length ip = 16 \<and> take 12 ip = v4InV6Prefix then Some (drop 12 ip) else None)"

text \<open>\<^verbatim>\<open>dtoi\<close>: a decimal number below \<^verbatim>\<open>0xFFFFFF\<close> that takes up the whole string.\<close>

fun dtoi :: "string \<Rightarrow> nat \<Rightarrow> nat option" where
  "dtoi [] n = Some n"
| "dtoi (c # cs) n =
     (if \<not> is_digit c then None
      else let n1 = n * 10 + digit_value c in if n1 \<ge> 16777215 then None else dtoi cs n1)"

fun CIDRMask :: "nat \<Rightarrow> nat \<Rightarrow> IP" where
  "CIDRMask n 0 = []"
| "CIDRMask n (Suc l) =
     (if n \<ge> 8 then 255 # CIDRMask (n - 8) l else NOT (drop_bit n 255) # CIDRMask 0 l)"

record IPNet =
  in_IP :: IP
  in_Mask :: IP

text \<open>\<^verbatim>\<open>ip.Mask(m)\<close> for a 16-byte address: with a 4-byte mask, only the IPv4 part is kept.\<close>

definition IP_Mask :: "IP \<Rightarrow> IP \<Rightarrow> IP" where
  "IP_Mask ip m = map2 (AND) (if length m = 4 \<and> take 12 ip = v4InV6Prefix then drop 12 ip else ip) m"

definition ParseCIDR :: "string \<Rightarrow> IPNet option" where
  "ParseCIDR s =
     (case IndexByte s CHR ''/'' of
        None \<Rightarrow> None
      | Some i \<Rightarrow>
          (let mask = drop (i + 1) s
           in case ParseAddr (take i s) of
                None \<Rightarrow> None
              | Some a \<Rightarrow>
                  (case (if mask = [] then None else dtoi mask 0) of
                     None \<Rightarrow> None
                   | Some n \<Rightarrow>
                       (if n > BitLen a then None
                        else let m = CIDRMask n (BitLen a div 8)
                             in Some \<lparr>in_IP = IP_Mask (As16 a) m, in_Mask = m\<rparr>))))"

definition Contains :: "IPNet \<Rightarrow> IP \<Rightarrow> bool" where
  "Contains net ip =
     (let nn = (case To4 (in_IP net) of Some x \<Rightarrow> x | None \<Rightarrow> in_IP net);
          m = (if length nn = 4 \<and> length (in_Mask net) = 16 then drop 12 (in_Mask net) else in_Mask net);
          x = (case To4 ip of Some y \<Rightarrow> y | None \<Rightarrow> ip)
      in length x = length nn \<and> map2 (AND) nn m = map2 (AND) x m)"

definition IP_Equal :: "IP \<Rightarrow> IP \<Rightarrow> bool" where
  "IP_Equal ip x =
     (if length ip = length x then ip = x
      else if length ip = 4 \<and> length x = 16 then take 12 x = v4InV6Prefix \<and> ip = drop 12 x
      else if length ip = 16 \<and> length x = 4 then take 12 ip = v4InV6Prefix \<and> drop 12 ip = x
      else False)"

section \<open>Bits\<close>

text \<open>The bits of an address, the most significant one first.\<close>

definition byte_bits :: "8 word \<Rightarrow> bool list" where
  "byte_bits b = map (\<lambda>i. bit b (7 - i)) [0 ..< 8]"

definition ip_bits :: "IP \<Rightarrow> bool list" where
  "ip_bits ip = concat (map byte_bits ip)"

lemma length_byte_bits [simp]: "length (byte_bits b) = 8"
  by (simp add: byte_bits_def)

lemma ip_bits_simps [simp]: "ip_bits [] = []" "ip_bits (b # ip) = byte_bits b @ ip_bits ip"
  by (simp_all add: ip_bits_def)

lemma reflect_all: "n \<le> 8 \<Longrightarrow> (\<forall>i < n. P (7 - i)) \<longleftrightarrow> (\<forall>j < 8. 8 \<le> n + j \<longrightarrow> P j)" for P :: "nat \<Rightarrow> bool"
proof safe
  fix j assume "\<forall>i < n. P (7 - i)" and "j < 8" "8 \<le> n + j"
  moreover have "7 - j < n" using \<open>8 \<le> n + j\<close> \<open>j < 8\<close> by linarith
  moreover have "7 - (7 - j) = j" using \<open>j < 8\<close> by linarith
  ultimately show "P j" by metis
next
  fix i assume h: "n \<le> 8" "\<forall>j < 8. 8 \<le> n + j \<longrightarrow> P j" "i < n"
  then have "7 - i < 8" and "8 \<le> n + (7 - i)" by linarith+
  with h(2) show "P (7 - i)" by blast
qed

lemma byte_bits_take_eq:
  "n \<le> 8 \<Longrightarrow> take n (byte_bits a) = take n (byte_bits b) \<longleftrightarrow> (\<forall>j < 8. 8 \<le> n + j \<longrightarrow> bit a j = bit b j)"
  using reflect_all [of n "\<lambda>j. bit a j = bit b j"] by (auto simp: byte_bits_def take_map min_def)

lemma byte_bits_inject [simp]: "byte_bits a = byte_bits b \<longleftrightarrow> a = b"
  using byte_bits_take_eq [of 8 a b] by (auto intro: bit_word_eqI)

lemma byte_255: "(255 :: 8 word) = mask 8"
  by (simp add: mask_eq_exp_minus_1)

lemma byte_masked_eq:
  assumes "n < 8"
  shows "(a :: 8 word) AND NOT (drop_bit n 255) = b AND NOT (drop_bit n 255)
     \<longleftrightarrow> take n (byte_bits a) = take n (byte_bits b)"
proof -
  have "a AND NOT (drop_bit n 255) = b AND NOT (drop_bit n 255)
      \<longleftrightarrow> (\<forall>j < 8. 8 \<le> n + j \<longrightarrow> bit a j = bit b j)"
    unfolding byte_255 by (auto simp: bit_eq_iff bit_simps)
  with byte_bits_take_eq [of n a b] assms show ?thesis by simp
qed

lemma masked_bits:
  assumes "length a = l" and "length b = l" and "n \<le> 8 * l"
  shows "map2 (AND) a (CIDRMask n l) = map2 (AND) b (CIDRMask n l) \<longleftrightarrow> take n (ip_bits a) = take n (ip_bits b)"
  using assms
proof (induction l arbitrary: a b n)
  case (Suc l)
  obtain x a' where a: "a = x # a'" using Suc.prems(1) by (cases a) auto
  obtain y b' where b: "b = y # b'" using Suc.prems(2) by (cases b) auto
  show ?case
  proof (cases "8 \<le> n")
    case True
    have ff: "z AND 255 = z" for z :: "8 word"
      unfolding byte_255 by (rule bit_word_eqI) (simp add: bit_simps)
    show ?thesis using Suc.IH [of a' b' "n - 8"] Suc.prems True by (simp add: a b ff)
  next
    case False
    have "map2 (AND) a' (CIDRMask 0 l) = map2 (AND) b' (CIDRMask 0 l)"
      using Suc.IH [of a' b' 0] Suc.prems by (simp add: a b)
    then show ?thesis using False byte_masked_eq [of n x y] by (simp add: a b)
  qed
qed simp

lemma length_CIDRMask [simp]: "length (CIDRMask n l) = l"
  by (induction n l rule: CIDRMask.induct) auto

lemma masked_again:
  "length a = length m \<Longrightarrow> map2 (AND) (map2 (AND) a m) m = (map2 (AND) a m :: IP)"
  by (induction a m rule: list_induct2) (auto simp: and.assoc)

lemma Contains_v4:
  assumes "length a = 4" and "length b = 4" and "n \<le> 32"
  shows "Contains \<lparr>in_IP = IP_Mask (v4InV6Prefix @ a) (CIDRMask n 4), in_Mask = CIDRMask n 4\<rparr> (v4InV6Prefix @ b)
     \<longleftrightarrow> take n (ip_bits a) = take n (ip_bits b)"
  using masked_bits [of a 4 b n] masked_again [of a "CIDRMask n 4"] assms
  by (simp add: Contains_def IP_Mask_def To4_def v4InV6Prefix_def)

section \<open>Reading what was printed\<close>

text \<open>The dotted decimal form of an IPv4 address.\<close>

definition print_v4 :: "IP \<Rightarrow> string" where
  "print_v4 ip = strings_Join (map (\<lambda>b. nat_digits (unat b)) ip) ''.''"

lemma digit_char [simp]:
  "d < 10 \<Longrightarrow> is_digit (char_of (48 + d))" "d < 10 \<Longrightarrow> digit_value (char_of (48 + d)) = d"
  by (simp_all add: is_digit_def digit_value_def byte_def)

lemma nat_digits_byte:
  "v < 10 \<Longrightarrow> nat_digits v = [char_of (48 + v)]"
  "10 \<le> v \<Longrightarrow> v < 100 \<Longrightarrow> nat_digits v = [char_of (48 + v div 10), char_of (48 + v mod 10)]"
  "100 \<le> v \<Longrightarrow> v < 1000 \<Longrightarrow>
     nat_digits v = [char_of (48 + v div 10 div 10), char_of (48 + v div 10 mod 10), char_of (48 + v mod 10)]"
proof -
  show "v < 10 \<Longrightarrow> nat_digits v = [char_of (48 + v)]" for v
    by (simp add: nat_digits.simps)
  then show two: "10 \<le> v \<Longrightarrow> v < 100 \<Longrightarrow> nat_digits v = [char_of (48 + v div 10), char_of (48 + v mod 10)]" for v
    by (simp add: nat_digits.simps [of v])
  show "nat_digits v = [char_of (48 + v div 10 div 10), char_of (48 + v div 10 mod 10), char_of (48 + v mod 10)]"
    if "100 \<le> v" "v < 1000"
    using that two [of "v div 10"] by (simp add: nat_digits.simps [of v])
qed

lemma parse_byte:
  assumes "v \<le> 255"
  shows "parseIPv4Fields (nat_digits v @ s) 0 0 fs = parseIPv4Fields s v (length (nat_digits v)) fs"
proof -
  consider "v < 10" | "10 \<le> v" "v < 100" | "100 \<le> v" "v < 1000" using assms by linarith
  then show ?thesis
  proof cases
    case 1
    then show ?thesis by (simp add: nat_digits_byte)
  next
    case 2
    define x y where "x = v div 10" and "y = v mod 10"
    have v: "v = x * 10 + y" and xy: "0 < x" "x < 10" "y < 10" using 2 by (auto simp: x_def y_def)
    have "nat_digits v = [char_of (48 + x), char_of (48 + y)]" using 2 by (simp add: nat_digits_byte x_def y_def)
    with xy show ?thesis by (simp add: v)
  next
    case 3
    define x y z where "x = v div 10 div 10" and "y = v div 10 mod 10" and "z = v mod 10"
    have v: "v = (x * 10 + y) * 10 + z" and xy: "0 < x" "x < 10" "y < 10" "z < 10"
      using 3 by (auto simp: x_def y_def z_def)
    have "nat_digits v = [char_of (48 + x), char_of (48 + y), char_of (48 + z)]"
      using 3 by (simp add: nat_digits_byte x_def y_def z_def)
    with xy assms show ?thesis by (simp add: v)
  qed
qed

lemma nat_digits_nonempty [simp]: "nat_digits v \<noteq> []"
  by (subst nat_digits.simps) simp

lemma parse_print_v4:
  assumes "length ip = 4"
  shows "parseIPv4Fields (print_v4 ip) 0 0 [] = Some ip"
proof -
  obtain a b c d where ip: "ip = [a, b, c, d]" using assms by (auto simp: numeral_eq_Suc length_Suc_conv)
  have le: "unat (x :: 8 word) \<le> 255" for x using unsigned_less [where ?'a = nat, of x] by simp
  have dot: "\<not> is_digit CHR ''.''" by (simp add: is_digit_def byte_def)
  have "parseIPv4Fields (nat_digits (unat d) @ []) 0 0 fs = parseIPv4Fields [] (unat d) (length (nat_digits (unat d))) fs" for fs
    by (rule parse_byte [OF le])
  then have last: "parseIPv4Fields (nat_digits (unat d)) 0 0 fs = parseIPv4Fields [] (unat d) (length (nat_digits (unat d))) fs" for fs
    by simp
  show ?thesis by (simp add: ip print_v4_def parse_byte [OF le] last dot)
qed

lemma nat_digits_digit: "c \<in> set (nat_digits v) \<Longrightarrow> is_digit c"
proof (induction v rule: nat_digits.induct)
  case (1 v)
  then show ?case by (cases "v < 10") (auto simp: nat_digits.simps [of v])
qed

lemma print_v4_chars: "c \<in> set (print_v4 ip) \<Longrightarrow> is_digit c \<or> c = CHR ''.''"
proof -
  have "c \<in> set (strings_Join xs ''.'') \<Longrightarrow> (\<exists>x \<in> set xs. c \<in> set x) \<or> c = CHR ''.''" for xs
    by (induction xs "''.''" rule: strings_Join.induct) auto
  from this [of "map (\<lambda>b. nat_digits (unat b)) ip"]
  show "c \<in> set (print_v4 ip) \<Longrightarrow> ?thesis" by (auto simp: print_v4_def dest: nat_digits_digit)
qed

lemma ParseAddr_print_v4:
  assumes "length ip = 4"
  shows "ParseAddr (print_v4 ip) = Some (Addr4 ip)"
proof -
  obtain a b c d where ip: "ip = [a, b, c, d]" using assms by (auto simp: numeral_eq_Suc length_Suc_conv)
  let ?P = "\<lambda>c. c = CHR ''.'' \<or> c = CHR '':'' \<or> c = CHR ''%''"
  have "\<exists>x \<in> set (print_v4 ip). ?P x" by (simp add: ip print_v4_def)
  moreover have "x = CHR ''.''" if "x \<in> set (print_v4 ip)" "?P x" for x
    using print_v4_chars [OF that(1)] that(2) by (auto simp: is_digit_def byte_def)
  moreover have "find ?P xs = Some y" if "\<exists>x \<in> set xs. ?P x" "\<And>x. x \<in> set xs \<Longrightarrow> ?P x \<Longrightarrow> x = y" for xs y
    using that by (induction xs) auto
  ultimately have "find ?P (print_v4 ip) = Some CHR ''.''" by blast
  then show ?thesis using parse_print_v4 [OF assms] by (simp add: ParseAddr_def)
qed

lemma dtoi_digits: "n < 100 \<Longrightarrow> dtoi (nat_digits n) 0 = Some n"
proof (cases "n < 10")
  case False
  moreover assume "n < 100"
  moreover have "n div 10 * 10 + n mod 10 = n" by simp
  ultimately show ?thesis by (simp add: nat_digits_byte Let_def)
qed (simp add: nat_digits_byte Let_def)

lemma ParseCIDR_print_v4:
  assumes "length ip = 4" and "n \<le> 32"
  shows "ParseCIDR (print_v4 ip @ ''/'' @ nat_digits n)
     = Some \<lparr>in_IP = IP_Mask (v4InV6Prefix @ ip) (CIDRMask n 4), in_Mask = CIDRMask n 4\<rparr>"
proof -
  have "CHR ''/'' \<notin> set (print_v4 ip)"
    using print_v4_chars [of "CHR ''/''" ip] by (auto simp: is_digit_def byte_def)
  then have "IndexByte (print_v4 ip @ ''/'' @ nat_digits n) CHR ''/'' = Some (length (print_v4 ip))"
    by (simp add: IndexByte_append)
  then show ?thesis
    using ParseAddr_print_v4 [OF assms(1)] assms(2) dtoi_digits [of n] by (simp add: ParseCIDR_def Let_def)
qed

end
