(* ===== verification/Matcher.thy ===== *)
theory Matcher
  imports Http NetIP
begin

text \<open>
  The matchers of a routing rule, \<^verbatim>\<open>src/internal/router/matcher.go\<close>: functions from requests to \<open>bool\<close>, as in the code.
  The claim is about \<^verbatim>\<open>ClientIP\<close>, which parses addresses and networks from text.
\<close>

type_synonym MatcherFunc = "Request \<Rightarrow> bool"

definition MatchPathPrefix :: "string \<Rightarrow> MatcherFunc" where
  "MatchPathPrefix prefix = (\<lambda>req. HasPrefix (rq_Path req) prefix)"

definition MatchPath :: "string \<Rightarrow> MatcherFunc" where
  "MatchPath path = (\<lambda>req. rq_Path req = path)"

definition MatchMethod :: "string \<Rightarrow> MatcherFunc" where
  "MatchMethod method = (let method = ToUpper method in (\<lambda>req. rq_Method req = method))"

definition MatchHeader :: "string \<Rightarrow> string \<Rightarrow> MatcherFunc" where
  "MatchHeader key value = (\<lambda>req. Header_Get (rq_Header req) key = value)"

definition getClientIP :: "Request \<Rightarrow> string" where
  "getClientIP req =
     (let realIP = Header_Get (rq_Header req) ''X-Real-IP''
      in if realIP \<noteq> [] then realIP
         else case SplitHostPort (rq_RemoteAddr req) of
                Inr host \<Rightarrow> host
              | Inl e \<Rightarrow> rq_RemoteAddr req)"

definition MatchClientIP :: "string \<Rightarrow> MatcherFunc" where
  "MatchClientIP ipRange =
     (case ParseCIDR ipRange of
        Some ipNet \<Rightarrow>
          (\<lambda>req. case ParseIP (getClientIP req) of None \<Rightarrow> False | Some parsedIP \<Rightarrow> Contains ipNet parsedIP)
      | None \<Rightarrow>
          (case ParseIP ipRange of
             Some expectedIP \<Rightarrow>
               (\<lambda>req. case ParseIP (getClientIP req) of None \<Rightarrow> False | Some ip \<Rightarrow> IP_Equal expectedIP ip)
           | None \<Rightarrow> (\<lambda>req. False)))"

definition MatchAnd :: "MatcherFunc \<Rightarrow> MatcherFunc \<Rightarrow> MatcherFunc" where
  "MatchAnd left right = (\<lambda>req. left req \<and> right req)"

definition MatchOr :: "MatcherFunc \<Rightarrow> MatcherFunc \<Rightarrow> MatcherFunc" where
  "MatchOr left right = (\<lambda>req. left req \<or> right req)"

section \<open>Client addresses\<close>

lemma getClientIP_v4:
  assumes "Header_Get (rq_Header req) ''X-Real-IP'' = []"
    and "rq_RemoteAddr req = print_v4 b @ '':'' @ nat_digits port"
  shows "getClientIP req = print_v4 b"
proof -
  have no: "c \<notin> set (print_v4 b)" "c \<notin> set (nat_digits port)" if "\<not> is_digit c" "c \<noteq> CHR ''.''" for c
    using that print_v4_chars nat_digits_digit by blast+
  have "SplitHostPort (print_v4 b @ CHR '':'' # nat_digits port) = Inr (print_v4 b)"
    by (rule SplitHostPort_host) (auto simp: no is_digit_def byte_def)
  with assms show ?thesis by (simp add: getClientIP_def)
qed

text \<open>
  A rule \<^verbatim>\<open>ClientIP('a.b.c.d/n')\<close> means what its notation says: for an IPv4 network of \<open>n\<close> bits in dotted decimal notation
  and a request that comes from an IPv4 address (no \<^verbatim>\<open>X-Real-IP\<close> header), it matches exactly when the first \<open>n\<close> bits of the
  two addresses agree. The path from the text of the rule to the comparison of masked bytes is included.
\<close>

theorem client_ip_network:
  assumes "length a = 4" and "length b = 4" and "n \<le> 32"
    and "Header_Get (rq_Header req) ''X-Real-IP'' = []"
    and "rq_RemoteAddr req = print_v4 b @ '':'' @ nat_digits port"
  shows "MatchClientIP (print_v4 a @ ''/'' @ nat_digits n) req \<longleftrightarrow> take n (ip_bits a) = take n (ip_bits b)"
  using ParseCIDR_print_v4 [OF assms(1,3)] getClientIP_v4 [OF assms(4,5)] ParseAddr_print_v4 [OF assms(2)]
    Contains_v4 [OF assms(1,2,3)]
  by (simp add: MatchClientIP_def ParseIP_def)

definition demo_request :: Request where
  "demo_request =
     \<lparr>rq_Method = ''GET'', rq_Path = ''/api/users'', rq_RequestURI = ''/api/users?x=1'', rq_Host = ''example.org'',
      rq_RemoteAddr = ''10.1.255.3:5050'', rq_TLS = False, rq_Header = Map.empty, rq_Body = NoBody, rq_ctx = background\<rparr>"

theorem client_ip_network_witness:
  "MatchClientIP (print_v4 [10, 1, 0, 0] @ ''/'' @ nat_digits 16) demo_request
   \<and> \<not> MatchClientIP (print_v4 [10, 1, 0, 0] @ ''/'' @ nat_digits 17) demo_request"
proof -
  have r: "rq_RemoteAddr demo_request = print_v4 [10, 1, 255, 3] @ '':'' @ nat_digits 5050"
    by (simp add: demo_request_def print_v4_def nat_digits.simps char_of_def bit_Suc_0_iff)
  have h: "Header_Get (rq_Header demo_request) ''X-Real-IP'' = []"
    by (simp add: demo_request_def Header_Get_def)
  show ?thesis
    using client_ip_network [OF _ _ _ h r, of "[10, 1, 0, 0]" 16] client_ip_network [OF _ _ _ h r, of "[10, 1, 0, 0]" 17]
    by (simp add: byte_bits_def upt_rec)
qed

end
