(* ===== verification/Rule.thy ===== *)
theory Rule
  imports Matcher
begin

text \<open>
  The rule language, \<^verbatim>\<open>src/internal/router/rule.go\<close>: the lexer with its position in the input, the recursive-descent
  parser, and the construction of matchers from text. The parser functions take a number that bounds the
  depth of calls; \<open>ParseRule\<close> supplies one that is always enough (\<open>parse_fuel_enough\<close>). The claims: the parser
  accepts exactly the sentences of its grammar and builds the matcher the derivation prescribes, and it
  reads back every printed rule.
\<close>

section \<open>The lexer\<close>

datatype TokenType = TokenEOF | TokenAnd | TokenOr | TokenLParen | TokenRParen | TokenMatcher

record Token =
  tk_Type :: TokenType
  tk_Value :: string

record lexer =
  lx_input :: string
  lx_pos :: nat

definition quoted :: "string \<Rightarrow> string" where
  "quoted s = CHR 0x27 # s @ [CHR 0x27]"

text \<open>Indices that the code reads at are checked as in Go.\<close>

function skip_loop :: "string \<Rightarrow> nat \<Rightarrow> nat result" where
  "skip_loop input pos =
     (if pos < length input
      then go_then (go_at input pos) (\<lambda>c. if IsSpace c then skip_loop input (pos + 1) else Inr pos)
      else Inr pos)"
  by pat_completeness auto
termination by (relation "measure (\<lambda>(input, pos). length input - pos)") auto

definition skipWhitespace :: "lexer \<Rightarrow> lexer result" where
  "skipWhitespace l = go_then (skip_loop (lx_input l) (lx_pos l)) (\<lambda>pos. Inr (l\<lparr>lx_pos := pos\<rparr>))"

text \<open>The loop of \<^verbatim>\<open>readMatcher\<close>; \<open>None\<close> is the exit with the error, by the end of the input or by the \<^verbatim>\<open>break\<close>.\<close>

function read_loop :: "string \<Rightarrow> nat \<Rightarrow> nat \<Rightarrow> bool \<Rightarrow> char \<Rightarrow> nat option result" where
  "read_loop input start pos inQuotes quoteChar =
     (if \<not> pos < length input then Inr None
      else go_then (go_at input pos) (\<lambda>c.
             if inQuotes
             then (if c = quoteChar then read_loop input start (pos + 1) False quoteChar
                   else read_loop input start (pos + 1) True quoteChar)
             else if c = CHR 0x27 \<or> c = CHR 0x22 then read_loop input start (pos + 1) True c
             else if c = CHR '')'' then Inr (Some (pos + 1))
             else if (c = CHR ''('' \<or> c = CHR ''&'' \<or> c = CHR ''|'') \<and> c = CHR ''('' \<and> pos = start then Inr None
             else read_loop input start (pos + 1) False quoteChar))"
  by pat_completeness auto
termination by (relation "measure (\<lambda>(input, start, pos, q, c). length input - pos)") auto

declare skip_loop.simps [simp del] read_loop.simps [simp del]

definition readMatcher :: "lexer \<Rightarrow> (Token \<times> lexer) result" where
  "readMatcher l =
     (let start = lx_pos l
      in go_then (read_loop (lx_input l) start start False CHR 0x00) (\<lambda>end.
           case end of
             Some pos \<Rightarrow> go_then (go_range (lx_input l) start pos) (\<lambda>v. Inr (\<lparr>tk_Type = TokenMatcher, tk_Value = v\<rparr>, l\<lparr>lx_pos := pos\<rparr>))
           | None \<Rightarrow> Inl (GoError (''unterminated matcher starting at position '' @ Itoa (int start)))))"

text \<open>\<^verbatim>\<open>c == ch && l.pos+1 < len(l.input) && l.input[l.pos+1] == ch\<close>, evaluated from the left.\<close>

definition doubled :: "char \<Rightarrow> string \<Rightarrow> nat \<Rightarrow> char \<Rightarrow> bool result" where
  "doubled ch input pos c =
     (if c = ch \<and> pos + 1 < length input then go_then (go_at input (pos + 1)) (\<lambda>d. Inr (d = ch)) else Inr False)"

definition nextToken :: "lexer \<Rightarrow> (Token \<times> lexer) result" where
  "nextToken l0 =
     go_then (skipWhitespace l0) (\<lambda>l.
       let input = lx_input l; pos = lx_pos l
       in if pos \<ge> length input then Inr (\<lparr>tk_Type = TokenEOF, tk_Value = []\<rparr>, l)
          else go_then (go_at input pos) (\<lambda>c.
            if c = CHR ''('' then Inr (\<lparr>tk_Type = TokenLParen, tk_Value = ''(''\<rparr>, l\<lparr>lx_pos := pos + 1\<rparr>)
            else if c = CHR '')'' then Inr (\<lparr>tk_Type = TokenRParen, tk_Value = '')''\<rparr>, l\<lparr>lx_pos := pos + 1\<rparr>)
            else go_then (doubled CHR ''&'' input pos c) (\<lambda>conj.
              if conj then Inr (\<lparr>tk_Type = TokenAnd, tk_Value = ''&&''\<rparr>, l\<lparr>lx_pos := pos + 2\<rparr>)
              else go_then (doubled CHR ''|'' input pos c) (\<lambda>disj.
                if disj then Inr (\<lparr>tk_Type = TokenOr, tk_Value = ''||''\<rparr>, l\<lparr>lx_pos := pos + 2\<rparr>)
                else if IsLetter c then readMatcher l
                else Inl (GoError (''unexpected character '' @ quoted (rune_string c) @ '' at position '' @ Itoa (int pos)))))))"

section \<open>Building a matcher\<close>

fun args_loop :: "string \<Rightarrow> string list \<Rightarrow> string \<Rightarrow> bool \<Rightarrow> char \<Rightarrow> (string list \<times> string \<times> bool)" where
  "args_loop [] args current inQuotes quoteChar = (args, current, inQuotes)"
| "args_loop (c # cs) args current inQuotes quoteChar =
     (if inQuotes
      then (if c = quoteChar then args_loop cs args current False quoteChar
            else args_loop cs args (current @ [c]) True quoteChar)
      else if c = CHR 0x27 \<or> c = CHR 0x22 then args_loop cs args current True c
      else if c = CHR '','' then args_loop cs (args @ [TrimSpace current]) [] False quoteChar
      else args_loop cs args (current @ [c]) False quoteChar)"

definition parseArgs :: "string \<Rightarrow> string list result" where
  "parseArgs s =
     (if TrimSpace s = [] then Inr []
      else let (args, current, inQuotes) = args_loop s [] [] False CHR 0x00
           in if inQuotes then Inl (GoError ''unterminated string literal in arguments'')
              else Inr (if length current > 0 then args @ [TrimSpace current] else args))"

text \<open>The \<^verbatim>\<open>switch\<close> on the name.\<close>

definition matcher_named :: "string \<Rightarrow> string list \<Rightarrow> MatcherFunc result" where
  "matcher_named name args =
     (if name = ''PathPrefix''
      then (if length args \<noteq> 1 then Inl (GoError ''PathPrefix expects 1 argument'')
            else go_then (go_at args 0) (\<lambda>a. Inr (MatchPathPrefix a)))
      else if name = ''Path''
      then (if length args \<noteq> 1 then Inl (GoError ''Path expects 1 argument'')
            else go_then (go_at args 0) (\<lambda>a. Inr (MatchPath a)))
      else if name = ''Method''
      then (if length args \<noteq> 1 then Inl (GoError ''Method expects 1 argument'')
            else go_then (go_at args 0) (\<lambda>a. Inr (MatchMethod a)))
      else if name = ''Header''
      then (if length args \<noteq> 2 then Inl (GoError ''Header expects 2 arguments'')
            else go_then (go_at args 0) (\<lambda>a. go_then (go_at args 1) (\<lambda>b. Inr (MatchHeader a b))))
      else if name = ''ClientIP''
      then (if length args \<noteq> 1 then Inl (GoError ''ClientIP expects 1 argument'')
            else go_then (go_at args 0) (\<lambda>a. Inr (MatchClientIP a)))
      else Inl (GoError (''unknown matcher: '' @ name)))"

definition createMatcher :: "string \<Rightarrow> MatcherFunc result" where
  "createMatcher s =
     (case IndexByte s CHR ''('' of
        None \<Rightarrow> Inl (GoError (''invalid matcher syntax: '' @ s))
      | Some idx \<Rightarrow>
          (if \<not> HasSuffix s '')'' then Inl (GoError (''invalid matcher syntax: '' @ s))
           else go_then (go_range s 0 idx) (\<lambda>before.
                go_then (go_range s (idx + 1) (length s - 1)) (\<lambda>inner.
                let name = TrimSpace before; argsStr = TrimSpace inner
                in case parseArgs argsStr of Inl e \<Rightarrow> Inl e | Inr args \<Rightarrow> matcher_named name args))))"

section \<open>The parser\<close>

record parser =
  pa_lex :: lexer
  pa_curTok :: Token

definition parser_next :: "parser \<Rightarrow> parser result" where
  "parser_next p =
     (case nextToken (pa_lex p) of
        Inl e \<Rightarrow> Inl e
      | Inr (t, l) \<Rightarrow> Inr \<lparr>pa_lex = l, pa_curTok = t\<rparr>)"

text \<open>
  \<^verbatim>\<open>if err != nil { return nil, err }\<close> after a call. A call returns \<open>None\<close> when the bound on the depth is exceeded.
\<close>

definition and_then :: "'a result option \<Rightarrow> ('a \<Rightarrow> 'b result option) \<Rightarrow> 'b result option" where
  "and_then x f = (case x of None \<Rightarrow> None | Some (Inl e) \<Rightarrow> Some (Inl e) | Some (Inr y) \<Rightarrow> f y)"

fun parseExpression :: "nat \<Rightarrow> parser \<Rightarrow> (MatcherFunc \<times> parser) result option"
  and expression_loop :: "nat \<Rightarrow> MatcherFunc \<Rightarrow> parser \<Rightarrow> (MatcherFunc \<times> parser) result option"
  and parseTerm :: "nat \<Rightarrow> parser \<Rightarrow> (MatcherFunc \<times> parser) result option"
  and term_loop :: "nat \<Rightarrow> MatcherFunc \<Rightarrow> parser \<Rightarrow> (MatcherFunc \<times> parser) result option"
  and parseFactor :: "nat \<Rightarrow> parser \<Rightarrow> (MatcherFunc \<times> parser) result option" where
  "parseExpression 0 p = None"
| "parseExpression (Suc n) p = and_then (parseTerm n p) (\<lambda>(m, p1). expression_loop n m p1)"
| "expression_loop 0 m p = None"
| "expression_loop (Suc n) m p =
     (if tk_Type (pa_curTok p) = TokenOr
      then and_then (Some (parser_next p)) (\<lambda>p1.
           and_then (parseTerm n p1) (\<lambda>(right, p2). expression_loop n (MatchOr m right) p2))
      else Some (Inr (m, p)))"
| "parseTerm 0 p = None"
| "parseTerm (Suc n) p = and_then (parseFactor n p) (\<lambda>(m, p1). term_loop n m p1)"
| "term_loop 0 m p = None"
| "term_loop (Suc n) m p =
     (if tk_Type (pa_curTok p) = TokenAnd
      then and_then (Some (parser_next p)) (\<lambda>p1.
           and_then (parseFactor n p1) (\<lambda>(right, p2). term_loop n (MatchAnd m right) p2))
      else Some (Inr (m, p)))"
| "parseFactor 0 p = None"
| "parseFactor (Suc n) p =
     (if tk_Type (pa_curTok p) = TokenLParen
      then and_then (Some (parser_next p)) (\<lambda>p1.
           and_then (parseExpression n p1) (\<lambda>(m, p2).
             if tk_Type (pa_curTok p2) \<noteq> TokenRParen
             then Some (Inl (GoError (''expected ')', got '' @ quoted (tk_Value (pa_curTok p2)))))
             else and_then (Some (parser_next p2)) (\<lambda>p3. Some (Inr (m, p3)))))
      else if tk_Type (pa_curTok p) = TokenMatcher
      then and_then (Some (createMatcher (tk_Value (pa_curTok p)))) (\<lambda>m.
           and_then (Some (parser_next p)) (\<lambda>p1. Some (Inr (m, p1))))
      else Some (Inl (GoError (''unexpected token '' @ quoted (tk_Value (pa_curTok p)) @ '', expected a rule or '' @ quoted ''(''))))"

definition parse_fuel :: "string \<Rightarrow> nat" where
  "parse_fuel rule = 3 * length rule + 6"

definition ParseRule :: "string \<Rightarrow> MatcherFunc result" where
  "ParseRule rule =
     (case parser_next \<lparr>pa_lex = \<lparr>lx_input = rule, lx_pos = 0\<rparr>, pa_curTok = \<lparr>tk_Type = TokenEOF, tk_Value = []\<rparr>\<rparr> of
        Inl e \<Rightarrow> Inl e
      | Inr p \<Rightarrow>
          (case parseExpression (parse_fuel rule) p of
             None \<Rightarrow> Inl (GoPanic ''parser depth'')
           | Some (Inl e) \<Rightarrow> Inl e
           | Some (Inr (m, p1)) \<Rightarrow>
               (if tk_Type (pa_curTok p1) \<noteq> TokenEOF
                then Inl (GoError (''unexpected token '' @ quoted (tk_Value (pa_curTok p1)) @ '' at end of rule''))
                else Inr m)))"

section \<open>No access is out of bounds\<close>

text \<open>The loops as pure functions, and the lexer without the checks, which always succeed.\<close>

function skip_from :: "string \<Rightarrow> nat \<Rightarrow> nat" where
  "skip_from input pos = (if pos < length input \<and> IsSpace (input ! pos) then skip_from input (pos + 1) else pos)"
  by pat_completeness auto
termination by (relation "measure (\<lambda>(input, pos). length input - pos)") auto

function read_from :: "string \<Rightarrow> nat \<Rightarrow> nat \<Rightarrow> bool \<Rightarrow> char \<Rightarrow> nat option" where
  "read_from input start pos q ch =
     (if \<not> pos < length input then None
      else if q then read_from input start (pos + 1) (input ! pos \<noteq> ch) ch
      else if input ! pos = CHR 0x27 \<or> input ! pos = CHR 0x22 then read_from input start (pos + 1) True (input ! pos)
      else if input ! pos = CHR '')'' then Some (pos + 1)
      else if input ! pos = CHR ''('' \<and> pos = start then None
      else read_from input start (pos + 1) False ch)"
  by pat_completeness auto
termination by (relation "measure (\<lambda>(input, start, pos, q, c). length input - pos)") auto

declare skip_from.simps [simp del] read_from.simps [simp del]

lemma skip_loop_pure [simp]: "skip_loop input pos = Inr (skip_from input pos)"
  by (induction input pos rule: skip_from.induct) (subst skip_loop.simps, subst skip_from.simps, auto)

lemma read_loop_pure [simp]: "read_loop input start pos q ch = Inr (read_from input start pos q ch)"
proof (induction input start pos q ch rule: read_from.induct)
  case (1 input start pos q ch)
  then show ?case by (subst read_loop.simps, subst read_from.simps) (auto simp del: go_at_ok simp: go_at_def)
qed

section \<open>The parser terminates\<close>

abbreviation rest :: "lexer \<Rightarrow> string" where
  "rest l \<equiv> drop (lx_pos l) (lx_input l)"

lemma and_then_simps [simp]:
  "and_then None f = None" "and_then (Some (Inl e)) f = Some (Inl e)" "and_then (Some (Inr x)) f = f x"
  by (simp_all add: and_then_def)

lemma and_then_Inr:
  "and_then x f = Some (Inr z) \<longleftrightarrow> (\<exists>y. x = Some (Inr y) \<and> f y = Some (Inr z))"
  by (auto simp: and_then_def split: option.splits sum.splits)

lemma and_then_mono:
  assumes "and_then x f = Some r" and "\<And>s. x = Some s \<Longrightarrow> x' = Some s"
    and "\<And>y s. x = Some (Inr y) \<Longrightarrow> f y = Some s \<Longrightarrow> f' y = Some s"
  shows "and_then x' f' = Some r"
  using assms by (auto simp: and_then_def split: option.splits sum.splits)

lemma fuel_le:
  assumes "n \<le> k"
  shows "(\<forall>p r. parseExpression n p = Some r \<longrightarrow> parseExpression k p = Some r)
    \<and> (\<forall>m p r. expression_loop n m p = Some r \<longrightarrow> expression_loop k m p = Some r)
    \<and> (\<forall>p r. parseTerm n p = Some r \<longrightarrow> parseTerm k p = Some r)
    \<and> (\<forall>m p r. term_loop n m p = Some r \<longrightarrow> term_loop k m p = Some r)
    \<and> (\<forall>p r. parseFactor n p = Some r \<longrightarrow> parseFactor k p = Some r)"
  using assms
proof (induction n arbitrary: k)
  case (Suc n)
  then obtain j where k: "k = Suc j" "n \<le> j" by (cases k) auto
  show ?case unfolding k(1) using Suc.IH [OF k(2)]
    by (auto elim!: and_then_mono split: if_splits)
qed simp

lemmas fuel_mono =
  fuel_le [THEN conjunct1, rule_format]
  fuel_le [THEN conjunct2, THEN conjunct1, rule_format]
  fuel_le [THEN conjunct2, THEN conjunct2, THEN conjunct1, rule_format]
  fuel_le [THEN conjunct2, THEN conjunct2, THEN conjunct2, THEN conjunct1, rule_format]
  fuel_le [THEN conjunct2, THEN conjunct2, THEN conjunct2, THEN conjunct2, rule_format]

text \<open>Every token other than the end of the input takes at least one byte.\<close>

lemma skip_from_ge: "pos \<le> skip_from input pos"
  by (induction input pos rule: skip_from.induct) (subst skip_from.simps, auto)

text \<open>The length of a matcher at the head of a string; the first argument is the quote that is open, if any.\<close>

fun matcher_len :: "char option \<Rightarrow> string \<Rightarrow> nat option" where
  "matcher_len q [] = None"
| "matcher_len (Some q) (c # cs) = map_option Suc (matcher_len (if c = q then None else Some q) cs)"
| "matcher_len None (c # cs) =
     (if c = CHR 0x27 \<or> c = CHR 0x22 then map_option Suc (matcher_len (Some c) cs)
      else if c = CHR '')'' then Some 1 else map_option Suc (matcher_len None cs))"

lemma matcher_len_bounds: "matcher_len q s = Some n \<Longrightarrow> 0 < n \<and> n \<le> length s"
  by (induction q s arbitrary: n rule: matcher_len.induct) (auto split: if_splits)

lemma read_from_eq:
  assumes "start \<le> pos" and "start = pos \<Longrightarrow> \<not> HasPrefix (drop pos input) ''(''"
  shows "read_from input start pos q c
     = map_option ((+) pos) (matcher_len (if q then Some c else None) (drop pos input))"
  using assms
proof (induction "drop pos input" arbitrary: pos q c)
  case Nil
  then show ?case by (simp add: read_from.simps)
next
  case (Cons x xs)
  have lt: "pos < length input" using Cons.hyps(2) by (metis drop_all linorder_not_le neq_Nil_conv)
  then have d: "input ! pos = x" "drop (Suc pos) input = xs"
    using Cons.hyps(2) by (simp_all add: Cons_nth_drop_Suc [symmetric])
  have np: "\<not> (x = CHR ''('' \<and> pos = start)" using Cons.prems(2) by (auto simp: HasPrefix_def Cons.hyps(2) [symmetric])
  have plus_Suc: "(+) (Suc pos) = (\<lambda>n. Suc (pos + n))" by auto
  have IH: "read_from input start (Suc pos) q c = map_option (\<lambda>n. Suc (pos + n)) (matcher_len (if q then Some c else None) xs)" for q c
    using Cons.hyps(1) [of "Suc pos" q c] d Cons.prems(1) by (simp add: plus_Suc)
  show ?case
    using np lt by (subst read_from.simps) (auto simp: Let_def d IH Cons.hyps(2) [symmetric] option.map_comp comp_def)
qed

lemma read_from_bounds:
  assumes "read_from input pos pos False c = Some pos'"
  shows "pos < pos' \<and> pos' \<le> length input"
proof (cases "HasPrefix (drop pos input) ''(''")
  case True
  then show ?thesis using assms by (subst (asm) read_from.simps) (auto simp: HasPrefix_iff nth_via_drop split: if_splits)
next
  case False
  then show ?thesis using assms by (auto simp: read_from_eq dest!: matcher_len_bounds)
qed

lemma readMatcher_eq:
  "readMatcher l =
     (case read_from (lx_input l) (lx_pos l) (lx_pos l) False CHR 0x00 of
        Some pos \<Rightarrow> Inr (\<lparr>tk_Type = TokenMatcher, tk_Value = take (pos - lx_pos l) (drop (lx_pos l) (lx_input l))\<rparr>, l\<lparr>lx_pos := pos\<rparr>)
      | None \<Rightarrow> Inl (GoError (''unterminated matcher starting at position '' @ Itoa (int (lx_pos l)))))"
  by (auto simp: readMatcher_def Let_def dest!: read_from_bounds split: option.splits)

lemma nextToken_eq:
  "nextToken l0 =
     (let l = l0\<lparr>lx_pos := skip_from (lx_input l0) (lx_pos l0)\<rparr>; input = lx_input l; pos = lx_pos l
      in if pos \<ge> length input then Inr (\<lparr>tk_Type = TokenEOF, tk_Value = []\<rparr>, l)
         else let c = input ! pos
              in if c = CHR ''('' then Inr (\<lparr>tk_Type = TokenLParen, tk_Value = ''(''\<rparr>, l\<lparr>lx_pos := pos + 1\<rparr>)
                 else if c = CHR '')'' then Inr (\<lparr>tk_Type = TokenRParen, tk_Value = '')''\<rparr>, l\<lparr>lx_pos := pos + 1\<rparr>)
                 else if c = CHR ''&'' \<and> pos + 1 < length input \<and> input ! (pos + 1) = CHR ''&''
                 then Inr (\<lparr>tk_Type = TokenAnd, tk_Value = ''&&''\<rparr>, l\<lparr>lx_pos := pos + 2\<rparr>)
                 else if c = CHR ''|'' \<and> pos + 1 < length input \<and> input ! (pos + 1) = CHR ''|''
                 then Inr (\<lparr>tk_Type = TokenOr, tk_Value = ''||''\<rparr>, l\<lparr>lx_pos := pos + 2\<rparr>)
                 else if IsLetter c then readMatcher l
                 else Inl (GoError (''unexpected character '' @ quoted (rune_string c) @ '' at position '' @ Itoa (int pos))))"
  by (simp add: nextToken_def skipWhitespace_def doubled_def Let_def)

lemma matcher_named_eq:
  "matcher_named name args =
     (if name = ''PathPrefix''
      then (if length args \<noteq> 1 then Inl (GoError ''PathPrefix expects 1 argument'') else Inr (MatchPathPrefix (args ! 0)))
      else if name = ''Path''
      then (if length args \<noteq> 1 then Inl (GoError ''Path expects 1 argument'') else Inr (MatchPath (args ! 0)))
      else if name = ''Method''
      then (if length args \<noteq> 1 then Inl (GoError ''Method expects 1 argument'') else Inr (MatchMethod (args ! 0)))
      else if name = ''Header''
      then (if length args \<noteq> 2 then Inl (GoError ''Header expects 2 arguments'') else Inr (MatchHeader (args ! 0) (args ! 1)))
      else if name = ''ClientIP''
      then (if length args \<noteq> 1 then Inl (GoError ''ClientIP expects 1 argument'') else Inr (MatchClientIP (args ! 0)))
      else Inl (GoError (''unknown matcher: '' @ name)))"
  by (simp add: matcher_named_def)

lemma matcher_inner:
  assumes "IndexByte s CHR ''('' = Some idx" and "HasSuffix s '')''"
  shows "idx + 1 \<le> length s - 1"
proof -
  have i: "idx < length s" "s ! idx = CHR ''(''" using IndexByte_Some [OF assms(1)] by blast+
  obtain t where "s = t @ '')''" using assms(2) by (auto simp: HasSuffix_iff)
  with i show ?thesis by (cases "idx = length t") (auto simp: nth_append)
qed

lemma createMatcher_eq:
  "createMatcher s =
     (case IndexByte s CHR ''('' of
        None \<Rightarrow> Inl (GoError (''invalid matcher syntax: '' @ s))
      | Some idx \<Rightarrow>
          (if \<not> HasSuffix s '')'' then Inl (GoError (''invalid matcher syntax: '' @ s))
           else let name = TrimSpace (take idx s);
                    argsStr = TrimSpace (take (length s - 1 - (idx + 1)) (drop (idx + 1) s))
                in case parseArgs argsStr of Inl e \<Rightarrow> Inl e | Inr args \<Rightarrow> matcher_named name args))"
proof (cases "IndexByte s CHR ''(''")
  case (Some idx)
  then have "idx < length s" "HasSuffix s '')'' \<Longrightarrow> idx + 1 \<le> length s - 1" using IndexByte_Some matcher_inner by blast+
  then show ?thesis by (simp add: createMatcher_def Some del: One_nat_def)
qed (simp add: createMatcher_def)

lemma nextToken_progress:
  assumes "nextToken l = Inr (t, l')"
  shows "lx_input l' = lx_input l" and "tk_Type t \<noteq> TokenEOF \<Longrightarrow> length (rest l') < length (rest l)"
    and "length (rest l') \<le> length (rest l)"
proof -
  note skip = skip_from_ge [of "lx_pos l" "lx_input l"]
  show "lx_input l' = lx_input l"
    using assms by (auto simp: nextToken_eq readMatcher_eq Let_def split: if_splits option.splits)
  then show "tk_Type t \<noteq> TokenEOF \<Longrightarrow> length (rest l') < length (rest l)" and "length (rest l') \<le> length (rest l)"
    using assms skip
    by (auto simp: nextToken_eq readMatcher_eq Let_def split: if_splits option.splits
        dest!: read_from_bounds)
qed

text \<open>How much input a state of the parser has left, its current token included.\<close>

definition parser_left :: "parser \<Rightarrow> nat" where
  "parser_left p = (if tk_Type (pa_curTok p) = TokenEOF then 0 else Suc (length (rest (pa_lex p))))"

lemma parser_next_left:
  assumes "parser_next p = Inr p'" and "tk_Type (pa_curTok p) \<noteq> TokenEOF"
  shows "parser_left p' < parser_left p"
  using assms nextToken_progress [of "pa_lex p" "pa_curTok p'" "pa_lex p'"]
  by (auto simp: parser_next_def parser_left_def split: sum.splits)

lemma parse_left:
  "(\<forall>p m p'. parseExpression n p = Some (Inr (m, p')) \<longrightarrow> parser_left p' < parser_left p)
   \<and> (\<forall>m p m' p'. expression_loop n m p = Some (Inr (m', p')) \<longrightarrow> parser_left p' \<le> parser_left p)
   \<and> (\<forall>p m p'. parseTerm n p = Some (Inr (m, p')) \<longrightarrow> parser_left p' < parser_left p)
   \<and> (\<forall>m p m' p'. term_loop n m p = Some (Inr (m', p')) \<longrightarrow> parser_left p' \<le> parser_left p)
   \<and> (\<forall>p m p'. parseFactor n p = Some (Inr (m, p')) \<longrightarrow> parser_left p' < parser_left p)"
proof (induction n)
  case (Suc n)
  then show ?case
    by (fastforce simp: and_then_Inr dest: parser_next_left split: if_splits)
qed simp

lemma and_then_total: "\<exists>r. x = Some r \<Longrightarrow> (\<And>y. x = Some (Inr y) \<Longrightarrow> \<exists>r. f y = Some r) \<Longrightarrow> \<exists>r. and_then x f = Some r"
  by (auto simp: and_then_def split: option.splits sum.splits)

lemma parse_total:
  "(\<forall>p. 3 * parser_left p + 3 \<le> n \<longrightarrow> (\<exists>r. parseExpression n p = Some r))
   \<and> (\<forall>m p. 3 * parser_left p + 1 \<le> n \<longrightarrow> (\<exists>r. expression_loop n m p = Some r))
   \<and> (\<forall>p. 3 * parser_left p + 2 \<le> n \<longrightarrow> (\<exists>r. parseTerm n p = Some r))
   \<and> (\<forall>m p. 3 * parser_left p + 1 \<le> n \<longrightarrow> (\<exists>r. term_loop n m p = Some r))
   \<and> (\<forall>p. 3 * parser_left p + 1 \<le> n \<longrightarrow> (\<exists>r. parseFactor n p = Some r))"
proof (induction n)
  case (Suc n)
  then have E: "3 * parser_left p + 3 \<le> n \<Longrightarrow> (\<exists>r. parseExpression n p = Some r)"
    and EL: "3 * parser_left p + 1 \<le> n \<Longrightarrow> (\<exists>r. expression_loop n m p = Some r)"
    and T: "3 * parser_left p + 2 \<le> n \<Longrightarrow> (\<exists>r. parseTerm n p = Some r)"
    and TL: "3 * parser_left p + 1 \<le> n \<Longrightarrow> (\<exists>r. term_loop n m p = Some r)"
    and F: "3 * parser_left p + 1 \<le> n \<Longrightarrow> (\<exists>r. parseFactor n p = Some r)" for m p
    by blast+
  have L: "parseTerm n p = Some (Inr (m, p')) \<Longrightarrow> parser_left p' < parser_left p"
    "parseFactor n p = Some (Inr (m, p')) \<Longrightarrow> parser_left p' < parser_left p" for p m p'
    using parse_left [of n] by blast+
  have "(\<exists>r. parseExpression (Suc n) p = Some r)" if "3 * parser_left p + 3 \<le> Suc n" for p
    unfolding parseExpression.simps using that by (intro and_then_total) (auto intro!: T EL dest!: L)
  moreover have "(\<exists>r. expression_loop (Suc n) m p = Some r)" if "3 * parser_left p + 1 \<le> Suc n" for m p
    unfolding expression_loop.simps using that
    by (auto intro!: and_then_total T EL dest!: L parser_next_left split: prod.splits)
  moreover have "(\<exists>r. parseTerm (Suc n) p = Some r)" if "3 * parser_left p + 2 \<le> Suc n" for p
    unfolding parseTerm.simps using that by (intro and_then_total) (auto intro!: F TL dest!: L)
  moreover have "(\<exists>r. term_loop (Suc n) m p = Some r)" if "3 * parser_left p + 1 \<le> Suc n" for m p
    unfolding term_loop.simps using that
    by (auto intro!: and_then_total F TL dest!: L parser_next_left split: prod.splits)
  moreover have "(\<exists>r. parseFactor (Suc n) p = Some r)" if "3 * parser_left p + 1 \<le> Suc n" for p
    unfolding parseFactor.simps using that
    by (auto intro!: and_then_total E dest!: parser_next_left split: prod.splits)
  ultimately show ?case by blast
qed simp

lemma parse_fuel_enough:
  assumes "parser_next \<lparr>pa_lex = \<lparr>lx_input = rule, lx_pos = 0\<rparr>, pa_curTok = t\<rparr> = Inr p" and "parse_fuel rule \<le> n"
  shows "\<exists>r. parseExpression n p = Some r"
proof -
  have "parser_left p \<le> Suc (length rule)"
    using assms(1) nextToken_progress(3) [of "\<lparr>lx_input = rule, lx_pos = 0\<rparr>"]
    by (auto simp: parser_next_def parser_left_def split: sum.splits)
  then have "3 * parser_left p + 3 \<le> n" using assms(2) by (simp add: parse_fuel_def)
  then show ?thesis using parse_total [of n] by blast
qed

section \<open>The parser implements the grammar\<close>

text \<open>The tokens of the input that a lexer has left, up to its end.\<close>

inductive lexes :: "lexer \<Rightarrow> Token list \<Rightarrow> bool" where
  lexes_eof: "nextToken l = Inr (t, l') \<Longrightarrow> tk_Type t = TokenEOF \<Longrightarrow> lexes l []"
| lexes_token: "nextToken l = Inr (t, l') \<Longrightarrow> tk_Type t \<noteq> TokenEOF \<Longrightarrow> lexes l' ts \<Longrightarrow> lexes l (t # ts)"

inductive_cases lexes_NilE: "lexes l []"
inductive_cases lexes_ConsE: "lexes l (t # ts)"

text \<open>
  The grammar, with the matcher that a derivation builds: \<^verbatim>\<open>Expression -> Term ( "||" Term )*\<close>,
  \<^verbatim>\<open>Term -> Factor ( "&&" Factor )*\<close>, \<^verbatim>\<open>Factor -> Matcher | "(" Expression ")"\<close>; both operators associate to the left.
\<close>

inductive is_expr :: "Token list \<Rightarrow> MatcherFunc \<Rightarrow> bool"
  and is_term :: "Token list \<Rightarrow> MatcherFunc \<Rightarrow> bool"
  and is_factor :: "Token list \<Rightarrow> MatcherFunc \<Rightarrow> bool" where
  expr_term: "is_term ts m \<Longrightarrow> is_expr ts m"
| expr_or: "is_expr ts m \<Longrightarrow> tk_Type t = TokenOr \<Longrightarrow> is_term us m' \<Longrightarrow> is_expr (ts @ t # us) (MatchOr m m')"
| term_factor: "is_factor ts m \<Longrightarrow> is_term ts m"
| term_and: "is_term ts m \<Longrightarrow> tk_Type t = TokenAnd \<Longrightarrow> is_factor us m' \<Longrightarrow> is_term (ts @ t # us) (MatchAnd m m')"
| factor_matcher: "tk_Type t = TokenMatcher \<Longrightarrow> createMatcher (tk_Value t) = Inr m \<Longrightarrow> is_factor [t] m"
| factor_paren: "tk_Type t = TokenLParen \<Longrightarrow> is_expr ts m \<Longrightarrow> tk_Type u = TokenRParen \<Longrightarrow> is_factor (t # ts @ [u]) m"

text \<open>A state of the parser stands before the tokens \<open>ts\<close>: the current one and those the lexer has left.\<close>

fun stands_before :: "parser \<Rightarrow> Token list \<Rightarrow> bool" where
  "stands_before p [] \<longleftrightarrow> tk_Type (pa_curTok p) = TokenEOF"
| "stands_before p (t # ts) \<longleftrightarrow> pa_curTok p = t \<and> tk_Type t \<noteq> TokenEOF \<and> lexes (pa_lex p) ts"

lemma parser_next_Inr: "parser_next p = Inr p' \<longleftrightarrow> nextToken (pa_lex p) = Inr (pa_curTok p', pa_lex p')"
  by (cases p') (auto simp: parser_next_def split: sum.splits)

lemma lexes_next: "lexes (pa_lex p) ts \<longleftrightarrow> (\<exists>p'. parser_next p = Inr p' \<and> stands_before p' ts)"
proof (cases ts)
  case Nil
  then show ?thesis
    by (auto simp: parser_next_def elim!: lexes_NilE intro: lexes_eof split: sum.splits)
next
  case (Cons t us)
  then show ?thesis
    by (auto simp: parser_next_def elim!: lexes_ConsE intro: lexes_token split: sum.splits)
qed

lemma stands_before_next:
  "parser_next p = Inr p' \<Longrightarrow> stands_before p' ts \<Longrightarrow> tk_Type (pa_curTok p) \<noteq> TokenEOF \<Longrightarrow> stands_before p (pa_curTok p # ts)"
  using lexes_next by auto

text \<open>
  Soundness of a parser and of a loop with an accumulator: when they succeed before \<open>ts\<close>, they have read a sentence
  of \<open>G\<close>, or extended one. The two levels of operators are two instances of the same argument.
\<close>

definition sound_parse ::
  "(Token list \<Rightarrow> MatcherFunc \<Rightarrow> bool) \<Rightarrow> (parser \<Rightarrow> (MatcherFunc \<times> parser) result option) \<Rightarrow> bool" where
  "sound_parse G f \<longleftrightarrow>
     (\<forall>p m p' ts. f p = Some (Inr (m, p')) \<longrightarrow> stands_before p' ts \<longrightarrow> (\<exists>us. G us m \<and> stands_before p (us @ ts)))"

definition sound_loop ::
  "(Token list \<Rightarrow> MatcherFunc \<Rightarrow> bool) \<Rightarrow> (MatcherFunc \<Rightarrow> parser \<Rightarrow> (MatcherFunc \<times> parser) result option) \<Rightarrow> bool" where
  "sound_loop G f \<longleftrightarrow>
     (\<forall>m p m' p' ts. f m p = Some (Inr (m', p')) \<longrightarrow> stands_before p' ts
        \<longrightarrow> (\<exists>us. (\<forall>vs. G vs m \<longrightarrow> G (vs @ us) m') \<and> stands_before p (us @ ts)))"

lemma sound_then_loop:
  assumes f: "sound_parse H f" and l: "sound_loop G l" and HG: "\<And>us m. H us m \<Longrightarrow> G us m"
  shows "sound_parse G (\<lambda>p. and_then (f p) (\<lambda>(m, p1). l m p1))"
  unfolding sound_parse_def
proof (intro allI impI)
  fix p m p' ts assume run: "and_then (f p) (\<lambda>(m, p1). l m p1) = Some (Inr (m, p'))" and at: "stands_before p' ts"
  then obtain m1 p1 where r: "f p = Some (Inr (m1, p1))" "l m1 p1 = Some (Inr (m, p'))"
    by (auto simp: and_then_Inr)
  from l r(2) at obtain us where us: "\<And>vs. G vs m1 \<Longrightarrow> G (vs @ us) m" "stands_before p1 (us @ ts)"
    unfolding sound_loop_def by blast
  with f r(1) obtain vs where "H vs m1" "stands_before p (vs @ us @ ts)" unfolding sound_parse_def by blast
  then show "\<exists>us. G us m \<and> stands_before p (us @ ts)" using us(1) HG by (metis append_assoc)
qed

lemma sound_loop_step:
  assumes f: "sound_parse H f" and l: "sound_loop G l" and ty: "ty \<noteq> TokenEOF"
    and G: "\<And>vs m t us m'. G vs m \<Longrightarrow> tk_Type t = ty \<Longrightarrow> H us m' \<Longrightarrow> G (vs @ t # us) (comb m m')"
  shows "sound_loop G (\<lambda>m p. if tk_Type (pa_curTok p) = ty
           then and_then (Some (parser_next p)) (\<lambda>p1. and_then (f p1) (\<lambda>(right, p2). l (comb m right) p2))
           else Some (Inr (m, p)))"
  unfolding sound_loop_def
proof (intro allI impI)
  fix m p m' p' ts
  assume run: "(if tk_Type (pa_curTok p) = ty
       then and_then (Some (parser_next p)) (\<lambda>p1. and_then (f p1) (\<lambda>(right, p2). l (comb m right) p2))
       else Some (Inr (m, p))) = Some (Inr (m', p'))" and at: "stands_before p' ts"
  show "\<exists>us. (\<forall>vs. G vs m \<longrightarrow> G (vs @ us) m') \<and> stands_before p (us @ ts)"
  proof (cases "tk_Type (pa_curTok p) = ty")
    case False
    then show ?thesis using run at by (intro exI [of _ "[]"]) auto
  next
    case True
    then obtain p1 right p2 where n: "parser_next p = Inr p1" and r: "f p1 = Some (Inr (right, p2))"
      "l (comb m right) p2 = Some (Inr (m', p'))"
      using run by (auto simp: and_then_Inr)
    from l r(2) at obtain us where us: "\<And>vs. G vs (comb m right) \<Longrightarrow> G (vs @ us) m'" "stands_before p2 (us @ ts)"
      unfolding sound_loop_def by blast
    with f r(1) obtain ws where ws: "H ws right" "stands_before p1 (ws @ us @ ts)" unfolding sound_parse_def by blast
    have "G (vs @ pa_curTok p # ws @ us) m'" if "G vs m" for vs
      using us(1) [OF G [OF that True ws(1)]] by simp
    then show ?thesis
      using stands_before_next [OF n ws(2)] True ty by (intro exI [of _ "pa_curTok p # ws @ us"]) simp
  qed
qed

lemma sound_factor:
  assumes "sound_parse is_expr (parseExpression n)"
  shows "sound_parse is_factor (parseFactor (Suc n))"
  unfolding sound_parse_def
proof (intro allI impI)
  fix p m p' ts assume run: "parseFactor (Suc n) p = Some (Inr (m, p'))" and at: "stands_before p' ts"
  show "\<exists>us. is_factor us m \<and> stands_before p (us @ ts)"
  proof (cases "tk_Type (pa_curTok p) = TokenLParen")
    case True
    then obtain p1 p2 where n: "parser_next p = Inr p1" and e: "parseExpression n p1 = Some (Inr (m, p2))"
      and r: "tk_Type (pa_curTok p2) = TokenRParen" and n2: "parser_next p2 = Inr p'"
      using run by (auto simp: and_then_Inr split: if_splits)
    have "stands_before p2 (pa_curTok p2 # ts)" using stands_before_next [OF n2 at] r by simp
    with assms e obtain us where us: "is_expr us m" "stands_before p1 (us @ pa_curTok p2 # ts)"
      unfolding sound_parse_def by blast
    show ?thesis
      using stands_before_next [OF n us(2)] True factor_paren [OF True us(1) r]
      by (intro exI [of _ "pa_curTok p # us @ [pa_curTok p2]"]) simp
  next
    case False
    then have ty: "tk_Type (pa_curTok p) = TokenMatcher" and c: "createMatcher (tk_Value (pa_curTok p)) = Inr m"
      and n: "parser_next p = Inr p'"
      using run by (auto simp: and_then_Inr split: if_splits)
    show ?thesis
      using stands_before_next [OF n at] ty factor_matcher [OF ty c] by (intro exI [of _ "[pa_curTok p]"]) simp
  qed
qed

lemma parse_sound:
  "sound_parse is_expr (parseExpression n) \<and> sound_loop is_expr (expression_loop n)
   \<and> sound_parse is_term (parseTerm n) \<and> sound_loop is_term (term_loop n) \<and> sound_parse is_factor (parseFactor n)"
proof (induction n)
  case 0
  then show ?case by (simp add: sound_parse_def sound_loop_def)
next
  case (Suc n)
  then show ?case
    using sound_factor [of n] sound_then_loop [of is_term "parseTerm n" is_expr "expression_loop n", OF _ _ expr_term]
      sound_then_loop [of is_factor "parseFactor n" is_term "term_loop n", OF _ _ term_factor]
      sound_loop_step [of is_term "parseTerm n" is_expr "expression_loop n" TokenOr MatchOr, OF _ _ _ expr_or]
      sound_loop_step [of is_factor "parseFactor n" is_term "term_loop n" TokenAnd MatchAnd, OF _ _ _ term_and]
    by (simp del: parseFactor.simps)
qed

text \<open>
  Completeness. \<open>term_then p m p'\<close>: from \<open>p\<close>, \<^verbatim>\<open>parseTerm\<close> gets into its loop at \<open>p'\<close> with the accumulator \<open>m\<close>, and returns what the loop
  returns; the same for expressions.
\<close>

definition term_then :: "parser \<Rightarrow> MatcherFunc \<Rightarrow> parser \<Rightarrow> bool" where
  "term_then p m p' \<longleftrightarrow> (\<forall>n r. term_loop n m p' = Some r \<longrightarrow> (\<exists>k. parseTerm k p = Some r))"

definition expr_then :: "parser \<Rightarrow> MatcherFunc \<Rightarrow> parser \<Rightarrow> bool" where
  "expr_then p m p' \<longleftrightarrow> (\<forall>n r. expression_loop n m p' = Some r \<longrightarrow> (\<exists>k. parseExpression k p = Some r))"

definition not_and :: "Token list \<Rightarrow> bool" where
  "not_and ts \<longleftrightarrow> (case ts of [] \<Rightarrow> True | t # us \<Rightarrow> tk_Type t \<noteq> TokenAnd)"

lemma stands_before_cur:
  "stands_before p ts \<Longrightarrow> not_and ts \<Longrightarrow> tk_Type (pa_curTok p) \<noteq> TokenAnd"
  by (cases ts) (auto simp: not_and_def)

lemma stands_before_step:
  "stands_before p (t # ts) \<Longrightarrow> \<exists>p'. parser_next p = Inr p' \<and> stands_before p' ts \<and> pa_curTok p = t"
  using lexes_next by auto

lemma term_done:
  assumes "term_then p m p'" and "tk_Type (pa_curTok p') \<noteq> TokenAnd"
  shows "\<exists>k. parseTerm k p = Some (Inr (m, p'))"
proof -
  have "term_loop (Suc 0) m p' = Some (Inr (m, p'))" using assms(2) by simp
  then show ?thesis using assms(1) unfolding term_then_def by blast
qed

lemma expr_term_then:
  assumes "parseTerm k p = Some (Inr (m, p'))"
  shows "expr_then p m p'"
  unfolding expr_then_def
proof (intro allI impI)
  fix n r assume "expression_loop n m p' = Some r"
  then have "parseExpression (Suc (max n k)) p = Some r"
    using fuel_mono(3) [OF _ assms, of "max n k"] fuel_mono(2) [of n "max n k"] by simp
  then show "\<exists>k. parseExpression k p = Some r" by blast
qed

lemma expr_or_then:
  assumes "expr_then p m p1" "tk_Type (pa_curTok p1) = TokenOr" "parser_next p1 = Inr p2"
    and t: "parseTerm k p2 = Some (Inr (m', p3))"
  shows "expr_then p (MatchOr m m') p3"
  unfolding expr_then_def
proof (intro allI impI)
  fix n r assume "expression_loop n (MatchOr m m') p3 = Some r"
  then have "expression_loop (Suc (max n k)) m p1 = Some r"
    using fuel_mono(3) [OF _ t, of "max n k"] fuel_mono(2) [of n "max n k"] assms(2,3) by simp
  then show "\<exists>k. parseExpression k p = Some r" using assms(1) unfolding expr_then_def by blast
qed

lemma term_factor_then:
  assumes "parseFactor k p = Some (Inr (m, p'))"
  shows "term_then p m p'"
  unfolding term_then_def
proof (intro allI impI)
  fix n r assume "term_loop n m p' = Some r"
  then have "parseTerm (Suc (max n k)) p = Some r"
    using fuel_mono(5) [OF _ assms, of "max n k"] fuel_mono(4) [of n "max n k"] by simp
  then show "\<exists>k. parseTerm k p = Some r" by blast
qed

lemma term_and_then:
  assumes "term_then p m p1" "tk_Type (pa_curTok p1) = TokenAnd" "parser_next p1 = Inr p2"
    and t: "parseFactor k p2 = Some (Inr (m', p3))"
  shows "term_then p (MatchAnd m m') p3"
  unfolding term_then_def
proof (intro allI impI)
  fix n r assume "term_loop n (MatchAnd m m') p3 = Some r"
  then have "term_loop (Suc (max n k)) m p1 = Some r"
    using fuel_mono(5) [OF _ t, of "max n k"] fuel_mono(4) [of n "max n k"] assms(2,3) by simp
  then show "\<exists>k. parseTerm k p = Some r" using assms(1) unfolding term_then_def by blast
qed

lemma parse_complete:
  "is_expr ts m \<Longrightarrow> not_and us \<Longrightarrow> stands_before p (ts @ us) \<Longrightarrow> \<exists>p'. stands_before p' us \<and> expr_then p m p'"
  "is_term ts m \<Longrightarrow> stands_before p (ts @ us) \<Longrightarrow> \<exists>p'. stands_before p' us \<and> term_then p m p'"
  "is_factor ts m \<Longrightarrow> stands_before p (ts @ us) \<Longrightarrow> \<exists>p' k. stands_before p' us \<and> parseFactor k p = Some (Inr (m, p'))"
proof (induction arbitrary: us p and us p and us p rule: is_expr_is_term_is_factor.inducts)
  case (expr_term ts m)
  then show ?case using term_done expr_term_then stands_before_cur by meson
next
  case (expr_or ts m t vs m')
  have "not_and (t # vs @ us)" using expr_or by (simp add: not_and_def)
  then obtain p1 where p1: "stands_before p1 (t # vs @ us)" "expr_then p m p1"
    using expr_or.IH(1) [of "t # vs @ us" p] expr_or.prems by auto
  then obtain p2 where p2: "parser_next p1 = Inr p2" "stands_before p2 (vs @ us)" "pa_curTok p1 = t"
    using stands_before_step by blast
  then obtain p3 where p3: "stands_before p3 us" "term_then p2 m' p3" using expr_or by blast
  then obtain k where "parseTerm k p2 = Some (Inr (m', p3))" using term_done stands_before_cur expr_or.prems(1) by blast
  then show ?case using expr_or_then [OF p1(2)] p2 p3(1) expr_or by blast
next
  case (term_factor ts m)
  then show ?case using term_factor_then by blast
next
  case (term_and ts m t vs m')
  then obtain p1 where p1: "stands_before p1 (t # vs @ us)" "term_then p m p1"
    using term_and.IH(1) [of p "t # vs @ us"] by auto
  then obtain p2 where p2: "parser_next p1 = Inr p2" "stands_before p2 (vs @ us)" "pa_curTok p1 = t"
    using stands_before_step by blast
  then obtain p3 k where "stands_before p3 us" "parseFactor k p2 = Some (Inr (m', p3))" using term_and by blast
  then show ?case using term_and_then [OF p1(2)] p2 term_and by blast
next
  case (factor_matcher t m)
  then obtain p2 where "parser_next p = Inr p2" "stands_before p2 us" "pa_curTok p = t"
    using stands_before_step [of p t us] by auto
  then show ?case using factor_matcher by (intro exI [of _ p2] exI [of _ "Suc 0"]) simp
next
  case (factor_paren t ts m u)
  then obtain p1 where p1: "parser_next p = Inr p1" "stands_before p1 (ts @ u # us)" "pa_curTok p = t"
    using stands_before_step [of p t "ts @ u # us"] by auto
  moreover have "not_and (u # us)" using factor_paren by (simp add: not_and_def)
  ultimately obtain p2 where p2: "stands_before p2 (u # us)" "expr_then p1 m p2"
    using factor_paren.IH by blast
  then obtain p3 where p3: "parser_next p2 = Inr p3" "stands_before p3 us" "pa_curTok p2 = u"
    using stands_before_step by blast
  have "expression_loop (Suc 0) m p2 = Some (Inr (m, p2))" using p3(3) factor_paren by simp
  then obtain k where "parseExpression k p1 = Some (Inr (m, p2))" using p2(2) unfolding expr_then_def by blast
  then show ?case using p1 p3 factor_paren by (intro exI [of _ p3] exI [of _ "Suc k"]) simp
qed

lemma ParseRule_Inr:
  "ParseRule rule = Inr m \<longleftrightarrow>
     (\<exists>p p1. parser_next \<lparr>pa_lex = \<lparr>lx_input = rule, lx_pos = 0\<rparr>, pa_curTok = \<lparr>tk_Type = TokenEOF, tk_Value = []\<rparr>\<rparr> = Inr p
        \<and> parseExpression (parse_fuel rule) p = Some (Inr (m, p1)) \<and> tk_Type (pa_curTok p1) = TokenEOF)"
  (is "_ \<longleftrightarrow> (\<exists>p p1. ?next = Inr p \<and> _ p p1)")
proof (cases ?next)
  case (Inr p)
  show ?thesis
  proof (cases "parseExpression (parse_fuel rule) p")
    case (Some r)
    then show ?thesis using Inr by (cases r) (auto simp: ParseRule_def split: if_splits)
  qed (simp add: ParseRule_def Inr)
qed (simp add: ParseRule_def)

abbreviation start_lexer :: "string \<Rightarrow> lexer" where
  "start_lexer rule \<equiv> \<lparr>lx_input = rule, lx_pos = 0\<rparr>"

abbreviation start_parser :: "string \<Rightarrow> parser" where
  "start_parser rule \<equiv> \<lparr>pa_lex = start_lexer rule, pa_curTok = \<lparr>tk_Type = TokenEOF, tk_Value = []\<rparr>\<rparr>"

lemma ParseRule_sound:
  assumes "ParseRule rule = Inr m"
  shows "\<exists>ts. lexes (start_lexer rule) ts \<and> is_expr ts m"
proof -
  obtain p p1 where n: "parser_next (start_parser rule) = Inr p"
    and r: "parseExpression (parse_fuel rule) p = Some (Inr (m, p1))" and e: "stands_before p1 []"
    using assms unfolding ParseRule_Inr by auto
  then obtain ts where "is_expr ts m" "stands_before p ts"
    using parse_sound [THEN conjunct1, unfolded sound_parse_def, rule_format, OF r e] by auto
  then show ?thesis using n lexes_next [of "start_parser rule"] by auto
qed

lemma ParseRule_derived:
  assumes lex: "lexes (start_lexer rule) ts" and d: "is_expr ts m"
  shows "ParseRule rule = Inr m"
proof -
  obtain p where p: "parser_next (start_parser rule) = Inr p" "stands_before p ts"
    using lex lexes_next [of "start_parser rule"] by auto
  then obtain p' where p': "stands_before p' []" "expr_then p m p'"
    using parse_complete(1) [OF d, of "[]" p] by (auto simp: not_and_def)
  have "expression_loop (Suc 0) m p' = Some (Inr (m, p'))" using p'(1) by simp
  then obtain k where k: "parseExpression k p = Some (Inr (m, p'))" using p'(2) unfolding expr_then_def by blast
  obtain r where r: "parseExpression (parse_fuel rule) p = Some r"
    using parse_fuel_enough [OF p(1) order_refl] by blast
  have "parseExpression (parse_fuel rule) p = Some (Inr (m, p'))"
    using fuel_mono(1) [OF max.cobounded1 k] fuel_mono(1) [OF max.cobounded2 r, of k] r by simp
  then show "ParseRule rule = Inr m" using p(1) p'(1) by (simp add: ParseRule_def)
qed

text \<open>
  C5. The parser implements its grammar. \<open>ParseRule\<close> accepts a rule with the matcher \<open>m\<close> exactly when the whole rule can be read as a sequence of
  tokens that the grammar derives as an expression with the matcher \<open>m\<close>: \<^verbatim>\<open>&&\<close> binds tighter than \<^verbatim>\<open>||\<close>, both associate to the left, and
  parentheses group.
\<close>

theorem parse_rule_grammar:
  "ParseRule rule = Inr m \<longleftrightarrow> (\<exists>ts. lexes \<lparr>lx_input = rule, lx_pos = 0\<rparr> ts \<and> is_expr ts m)"
  using ParseRule_sound ParseRule_derived by blast

section \<open>The parser never panics\<close>

lemma nextToken_error: "nextToken l = Inl e \<Longrightarrow> \<exists>s. e = GoError s"
  by (auto simp: nextToken_eq readMatcher_eq Let_def split: if_splits option.splits)

lemma parser_next_error: "parser_next p = Inl e \<Longrightarrow> \<exists>s. e = GoError s"
  by (auto simp: parser_next_def dest: nextToken_error split: sum.splits)

lemma createMatcher_error: "createMatcher v = Inl e \<Longrightarrow> \<exists>s. e = GoError s"
  by (auto simp: createMatcher_eq matcher_named_eq parseArgs_def Let_def split: if_splits option.splits sum.splits prod.splits)

lemma and_then_Inl:
  "and_then x f = Some (Inl e) \<longleftrightarrow> x = Some (Inl e) \<or> (\<exists>y. x = Some (Inr y) \<and> f y = Some (Inl e))"
  by (auto simp: and_then_def split: option.splits sum.splits)

lemma parse_error:
  "(\<forall>p e. parseExpression n p = Some (Inl e) \<longrightarrow> (\<exists>s. e = GoError s))
   \<and> (\<forall>m p e. expression_loop n m p = Some (Inl e) \<longrightarrow> (\<exists>s. e = GoError s))
   \<and> (\<forall>p e. parseTerm n p = Some (Inl e) \<longrightarrow> (\<exists>s. e = GoError s))
   \<and> (\<forall>m p e. term_loop n m p = Some (Inl e) \<longrightarrow> (\<exists>s. e = GoError s))
   \<and> (\<forall>p e. parseFactor n p = Some (Inl e) \<longrightarrow> (\<exists>s. e = GoError s))"
proof (induction n)
  case (Suc n)
  then show ?case
    by (fastforce simp: and_then_Inl dest: parser_next_error createMatcher_error split: if_splits)
qed simp

text \<open>
  C23. Parsing always ends with a matcher or an error: for every rule, the bound on the depth of calls is enough
  and nothing panics: the lexer reads no byte behind the end of the rule, and the construction of a matcher neither cuts a string nor reads an argument out of bounds.
\<close>

theorem parse_rule_total: "ParseRule rule \<noteq> Inl (GoPanic s)"
proof -
  define p0 where "p0 = \<lparr>pa_lex = \<lparr>lx_input = rule, lx_pos = 0\<rparr>, pa_curTok = \<lparr>tk_Type = TokenEOF, tk_Value = []\<rparr>\<rparr>"
  show ?thesis
  proof (cases "parser_next p0")
    case (Inl e)
    then show ?thesis using parser_next_error by (auto simp: ParseRule_def p0_def)
  next
    case (Inr p)
    then obtain r where "parseExpression (parse_fuel rule) p = Some r"
      using parse_fuel_enough [of rule _ p "parse_fuel rule"] p0_def by blast
    then show ?thesis
      using Inr parse_error [of "parse_fuel rule"] by (cases r) (auto simp: ParseRule_def p0_def split: if_splits)
  qed
qed

end
