(* ===== verification/RuleText.thy ===== *)
theory RuleText
  imports Rule
begin

text \<open>
  The concrete syntax of the rule language: a printer for rule trees, the tokens that the lexer finds in a printed
  rule, and the claim that parsing reads every printed rule back.
\<close>

section \<open>Printed rules\<close>

text \<open>
  Rules as trees, and their concrete syntax with as few parentheses as the precedences allow: level 0 is an expression,
  level 1 a term, level 2 a factor.
\<close>

datatype rule_tree =
    RPathPrefix string
  | RPath string
  | RMethod string
  | RHeader string string
  | RClientIP string
  | RAnd rule_tree rule_tree
  | ROr rule_tree rule_tree

definition print_atom :: "string \<Rightarrow> string list \<Rightarrow> string" where
  "print_atom name args = name @ ''('' @ strings_Join (map quoted args) '','' @ '')''"

definition parens :: "bool \<Rightarrow> string \<Rightarrow> string" where
  "parens b s = (if b then ''('' @ s @ '')'' else s)"

fun print_rule :: "nat \<Rightarrow> rule_tree \<Rightarrow> string" where
  "print_rule k (RPathPrefix a) = print_atom ''PathPrefix'' [a]"
| "print_rule k (RPath a) = print_atom ''Path'' [a]"
| "print_rule k (RMethod a) = print_atom ''Method'' [a]"
| "print_rule k (RHeader a b) = print_atom ''Header'' [a, b]"
| "print_rule k (RClientIP a) = print_atom ''ClientIP'' [a]"
| "print_rule k (RAnd x y) = parens (1 < k) (print_rule 1 x @ '' && '' @ print_rule 2 y)"
| "print_rule k (ROr x y) = parens (0 < k) (print_rule 0 x @ '' || '' @ print_rule 1 y)"

fun meaning :: "rule_tree \<Rightarrow> MatcherFunc" where
  "meaning (RPathPrefix a) = MatchPathPrefix a"
| "meaning (RPath a) = MatchPath a"
| "meaning (RMethod a) = MatchMethod a"
| "meaning (RHeader a b) = MatchHeader a b"
| "meaning (RClientIP a) = MatchClientIP a"
| "meaning (RAnd x y) = MatchAnd (meaning x) (meaning y)"
| "meaning (ROr x y) = MatchOr (meaning x) (meaning y)"

text \<open>An argument that can be written between single quotes and that trimming leaves alone.\<close>

definition printable :: "string \<Rightarrow> bool" where
  "printable a \<longleftrightarrow> a \<noteq> [] \<and> CHR 0x27 \<notin> set a \<and> solid (hd a) \<and> solid (last a)"

fun printable_rule :: "rule_tree \<Rightarrow> bool" where
  "printable_rule (RPathPrefix a) = printable a"
| "printable_rule (RPath a) = printable a"
| "printable_rule (RMethod a) = printable a"
| "printable_rule (RHeader a b) = (printable a \<and> printable b)"
| "printable_rule (RClientIP a) = printable a"
| "printable_rule (RAnd x y) = (printable_rule x \<and> printable_rule y)"
| "printable_rule (ROr x y) = (printable_rule x \<and> printable_rule y)"

text \<open>Reading an atom back.\<close>

lemma args_loop_quoted:
  "CHR 0x27 \<notin> set a \<Longrightarrow> args_loop (quoted a @ s) args [] False c = args_loop s args a False CHR 0x27"
proof -
  have "CHR 0x27 \<notin> set a \<Longrightarrow>
     args_loop (a @ CHR 0x27 # s) args cur True CHR 0x27 = args_loop s args (cur @ a) False CHR 0x27" for a cur
    by (induction a arbitrary: cur) auto
  then show "CHR 0x27 \<notin> set a \<Longrightarrow> ?thesis" by (simp add: quoted_def)
qed

lemma TrimSpace_quoted [simp]: "TrimSpace (quoted a @ s @ quoted b) = quoted a @ s @ quoted b" "TrimSpace (quoted a) = quoted a"
  by (simp_all add: quoted_def solid_def byte_def)

lemma quoted_nonempty [simp]: "quoted a \<noteq> []"
  by (simp add: quoted_def)

lemma parseArgs_quoted:
  "printable a \<Longrightarrow> parseArgs (quoted a) = Inr [a]"
  "printable a \<Longrightarrow> printable b \<Longrightarrow> parseArgs (quoted a @ '','' @ quoted b) = Inr [a, b]"
proof -
  assume a: "printable a"
  then show "parseArgs (quoted a) = Inr [a]"
    using args_loop_quoted [of a "[]"] by (simp add: parseArgs_def printable_def)
  assume "printable b"
  with a show "parseArgs (quoted a @ '','' @ quoted b) = Inr [a, b]"
    using args_loop_quoted [of a "'','' @ quoted b"] args_loop_quoted [of b "[]"]
      TrimSpace_quoted(1) [of a "'',''" b]
    by (simp add: parseArgs_def printable_def)
qed

lemma createMatcher_atom:
  assumes "CHR ''('' \<notin> set name" and "TrimSpace name = name" and "TrimSpace s = s" and "parseArgs s = Inr args"
  shows "createMatcher (name @ ''('' @ s @ '')'') = matcher_named name args"
proof -
  have i: "IndexByte (name @ CHR ''('' # s @ '')'') CHR ''('' = Some (length name)"
    by (rule IndexByte_append [OF assms(1)])
  have "HasSuffix (name @ CHR ''('' # s @ '')'') '')''" by (simp add: HasSuffix_iff)
  with i assms show ?thesis by (simp add: createMatcher_eq)
qed

text \<open>The atoms: a name and its arguments, and the matcher they stand for.\<close>

definition is_atom :: "string \<Rightarrow> string list \<Rightarrow> MatcherFunc \<Rightarrow> bool" where
  "is_atom name args m \<longleftrightarrow>
     name \<noteq> [] \<and> list_all alpha_byte name \<and> (length args = 1 \<or> length args = 2) \<and> list_all printable args
     \<and> matcher_named name args = Inr m"

lemma alpha_solid: "alpha_byte c \<Longrightarrow> solid c \<and> IsLetter c \<and> c \<notin> {CHR ''('', CHR '')'', CHR ''&'', CHR ''|'', CHR 0x27, CHR 0x22} \<and> \<not> IsSpace c"
  by (auto simp: alpha_byte_def solid_def IsLetter_def IsSpace_def byte_def Let_def)

lemma createMatcher_print_atom:
  assumes "is_atom name args m"
  shows "createMatcher (print_atom name args) = Inr m"
proof -
  have name: "TrimSpace name = name" "CHR ''('' \<notin> set name"
    using assms alpha_solid by (auto simp: is_atom_def list_all_iff)
  have "parseArgs (strings_Join (map quoted args) '','') = Inr args
      \<and> TrimSpace (strings_Join (map quoted args) '','') = strings_Join (map quoted args) '',''"
    using assms parseArgs_quoted TrimSpace_quoted(1) [of _ "'',''"]
    by (auto simp: is_atom_def length_Suc_conv numeral_2_eq_2)
  then show ?thesis
    using createMatcher_atom [OF name(2,1)] assms by (simp add: print_atom_def is_atom_def)
qed

text \<open>Reading one token off a string.\<close>

lemma skip_from_rest:
  "pos \<le> length input \<Longrightarrow>
   skip_from input pos \<le> length input \<and> drop (skip_from input pos) input = dropWhile IsSpace (drop pos input)"
proof (induction input pos rule: skip_from.induct)
  case (1 input pos)
  show ?case
  proof (cases "pos < length input")
    case True
    then show ?thesis using 1 by (subst (1 2) skip_from.simps) (auto simp: Cons_nth_drop_Suc [symmetric])
  qed (use 1 in \<open>auto simp: skip_from.simps\<close>)
qed

definition lexes_string :: "string \<Rightarrow> Token list \<Rightarrow> bool" where
  "lexes_string s ts \<longleftrightarrow> (\<forall>input pos. pos \<le> length input \<longrightarrow> drop pos input = s \<longrightarrow> lexes \<lparr>lx_input = input, lx_pos = pos\<rparr> ts)"

text \<open>One step of the lexer at a position where the rest of the input is \<open>c # s\<close> and \<open>c\<close> is not a space.\<close>

lemma skipWhitespace_here:
  assumes "pos \<le> length input" and "drop pos input = c # s" and "\<not> IsSpace c"
  shows "skip_from input pos = pos" and "pos < length input" and "input ! pos = c" and "drop (Suc pos) input = s"
proof -
  show lt: "pos < length input" using assms(1,2) by (cases "pos = length input") auto
  then show "input ! pos = c" "drop (Suc pos) input = s" using assms(2) by (simp_all add: Cons_nth_drop_Suc [symmetric])
  then show "skip_from input pos = pos" using assms(3) by (simp add: skip_from.simps)
qed

lemma skipWhitespace_here2:
  assumes "pos \<le> length input" and "drop pos input = c # d # s" and "\<not> IsSpace c"
  shows "skip_from input pos = pos" and "Suc pos < length input" and "Suc (Suc pos) \<le> length input" and "input ! pos = c" and "input ! Suc pos = d"
    and "drop (Suc (Suc pos)) input = s"
proof -
  note h = skipWhitespace_here [OF assms]
  show "skip_from input pos = pos" "input ! pos = c" by (rule h)+
  show lt: "Suc pos < length input" using h(2,4) by (cases "Suc pos = length input") auto
  then show "Suc (Suc pos) \<le> length input" by simp
  from lt h(4) show "input ! Suc pos = d" "drop (Suc (Suc pos)) input = s" by (simp_all add: Cons_nth_drop_Suc [symmetric])
qed

lemma lexes_string_step:
  assumes "\<And>input pos. pos \<le> length input \<Longrightarrow> drop pos input = s \<Longrightarrow>
      \<exists>pos'. nextToken \<lparr>lx_input = input, lx_pos = pos\<rparr> = Inr (t, \<lparr>lx_input = input, lx_pos = pos'\<rparr>)
        \<and> pos' \<le> length input \<and> drop pos' input = s'"
    and "tk_Type t \<noteq> TokenEOF" and "lexes_string s' ts"
  shows "lexes_string s (t # ts)"
  unfolding lexes_string_def
proof (intro allI impI)
  fix input pos assume "pos \<le> length input" "drop pos input = s"
  then obtain pos' where "nextToken \<lparr>lx_input = input, lx_pos = pos\<rparr> = Inr (t, \<lparr>lx_input = input, lx_pos = pos'\<rparr>)"
    "pos' \<le> length input" "drop pos' input = s'"
    using assms(1) by blast
  then show "lexes \<lparr>lx_input = input, lx_pos = pos\<rparr> (t # ts)"
    using assms(2,3) unfolding lexes_string_def by (intro lexes_token) auto
qed

lemma lexes_string_Nil: "lexes_string [] []"
  unfolding lexes_string_def
proof (intro allI impI)
  fix input :: string and pos assume "pos \<le> length input" "drop pos input = []"
  then show "lexes \<lparr>lx_input = input, lx_pos = pos\<rparr> []"
    by (intro lexes_eof) (auto simp: nextToken_eq skip_from.simps Let_def)
qed

lemma lexes_cong: "nextToken l = nextToken l' \<Longrightarrow> lexes l ts \<longleftrightarrow> lexes l' ts"
  by (subst (1 2) lexes.simps) simp

lemma lexes_string_space:
  assumes "lexes_string s ts"
  shows "lexes_string (CHR '' '' # s) ts"
  unfolding lexes_string_def
proof (intro allI impI)
  fix input pos assume h: "pos \<le> length input" "drop pos input = CHR '' '' # s"
  then have lt: "pos < length input" by (cases "pos = length input") auto
  with h(2) have n: "input ! pos = CHR '' ''" "drop (Suc pos) input = s" by (simp_all add: Cons_nth_drop_Suc [symmetric])
  then have "skip_from input pos = skip_from input (Suc pos)"
    using lt by (subst skip_from.simps) (simp add: IsSpace_def byte_def)
  then have "nextToken \<lparr>lx_input = input, lx_pos = pos\<rparr> = nextToken \<lparr>lx_input = input, lx_pos = Suc pos\<rparr>"
    by (simp add: nextToken_eq)
  moreover have "lexes \<lparr>lx_input = input, lx_pos = Suc pos\<rparr> ts"
    using assms n(2) lt unfolding lexes_string_def by (simp add: Suc_leI)
  ultimately show "lexes \<lparr>lx_input = input, lx_pos = pos\<rparr> ts" using lexes_cong by blast
qed

lemma lexes_string_punct:
  assumes "lexes_string s ts"
  shows "lexes_string (CHR ''('' # s) (\<lparr>tk_Type = TokenLParen, tk_Value = ''(''\<rparr> # ts)"
    and "lexes_string (CHR '')'' # s) (\<lparr>tk_Type = TokenRParen, tk_Value = '')''\<rparr> # ts)"
    and "lexes_string (CHR ''&'' # CHR ''&'' # s) (\<lparr>tk_Type = TokenAnd, tk_Value = ''&&''\<rparr> # ts)"
    and "lexes_string (CHR ''|'' # CHR ''|'' # s) (\<lparr>tk_Type = TokenOr, tk_Value = ''||''\<rparr> # ts)"
proof -
  have sp: "\<not> IsSpace CHR ''(''" "\<not> IsSpace CHR '')''" "\<not> IsSpace CHR ''&''" "\<not> IsSpace CHR ''|''"
    by (simp_all add: IsSpace_def byte_def)
  note defs = nextToken_eq Let_def
  show "lexes_string (CHR ''('' # s) (\<lparr>tk_Type = TokenLParen, tk_Value = ''(''\<rparr> # ts)"
    by (rule lexes_string_step [OF _ _ assms])
      (use skipWhitespace_here [OF _ _ sp(1)] in \<open>auto simp: defs intro!: exI [of _ "Suc _"]\<close>)
  show "lexes_string (CHR '')'' # s) (\<lparr>tk_Type = TokenRParen, tk_Value = '')''\<rparr> # ts)"
    by (rule lexes_string_step [OF _ _ assms])
      (use skipWhitespace_here [OF _ _ sp(2)] in \<open>auto simp: defs intro!: exI [of _ "Suc _"]\<close>)
  show "lexes_string (CHR ''&'' # CHR ''&'' # s) (\<lparr>tk_Type = TokenAnd, tk_Value = ''&&''\<rparr> # ts)"
    by (rule lexes_string_step [OF _ _ assms])
      (use skipWhitespace_here2 [OF _ _ sp(3)] in \<open>auto simp: defs intro!: exI [of _ "Suc (Suc _)"]\<close>)
  show "lexes_string (CHR ''|'' # CHR ''|'' # s) (\<lparr>tk_Type = TokenOr, tk_Value = ''||''\<rparr> # ts)"
    by (rule lexes_string_step [OF _ _ assms])
      (use skipWhitespace_here2 [OF _ _ sp(4)] in \<open>auto simp: defs intro!: exI [of _ "Suc (Suc _)"]\<close>)
qed

text \<open>An atom is one token.\<close>

lemma matcher_len_quoted:
  assumes "CHR 0x27 \<notin> set a" and "matcher_len None s = Some n"
  shows "matcher_len None (quoted a @ s) = Some (length (quoted a) + n)"
proof -
  have "CHR 0x27 \<notin> set a \<Longrightarrow> matcher_len (Some CHR 0x27) (a @ CHR 0x27 # s) = Some (Suc (length a) + n)" for a
    by (induction a) (auto simp: assms(2))
  then show ?thesis using assms(1) by (simp add: quoted_def)
qed

lemma matcher_len_plain:
  "list_all alpha_byte xs \<Longrightarrow> matcher_len None s = Some n \<Longrightarrow> matcher_len None (xs @ s) = Some (length xs + n)"
  by (induction xs) (auto dest!: alpha_solid)

lemma matcher_len_atom:
  assumes "is_atom name args m"
  shows "matcher_len None (print_atom name args @ s) = Some (length (print_atom name args))"
proof -
  have q: "matcher_len None t = Some n \<Longrightarrow> matcher_len None (quoted a @ t) = Some (length (quoted a) + n)"
    if "a \<in> set args" for a t n
    using assms that by (intro matcher_len_quoted) (auto simp: is_atom_def list_all_iff printable_def)
  have "matcher_len None (strings_Join (map quoted args) '','' @ '')'' @ s) = Some (length (strings_Join (map quoted args) '','') + 1)"
    using assms q by (auto simp: is_atom_def length_Suc_conv numeral_2_eq_2)
  then have "matcher_len None (''('' @ strings_Join (map quoted args) '','' @ '')'' @ s) = Some (length (strings_Join (map quoted args) '','') + 2)"
    by simp
  from matcher_len_plain [OF _ this, of name] show ?thesis using assms by (simp add: print_atom_def is_atom_def)
qed

lemma lexes_string_atom:
  assumes at: "is_atom name args m" and "lexes_string s ts"
  shows "lexes_string (print_atom name args @ s) (\<lparr>tk_Type = TokenMatcher, tk_Value = print_atom name args\<rparr> # ts)"
proof (rule lexes_string_step [OF _ _ assms(2)])
  fix input pos assume h: "pos \<le> length input" "drop pos input = print_atom name args @ s"
  obtain c cs where c: "print_atom name args = c # cs" "alpha_byte c"
    using at by (cases name) (auto simp: is_atom_def print_atom_def)
  note ch = alpha_solid [OF c(2)]
  note here = skipWhitespace_here [of pos input c "cs @ s"]
  have r: "read_from input pos pos False CHR 0x00 = Some (pos + length (print_atom name args))"
    using ch matcher_len_atom [OF at, of s] by (subst read_from_eq) (auto simp: h(2) c(1) HasPrefix_def)
  have "pos + length (print_atom name args) \<le> length input"
    using h by (metis add_le_cancel_left le_add_diff_inverse length_append length_drop le_add1)
  moreover have "drop (pos + length (print_atom name args)) input = s"
    using h(2) by (metis add.commute append_eq_conv_conj drop_drop)
  moreover have "nextToken \<lparr>lx_input = input, lx_pos = pos\<rparr>
      = Inr (\<lparr>tk_Type = TokenMatcher, tk_Value = print_atom name args\<rparr>,
             \<lparr>lx_input = input, lx_pos = pos + length (print_atom name args)\<rparr>)"
    using ch here h c r by (simp add: nextToken_eq readMatcher_eq)
  ultimately show "\<exists>pos'. nextToken \<lparr>lx_input = input, lx_pos = pos\<rparr>
      = Inr (\<lparr>tk_Type = TokenMatcher, tk_Value = print_atom name args\<rparr>, \<lparr>lx_input = input, lx_pos = pos'\<rparr>)
      \<and> pos' \<le> length input \<and> drop pos' input = s" by blast
qed simp

section \<open>The round trip\<close>

abbreviation lparen :: Token where "lparen \<equiv> \<lparr>tk_Type = TokenLParen, tk_Value = ''(''\<rparr>"
abbreviation rparen :: Token where "rparen \<equiv> \<lparr>tk_Type = TokenRParen, tk_Value = '')''\<rparr>"
abbreviation and_token :: Token where "and_token \<equiv> \<lparr>tk_Type = TokenAnd, tk_Value = ''&&''\<rparr>"
abbreviation or_token :: Token where "or_token \<equiv> \<lparr>tk_Type = TokenOr, tk_Value = ''||''\<rparr>"

definition paren_tokens :: "bool \<Rightarrow> Token list \<Rightarrow> Token list" where
  "paren_tokens b ts = (if b then lparen # ts @ [rparen] else ts)"

text \<open>The tokens of a printed rule.\<close>

fun rule_tokens :: "nat \<Rightarrow> rule_tree \<Rightarrow> Token list" where
  "rule_tokens k (RAnd x y) = paren_tokens (1 < k) (rule_tokens 1 x @ and_token # rule_tokens 2 y)"
| "rule_tokens k (ROr x y) = paren_tokens (0 < k) (rule_tokens 0 x @ or_token # rule_tokens 1 y)"
| "rule_tokens k r = [\<lparr>tk_Type = TokenMatcher, tk_Value = print_rule k r\<rparr>]"

lemma atoms:
  "printable a \<Longrightarrow> is_atom ''PathPrefix'' [a] (MatchPathPrefix a)"
  "printable a \<Longrightarrow> is_atom ''Path'' [a] (MatchPath a)"
  "printable a \<Longrightarrow> is_atom ''Method'' [a] (MatchMethod a)"
  "printable a \<Longrightarrow> printable b \<Longrightarrow> is_atom ''Header'' [a, b] (MatchHeader a b)"
  "printable a \<Longrightarrow> is_atom ''ClientIP'' [a] (MatchClientIP a)"
  by (simp_all add: is_atom_def matcher_named_eq alpha_byte_def byte_def)

lemma lexes_print_rule:
  "printable_rule r \<Longrightarrow> lexes_string s ts \<Longrightarrow> lexes_string (print_rule k r @ s) (rule_tokens k r @ ts)"
proof (induction r arbitrary: k s ts)
  case (RAnd x y)
  have inner: "lexes_string (print_rule 1 x @ '' && '' @ print_rule 2 y @ s) (rule_tokens 1 x @ and_token # rule_tokens 2 y @ ts)"
    if "lexes_string s ts" for s ts
    using RAnd.IH(1) [of _ _ 1] RAnd.IH(2) [of s ts 2] RAnd.prems that lexes_string_space lexes_string_punct(3) by simp
  show ?case
  proof (cases "1 < k")
    case True
    then show ?thesis
      using lexes_string_punct(1) [OF inner [OF lexes_string_punct(2) [OF RAnd.prems(2)]]] by (simp add: parens_def paren_tokens_def)
  qed (use inner [OF RAnd.prems(2)] in \<open>simp add: parens_def paren_tokens_def\<close>)
next
  case (ROr x y)
  have inner: "lexes_string (print_rule 0 x @ '' || '' @ print_rule 1 y @ s) (rule_tokens 0 x @ or_token # rule_tokens 1 y @ ts)"
    if "lexes_string s ts" for s ts
    using ROr.IH(1) [of _ _ 0] ROr.IH(2) [of s ts 1] ROr.prems that lexes_string_space lexes_string_punct(4) by simp
  show ?case
  proof (cases "0 < k")
    case True
    then show ?thesis
      using lexes_string_punct(1) [OF inner [OF lexes_string_punct(2) [OF ROr.prems(2)]]] by (simp add: parens_def paren_tokens_def)
  qed (use inner [OF ROr.prems(2)] in \<open>simp add: parens_def paren_tokens_def\<close>)
qed (use lexes_string_atom [OF atoms(1)] lexes_string_atom [OF atoms(2)] lexes_string_atom [OF atoms(3)]
      lexes_string_atom [OF atoms(4)] lexes_string_atom [OF atoms(5)] in auto)

lemma atom_factor:
  assumes "is_atom name args m"
  shows "is_factor [\<lparr>tk_Type = TokenMatcher, tk_Value = print_atom name args\<rparr>] m"
  by (rule factor_matcher) (simp_all add: createMatcher_print_atom [OF assms])

lemma ParseRule_atom:
  assumes "is_atom name args m"
  shows "ParseRule (print_atom name args) = Inr m"
proof (rule ParseRule_derived)
  show "lexes (start_lexer (print_atom name args)) [\<lparr>tk_Type = TokenMatcher, tk_Value = print_atom name args\<rparr>]"
    using lexes_string_atom [OF assms lexes_string_Nil] by (simp add: lexes_string_def)
  show "is_expr [\<lparr>tk_Type = TokenMatcher, tk_Value = print_atom name args\<rparr>] m"
    by (intro expr_term term_factor atom_factor assms)
qed

lemma paren_factor: "is_expr ts m \<Longrightarrow> is_factor (lparen # ts @ [rparen]) m"
  using factor_paren [of lparen ts m rparen] by simp

lemma derives_print_rule:
  "printable_rule r \<Longrightarrow>
     is_expr (rule_tokens 0 r) (meaning r) \<and> is_term (rule_tokens 1 r) (meaning r) \<and> is_factor (rule_tokens 2 r) (meaning r)"
proof (induction r)
  case (RAnd x y)
  then have "is_term (rule_tokens 1 x @ and_token # rule_tokens 2 y) (MatchAnd (meaning x) (meaning y))"
    by (intro term_and) auto
  then show ?case using expr_term paren_factor [OF expr_term] by (fastforce simp: paren_tokens_def)
next
  case (ROr x y)
  then have "is_expr (rule_tokens 0 x @ or_token # rule_tokens 1 y) (MatchOr (meaning x) (meaning y))"
    by (intro expr_or) auto
  then show ?case using term_factor [OF paren_factor] paren_factor by (fastforce simp: paren_tokens_def)
qed (use atom_factor [OF atoms(1)] atom_factor [OF atoms(2)] atom_factor [OF atoms(3)] atom_factor [OF atoms(4)]
      atom_factor [OF atoms(5)] term_factor expr_term in auto)

text \<open>
  C15. Parsing reads back what was printed. For every rule tree, of any nesting, whose arguments can be quoted, the text
  printed with the fewest parentheses that the precedences of \<^verbatim>\<open>&&\<close> and \<^verbatim>\<open>||\<close> allow parses to the matcher that the tree means.
\<close>

theorem parse_print_rule:
  assumes "printable_rule r"
  shows "ParseRule (print_rule 0 r) = Inr (meaning r)"
proof -
  have "lexes_string (print_rule 0 r @ []) (rule_tokens 0 r @ [])"
    by (rule lexes_print_rule [OF assms lexes_string_Nil])
  then have "lexes \<lparr>lx_input = print_rule 0 r, lx_pos = 0\<rparr> (rule_tokens 0 r)"
    by (simp add: lexes_string_def)
  then show ?thesis using derives_print_rule [OF assms] ParseRule_derived by blast
qed

theorem parse_print_rule_witness:
  "\<exists>m. ParseRule (print_rule 0 (RAnd (ROr (RPath ''/a'') (RMethod ''GET'')) (RPathPrefix ''/api''))) = Inr m
     \<and> m demo_request"
  using parse_print_rule [of "RAnd (ROr (RPath ''/a'') (RMethod ''GET'')) (RPathPrefix ''/api'')"]
  by (simp add: printable_def solid_def byte_def demo_request_def MatchAnd_def MatchOr_def MatchMethod_def
      MatchPathPrefix_def ToUpper_def upper_byte_def HasPrefix_def)

end
