(* ===== verification/Routes.thy ===== *)
theory Routes
  imports RuleText "HOL-Library.Product_Lexorder"
begin

text \<open>
  The table of routes, \<^verbatim>\<open>src/internal/router/router.go\<close>. A route is polymorphic in its handler. \<^verbatim>\<open>sort.Slice\<close> promises a sorted
  permutation and leaves the order of equal elements open, so the sort is an argument of \<open>AddRoute\<close> and the lemmas
  about the table stand in the locale \<open>slice_sort\<close>, under that promise; it is interpreted on the insertion sort
  that the library runs on slices of up to 12 elements.
\<close>

section \<open>State and operations\<close>

record 'h Route =
  rt_Name :: string
  rt_RuleString :: string
  rt_Priority :: int
  rt_Middlewares :: "string list"
  rt_Service :: string
  rt_Match :: MatcherFunc
  rt_Handler :: 'h

record 'h RouteManager =
  rm_routes :: "'h Route list"

definition NewRouteManager :: "'h RouteManager" where
  "NewRouteManager = \<lparr>rm_routes = []\<rparr>"

text \<open>The \<^verbatim>\<open>less\<close> function of the sort: does the first route go before the second one?\<close>

definition route_before :: "'h Route \<Rightarrow> 'h Route \<Rightarrow> bool" where
  "route_before x y =
     (if rt_Priority x = rt_Priority y
      then length (rt_RuleString x) > length (rt_RuleString y)
      else rt_Priority x > rt_Priority y)"

type_synonym 'h slice_sorter = "'h Route list \<Rightarrow> 'h Route list"

definition AddRoute ::
  "'h slice_sorter \<Rightarrow> string \<Rightarrow> string \<Rightarrow> int \<Rightarrow> string list \<Rightarrow> string \<Rightarrow> 'h \<Rightarrow> 'h RouteManager \<Rightarrow> 'h RouteManager result" where
  "AddRoute sort_Slice name ruleStr priority middlewares service handler m =
     (case ParseRule ruleStr of
        Inl err \<Rightarrow> Inl (GoError (''failed to parse rule for router '' @ dquoted name @ '': '' @ error_text err))
      | Inr matcher \<Rightarrow>
          Inr (m\<lparr>rm_routes := sort_Slice (rm_routes m @
            [\<lparr>rt_Name = name, rt_RuleString = ruleStr, rt_Priority = priority, rt_Middlewares = middlewares,
              rt_Service = service, rt_Match = matcher, rt_Handler = handler\<rparr>])\<rparr>))"

fun route_loop :: "'h Route list \<Rightarrow> Request \<Rightarrow> 'h Route option" where
  "route_loop [] req = None"
| "route_loop (r # rs) req = (if rt_Match r req then Some r else route_loop rs req)"

definition RouteManager_Route :: "'h RouteManager \<Rightarrow> Request \<Rightarrow> 'h Route option" where
  "RouteManager_Route m req = route_loop (rm_routes m) req"

text \<open>The insertion sort of package \<^verbatim>\<open>sort\<close>: each element moves left past the elements that it goes before.\<close>

fun sift_left :: "'h Route \<Rightarrow> 'h Route list \<Rightarrow> 'h Route list" where
  "sift_left x [] = [x]"
| "sift_left x (y # ys) = (if route_before x y then y # sift_left x ys else x # y # ys)"

definition insertionSort :: "'h slice_sorter" where
  "insertionSort xs = rev (foldl (\<lambda>sorted x. sift_left x sorted) [] xs)"

section \<open>The order\<close>

lemma route_before_irrefl: "\<not> route_before x x"
  by (simp add: route_before_def)

lemma route_before_trans: "route_before x y \<Longrightarrow> route_before y z \<Longrightarrow> route_before x z"
  by (auto simp: route_before_def split: if_splits)

text \<open>\<open>in_order x y\<close>: the sort may leave \<open>x\<close> in front of \<open>y\<close>.\<close>

definition in_order :: "'h Route \<Rightarrow> 'h Route \<Rightarrow> bool" where
  "in_order x y \<longleftrightarrow> \<not> route_before y x"

lemma in_order_iff:
  "in_order x y \<longleftrightarrow> rt_Priority y < rt_Priority x
     \<or> rt_Priority y = rt_Priority x \<and> length (rt_RuleString y) \<le> length (rt_RuleString x)"
  by (auto simp: in_order_def route_before_def)

lemma in_order_trans: "in_order x y \<Longrightarrow> in_order y z \<Longrightarrow> in_order x z"
  by (auto simp: in_order_iff)

lemma in_order_total: "in_order x y \<or> in_order y x"
  by (auto simp: in_order_iff)

locale slice_sort =
  fixes sort_Slice :: "'h slice_sorter"
  assumes permutes: "mset (sort_Slice xs) = mset xs"
    and sorts: "sorted_wrt in_order (sort_Slice xs)"
begin

lemma set_sort [simp]: "set (sort_Slice xs) = set xs"
  using permutes by (metis set_mset_mset)

lemma AddRoute_sorted:
  "AddRoute sort_Slice name rule pri mws svc h m = Inr m' \<Longrightarrow> sorted_wrt in_order (rm_routes m')"
  by (auto simp: AddRoute_def sorts split: sum.splits)

lemma AddRoute_adds:
  assumes "AddRoute sort_Slice name rule pri mws svc h m = Inr m'"
  shows "\<exists>matcher. ParseRule rule = Inr matcher \<and> mset (rm_routes m')
     = add_mset \<lparr>rt_Name = name, rt_RuleString = rule, rt_Priority = pri, rt_Middlewares = mws,
          rt_Service = svc, rt_Match = matcher, rt_Handler = h\<rparr> (mset (rm_routes m))"
  using assms by (auto simp: AddRoute_def permutes split: sum.splits)

end

lemma sift_left_mset: "mset (sift_left x ys) = add_mset x (mset ys)"
  by (induction ys) auto

lemma sift_left_sorted:
  "sorted_wrt (\<lambda>x y. in_order y x) ys \<Longrightarrow> sorted_wrt (\<lambda>x y. in_order y x) (sift_left x ys)"
proof (induction ys)
  case (Cons y ys)
  have "set (sift_left x ys) = insert x (set ys)" by (metis sift_left_mset set_mset_add_mset_insert set_mset_mset)
  then show ?case
    using Cons route_before_trans by (auto simp: in_order_iff route_before_def split: if_splits)
qed simp

lemma insertionSort_fold:
  "sorted_wrt (\<lambda>x y. in_order y x) ys \<Longrightarrow>
     mset (foldl (\<lambda>s x. sift_left x s) ys xs) = mset ys + mset xs
     \<and> sorted_wrt (\<lambda>x y. in_order y x) (foldl (\<lambda>s x. sift_left x s) ys xs)"
  by (induction xs arbitrary: ys) (auto simp: sift_left_mset sift_left_sorted)

interpretation go_sort: slice_sort insertionSort
proof
  fix xs :: "'a Route list"
  show "mset (insertionSort xs) = mset xs" and "sorted_wrt in_order (insertionSort xs)"
    using insertionSort_fold [of "[]" xs] by (simp_all add: insertionSort_def sorted_wrt_rev)
qed

section \<open>Tables built by a sequence of additions\<close>

type_synonym 'h route_spec = "string \<times> string \<times> int \<times> string list \<times> string \<times> 'h"

fun add_routes :: "'h slice_sorter \<Rightarrow> 'h route_spec list \<Rightarrow> 'h RouteManager \<Rightarrow> 'h RouteManager result" where
  "add_routes srt [] m = Inr m"
| "add_routes srt ((name, rule, pri, mws, svc, h) # specs) m =
     (case AddRoute srt name rule pri mws svc h m of Inl e \<Rightarrow> Inl e | Inr m1 \<Rightarrow> add_routes srt specs m1)"

text \<open>The route that a specification stands for.\<close>

definition route_of :: "'h route_spec \<Rightarrow> 'h Route option" where
  "route_of = (\<lambda>(name, rule, pri, mws, svc, h).
     case ParseRule rule of
       Inl e \<Rightarrow> None
     | Inr matcher \<Rightarrow> Some \<lparr>rt_Name = name, rt_RuleString = rule, rt_Priority = pri, rt_Middlewares = mws,
                         rt_Service = svc, rt_Match = matcher, rt_Handler = h\<rparr>)"

lemma add_routes_contents:
  assumes "slice_sort srt" and "add_routes srt specs m = Inr m'" and "sorted_wrt in_order (rm_routes m)"
  shows "sorted_wrt in_order (rm_routes m') \<and> (\<forall>s \<in> set specs. route_of s \<noteq> None)
     \<and> mset (rm_routes m') = mset (rm_routes m) + image_mset (the \<circ> route_of) (mset specs)"
  using assms(2,3)
proof (induction specs arbitrary: m)
  case (Cons spec specs)
  obtain name rule pri mws svc h where spec: "spec = (name, rule, pri, mws, svc, h)" by (cases spec) auto
  from Cons.prems(1) obtain m1 where m1: "AddRoute srt name rule pri mws svc h m = Inr m1"
    and rest: "add_routes srt specs m1 = Inr m'"
    by (auto simp: spec split: sum.splits)
  have so: "sorted_wrt in_order (rm_routes m1)" by (rule slice_sort.AddRoute_sorted [OF assms(1) m1])
  show ?case
    using Cons.IH [OF rest so] slice_sort.AddRoute_adds [OF assms(1) m1] by (auto simp: spec route_of_def)
qed simp

lemma route_loop_first:
  assumes "sorted_wrt in_order rs"
  shows "case route_loop rs req of
      None \<Rightarrow> \<forall>r \<in> set rs. \<not> rt_Match r req
    | Some r \<Rightarrow> r \<in> set rs \<and> rt_Match r req \<and> (\<forall>r' \<in> set rs. rt_Match r' req \<longrightarrow> in_order r r')"
  using assms
proof (induction rs)
  case (Cons x xs)
  then show ?case
    using in_order_total [of x x] by (auto split: option.splits)
qed simp

text \<open>The search of a table that was built by a sequence of additions.\<close>

lemma table_search:
  assumes "slice_sort srt" and "add_routes srt specs NewRouteManager = Inr m"
  shows "\<forall>s \<in> set specs. route_of s \<noteq> None"
    and "set (rm_routes m) = (the \<circ> route_of) ` set specs"
    and "RouteManager_Route m req = None \<Longrightarrow> \<forall>r \<in> set (rm_routes m). \<not> rt_Match r req"
    and "RouteManager_Route m req = Some r \<Longrightarrow>
      r \<in> set (rm_routes m) \<and> rt_Match r req \<and> (\<forall>r' \<in> set (rm_routes m). rt_Match r' req \<longrightarrow> in_order r r')"
proof -
  have c: "sorted_wrt in_order (rm_routes m)" "\<forall>s \<in> set specs. route_of s \<noteq> None"
    "mset (rm_routes m) = image_mset (the \<circ> route_of) (mset specs)"
    using add_routes_contents [OF assms] by (simp_all add: NewRouteManager_def)
  show "\<forall>s \<in> set specs. route_of s \<noteq> None" by (rule c(2))
  show "set (rm_routes m) = (the \<circ> route_of) ` set specs" using arg_cong [OF c(3), of set_mset] by simp
  show "\<forall>r \<in> set (rm_routes m). \<not> rt_Match r req" if "RouteManager_Route m req = None"
    using route_loop_first [OF c(1), of req] that unfolding RouteManager_Route_def by auto
  show "r \<in> set (rm_routes m) \<and> rt_Match r req \<and> (\<forall>r' \<in> set (rm_routes m). rt_Match r' req \<longrightarrow> in_order r r')"
    if "RouteManager_Route m req = Some r"
    using route_loop_first [OF c(1), of req] that unfolding RouteManager_Route_def by auto
qed

lemma route_configured:
  assumes "slice_sort srt" and "add_routes srt specs NewRouteManager = Inr m" and "RouteManager_Route m req = Some r"
  obtains s where "s \<in> set specs" "route_of s = Some r" "rt_Match r req"
    "\<And>s'. s' \<in> set specs \<Longrightarrow> rt_Match (the (route_of s')) req \<Longrightarrow> in_order r (the (route_of s'))"
  using table_search(1,2) [OF assms(1,2)] table_search(4) [OF assms] by (auto simp: image_iff)

lemma no_route_configured:
  assumes "slice_sort srt" and "add_routes srt specs NewRouteManager = Inr m" and "RouteManager_Route m req = None" and "s \<in> set specs"
  shows "\<not> rt_Match (the (route_of s)) req"
  using table_search(2) [OF assms(1,2)] table_search(3) [OF assms(1-3)] assms(4) by auto

text \<open>
  C24. Routing picks the best matching route. In a table built by any successful sequence of additions, with any sort that
  keeps the promise of \<^verbatim>\<open>sort.Slice\<close>, a request goes to a configured route that matches it and whose priority is the highest
  among the matching ones, with the longest rule among those of that priority; there is no route exactly
  when no configured rule matches.
\<close>

theorem route_best_match:
  assumes "slice_sort srt" and "add_routes srt specs NewRouteManager = Inr m"
  shows "case RouteManager_Route m req of
      None \<Rightarrow> \<forall>s \<in> set specs. \<not> rt_Match (the (route_of s)) req
    | Some r \<Rightarrow> (\<exists>s \<in> set specs. route_of s = Some r) \<and> rt_Match r req
        \<and> (\<forall>(name, rule, pri, mws, svc, h) \<in> set specs. \<forall>matcher. ParseRule rule = Inr matcher \<and> matcher req \<longrightarrow>
             pri < rt_Priority r \<or> pri = rt_Priority r \<and> length rule \<le> length (rt_RuleString r))"
proof (cases "RouteManager_Route m req")
  case None
  then show ?thesis using no_route_configured [OF assms] by simp
next
  case (Some r)
  from Some show ?thesis
  proof (rule route_configured [OF assms])
    fix s assume s: "s \<in> set specs" "route_of s = Some r" "rt_Match r req"
      and best: "\<And>s'. s' \<in> set specs \<Longrightarrow> rt_Match (the (route_of s')) req \<Longrightarrow> in_order r (the (route_of s'))"
    have "pri < rt_Priority r \<or> pri = rt_Priority r \<and> length rule \<le> length (rt_RuleString r)"
      if "(name, rule, pri, mws, svc, h) \<in> set specs" "ParseRule rule = Inr matcher" "matcher req" for name rule pri mws svc h matcher
      using best [OF that(1)] that(2,3) by (simp add: route_of_def in_order_iff)
    then show ?thesis using s Some by fastforce
  qed
qed

text \<open>Priority and length of a route, in ascending order of precedence.\<close>

definition rank :: "'h Route \<Rightarrow> int \<times> int" where
  "rank r = (- rt_Priority r, - int (length (rt_RuleString r)))"

lemma in_order_rank: "in_order x y \<longleftrightarrow> rank x \<le> rank y"
  by (auto simp: in_order_iff rank_def less_eq_prod_def)

lemma sorted_unique:
  assumes "sorted_wrt in_order xs" and "sorted_wrt in_order ys" and "mset xs = mset ys" and "distinct (map rank xs)"
  shows "xs = ys"
proof (rule map_sorted_distinct_set_unique [of rank])
  have "set xs = set ys" using assms(3) by (metis set_mset_mset)
  then show "set xs = set ys" "inj_on rank (set xs \<union> set ys)" using assms(4) by (simp_all add: distinct_map)
  show "distinct (map rank ys)" using assms(3,4) by (metis mset_eq_imp_distinct_iff mset_map)
qed (use assms in \<open>simp_all add: sorted_map in_order_rank [abs_def, symmetric]\<close>)

text \<open>
  The table does not depend on the order of the additions, and so not on the order in which Go visits the
  configured routers, as long as no two of them have the same priority and the same length of the rule; nor does it
  depend on the sort.
\<close>

theorem route_table_deterministic:
  assumes "slice_sort srt" and "slice_sort srt'"
    and "add_routes srt specs NewRouteManager = Inr m" and "add_routes srt' specs' NewRouteManager = Inr m'"
    and "mset specs = mset specs'" and "distinct (map (rank \<circ> the \<circ> route_of) specs)"
  shows "rm_routes m = rm_routes m'"
proof (rule sorted_unique)
  show "sorted_wrt in_order (rm_routes m)" "sorted_wrt in_order (rm_routes m')"
    using add_routes_contents [OF assms(1,3)] add_routes_contents [OF assms(2,4)] by (simp_all add: NewRouteManager_def)
  have m: "mset (rm_routes m) = image_mset (the \<circ> route_of) (mset specs)"
    using add_routes_contents [OF assms(1,3)] by (simp add: NewRouteManager_def)
  moreover have "mset (rm_routes m') = image_mset (the \<circ> route_of) (mset specs')"
    using add_routes_contents [OF assms(2,4)] by (simp add: NewRouteManager_def)
  ultimately show "mset (rm_routes m) = mset (rm_routes m')" using assms(5) by simp
  have "mset (map rank (rm_routes m)) = mset (map (rank \<circ> the \<circ> route_of) specs)"
    by (simp add: m multiset.map_comp comp_def)
  then show "distinct (map rank (rm_routes m))" using assms(6) mset_eq_imp_distinct_iff by blast
qed

text \<open>Two routes for the witnesses: the second one has the higher priority.\<close>

definition demo_routes :: "nat route_spec list" where
  "demo_routes =
     [(''api'', print_atom ''PathPrefix'' [''/api''], 1, [], ''svc1'', 1),
      (''all'', print_atom ''PathPrefix'' [''/''], 5, [], ''svc2'', 2)]"

definition demo_table :: "nat RouteManager" where
  "demo_table = \<lparr>rm_routes =
     [\<lparr>rt_Name = ''all'', rt_RuleString = print_atom ''PathPrefix'' [''/''], rt_Priority = 5, rt_Middlewares = [],
       rt_Service = ''svc2'', rt_Match = MatchPathPrefix ''/'', rt_Handler = 2\<rparr>,
      \<lparr>rt_Name = ''api'', rt_RuleString = print_atom ''PathPrefix'' [''/api''], rt_Priority = 1, rt_Middlewares = [],
       rt_Service = ''svc1'', rt_Match = MatchPathPrefix ''/api'', rt_Handler = 1\<rparr>]\<rparr>"

lemma demo_rules:
  "ParseRule (print_atom ''PathPrefix'' [''/api'']) = Inr (MatchPathPrefix ''/api'')"
  "ParseRule (print_atom ''PathPrefix'' [''/'']) = Inr (MatchPathPrefix ''/'')"
  by (rule ParseRule_atom, rule atoms(1), simp add: printable_def solid_def byte_def)+

lemma demo_table_built:
  "add_routes insertionSort demo_routes NewRouteManager = Inr demo_table"
  "add_routes insertionSort (rev demo_routes) NewRouteManager = Inr demo_table"
  by (simp_all add: demo_routes_def demo_table_def NewRouteManager_def AddRoute_def demo_rules insertionSort_def route_before_def)

theorem route_best_match_witness:
  "\<exists>r. RouteManager_Route demo_table demo_request = Some r \<and> 5 \<le> rt_Priority r"
proof -
  have m: "MatchPathPrefix ''/'' demo_request" by (simp add: MatchPathPrefix_def demo_request_def HasPrefix_def)
  note best = route_best_match [OF go_sort.slice_sort_axioms demo_table_built(1), of demo_request]
  have "RouteManager_Route demo_table demo_request \<noteq> None"
    using best m by (auto simp: demo_routes_def route_of_def demo_rules split: option.splits)
  then obtain r where "RouteManager_Route demo_table demo_request = Some r" by blast
  then show ?thesis using best m by (auto simp: demo_routes_def demo_rules)
qed

theorem route_table_deterministic_witness:
  "rm_routes (projr (add_routes insertionSort demo_routes NewRouteManager))
   = rm_routes (projr (add_routes insertionSort (rev demo_routes) NewRouteManager))"
  using route_table_deterministic [OF go_sort.slice_sort_axioms go_sort.slice_sort_axioms demo_table_built]
  by (simp add: demo_table_built) 

end
