(* ===== verification/App.thy ===== *)
theory App
  imports Builder Routes
begin

text \<open>
  The application, \<^verbatim>\<open>src/cmd/loadbalancer/main.go\<close>: the handler of the traffic entrypoints, which asks the table of routes and falls back to the service
  \<^verbatim>\<open>default\<close>; the construction of managers and routes from a configuration; and the hot reload, which swaps them while requests are served. The state is read and
  written under a lock, so each of these is one step. Lines that go to the terminal by \<^verbatim>\<open>log.Printf\<close> are left out.
\<close>

section \<open>State\<close>

text \<open>The current service manager is given by its address in the world.\<close>

record 'l appState =
  as_cfg :: Config
  as_svcMgr :: nat
  as_routerMgr :: "'l Handler RouteManager"

text \<open>\<^verbatim>\<open>svcMgr.Get(name)\<close>, a handler or nil.\<close>

definition svc_Get :: "nat \<Rightarrow> string \<Rightarrow> 'l World \<Rightarrow> 'l Handler option" where
  "svc_Get a name w =
     (if a < length (wo_mgrs w) then map_option (proxy_ServeHTTP a name) (Manager_Get (wo_mgrs w ! a) name) else None)"

definition app_ServeHTTP :: "'l appState \<Rightarrow> 'l Handler" where
  "app_ServeHTTP s w rw req =
     (case RouteManager_Route (as_routerMgr s) req of
        Some route \<Rightarrow> rt_Handler route w rw req
      | None \<Rightarrow>
          (case svc_Get (as_svcMgr s) ''default'' w of
             Some defaultHandler \<Rightarrow> defaultHandler w rw req
           | None \<Rightarrow> reply (http_Error ''No matching service'' 502 rw) w req))"

section \<open>Construction\<close>

text \<open>The loop of \<^verbatim>\<open>initialize\<close> over the configured routers, in the order \<open>ks\<close>. When it fails, what it has added so far stays.\<close>

fun routers_loop ::
  "'l Deps \<Rightarrow> 'l Handler slice_sorter \<Rightarrow> string list \<Rightarrow> Config \<Rightarrow> 'l Builder \<Rightarrow> 'l appState \<times> 'l World
     \<Rightarrow> ('l appState \<times> 'l World) \<times> unit result" where
  "routers_loop d srt [] cfg b (s, w) = ((s, w), Inr ())"
| "routers_loop d srt (k # ks) cfg b (s, w) =
     (case cf_Routers cfg k of
        None \<Rightarrow> routers_loop d srt ks cfg b (s, w)
      | Some None \<Rightarrow> ((s, w), Inl (GoPanic ''nil router config''))
      | Some (Some rt) \<Rightarrow>
          (case svc_Get (as_svcMgr s) (rc_Service rt) w of
             None \<Rightarrow> ((s, w), Inl (GoError (''router '' @ dquoted k @ '' references unknown service '' @ dquoted (rc_Service rt))))
           | Some svcHandler \<Rightarrow>
               (case ResolveMiddlewares (rc_Middlewares rt) d (b, w) of
                  ((b1, w1), Inl err) \<Rightarrow>
                    ((s, w1), Inl (wrap_error (''router '' @ dquoted k @ '' middleware resolution failed: '') err))
                | ((b1, w1), Inr middlewares) \<Rightarrow>
                    (let finalHandler = (if length middlewares > 0 then Chain middlewares svcHandler else svcHandler)
                     in case AddRoute srt k (rc_Rule rt) (rc_Priority rt) (rc_Middlewares rt) (rc_Service rt) finalHandler
                               (as_routerMgr s) of
                          Inl err \<Rightarrow> ((s, w1), Inl (wrap_error (''failed to add router '' @ dquoted k @ '': '') err))
                        | Inr rm \<Rightarrow> routers_loop d srt ks cfg b1 (s\<lparr>as_routerMgr := rm\<rparr>, w1)))))"

text \<open>\<^verbatim>\<open>service.NewManager\<close> makes a new object; its monitors start at once.\<close>

definition new_manager :: "Config \<Rightarrow> 'l World \<Rightarrow> 'l World \<times> nat result" where
  "new_manager cfg w =
     (let (ks, w1) = draw_order w; (now, w2) = draw_clocks w1
      in case NewManager ks now cfg of
           Inl e \<Rightarrow> (w2, Inl e)
         | Inr m \<Rightarrow> (w2\<lparr>wo_mgrs := wo_mgrs w2 @ [m]\<rparr>, Inr (length (wo_mgrs w2))))"

definition initialize ::
  "'l Deps \<Rightarrow> 'l Handler slice_sorter \<Rightarrow> Config \<Rightarrow> 'l appState \<times> 'l World \<Rightarrow> ('l appState \<times> 'l World) \<times> unit result" where
  "initialize d srt cfg = (\<lambda>(s, w).
     case new_manager cfg w of
       (w1, Inl e) \<Rightarrow> ((s, w1), Inl e)
     | (w1, Inr a) \<Rightarrow>
         (let s1 = s\<lparr>as_svcMgr := a, as_routerMgr := NewRouteManager\<rparr>;
              mwBuilder = NewBuilder cfg (Some a);
              (ks, w2) = draw_order w1
          in routers_loop d srt ks cfg mwBuilder (s1, w2)))"

section \<open>Hot reload\<close>

definition SetProvider :: "nat \<Rightarrow> 'l World \<Rightarrow> 'l World" where
  "SetProvider p w = w\<lparr>wo_hub := wo_hub w\<lparr>hu_provider := p\<rparr>\<rparr>"

definition stop_manager :: "nat \<Rightarrow> 'l World \<Rightarrow> 'l World \<times> unit result" where
  "stop_manager a w =
     (let (ks, w1) = draw_order w
      in case Manager_Stop ks (wo_mgrs w1 ! a) of
           Inl e \<Rightarrow> (w1, Inl e)
         | Inr m \<Rightarrow> (w1\<lparr>wo_mgrs := (wo_mgrs w1)[a := m]\<rparr>, Inr ()))"

definition import_metrics :: "nat \<Rightarrow> nat \<Rightarrow> 'l World \<Rightarrow> 'l World" where
  "import_metrics new old w =
     (let (ks, w1) = draw_order w; (ord, w2) = draw_orders w1
      in w2\<lparr>wo_mgrs := (wo_mgrs w2)[new := Manager_ImportMetrics ks ord (Some (wo_mgrs w2 ! old)) (wo_mgrs w2 ! new)]\<rparr>)"

text \<open>\<open>decoded\<close> is the outcome of reading and decoding the file.\<close>

definition load_config :: "Config result \<Rightarrow> 'l World \<Rightarrow> 'l World \<times> Config result" where
  "load_config decoded w =
     (let (ks, w1) = draw_order w; (es, w2) = draw_order w1; (vs, w3) = draw_order w2 in (w3, Load ks es vs decoded))"

definition reload ::
  "'l Deps \<Rightarrow> 'l Handler slice_sorter \<Rightarrow> Config result \<Rightarrow> 'l appState \<times> 'l World \<Rightarrow> ('l appState \<times> 'l World) \<times> unit result" where
  "reload d srt decoded = (\<lambda>(s, w).
     case load_config decoded w of
       (w1, Inl err) \<Rightarrow> ((s, w1), Inl (wrap_error ''failed to parse config: '' err))
     | (w1, Inr newCfg) \<Rightarrow>
         (case stop_manager (as_svcMgr s) w1 of
            (w2, Inl e) \<Rightarrow> ((s, w2), Inl e)
          | (w2, Inr u) \<Rightarrow>
              (case initialize d srt newCfg (s\<lparr>as_cfg := newCfg\<rparr>, w2) of
                 ((s3, w3), Inl err) \<Rightarrow> ((s3, w3), Inl err)
               | ((s3, w3), Inr v) \<Rightarrow>
                   ((s3, SetProvider (as_svcMgr s3) (import_metrics (as_svcMgr s3) (as_svcMgr s) w3)), Inr ()))))"

end
