(* ===== verification/Reload.thy ===== *)
theory Reload
  imports App
begin

text \<open>
  What construction and hot reload achieve: which handler serves a request, which managers a request can touch, and what a
  reload leaves behind when it succeeds and when it fails.
\<close>

section \<open>The table of routes\<close>

text \<open>The entry of a router in the table: the chain of its middlewares around the handler of its service.\<close>

definition router_entry ::
  "'l Deps \<Rightarrow> Config \<Rightarrow> nat \<Rightarrow> 'l World \<Rightarrow> 'l Handler route_spec \<Rightarrow> bool" where
  "router_entry d cfg a w = (\<lambda>(k, rule, pri, names, svc, h).
     \<exists>rt base mws. cf_Routers cfg k = Some (Some rt) \<and> rule = rc_Rule rt \<and> pri = rc_Priority rt \<and> names = rc_Middlewares rt
       \<and> svc = rc_Service rt \<and> svc_Get a svc w = Some base \<and> h = Chain mws base
       \<and> list_all2 (stands_for d cfg (Some a)) names mws)"

lemma svc_Get_cong: "wo_mgrs w1 = wo_mgrs w \<Longrightarrow> svc_Get a k w1 = svc_Get a k w"
  by (simp add: svc_Get_def)

lemma router_entry_cong: "wo_mgrs w1 = wo_mgrs w \<Longrightarrow> router_entry d cfg a w1 = router_entry d cfg a w"
  by (simp add: router_entry_def fun_eq_iff svc_Get_cong [of w1 w])

lemma entry_route:
  assumes "router_entry d cfg a w spec" and "route_of spec = Some r"
  obtains rt base mws where "cf_Routers cfg (fst spec) = Some (Some rt)" "ParseRule (rc_Rule rt) = Inr (rt_Match r)"
    "rt_Priority r = rc_Priority rt" "rt_RuleString r = rc_Rule rt" "rt_Handler r = Chain mws base"
    "svc_Get a (rc_Service rt) w = Some base" "list_all2 (stands_for d cfg (Some a)) (rc_Middlewares rt) mws"
proof (cases spec)
  case (fields k rule pri names svc h)
  with assms(1) obtain rt base mws where "cf_Routers cfg k = Some (Some rt)" "rule = rc_Rule rt" "pri = rc_Priority rt" "names = rc_Middlewares rt"
    "svc = rc_Service rt" "svc_Get a svc w = Some base" "h = Chain mws base" "list_all2 (stands_for d cfg (Some a)) names mws"
    by (auto simp: router_entry_def)
  with that [of rt mws base] assms(2) fields show ?thesis by (auto simp: route_of_def split: sum.splits)
qed

text \<open>The routes of the table are those of the routers with a rule that parses, and every router is there.\<close>

lemma table_routes:
  assumes "\<forall>spec \<in> set specs. router_entry d cfg a w spec" and "\<forall>s \<in> set specs. route_of s \<noteq> None"
    and "map fst specs = filter (\<lambda>k. cf_Routers cfg k \<noteq> None) ks" and "range_order (cf_Routers cfg) ks"
    and "cf_Routers cfg k = Some (Some rt)" and "ParseRule (rc_Rule rt) = Inr m"
  shows "\<exists>spec \<in> set specs. \<exists>r. route_of spec = Some r \<and> rt_Match r = m \<and> rt_Priority r = rc_Priority rt \<and> rt_RuleString r = rc_Rule rt"
proof -
  have "k \<in> set (map fst specs)" using assms(4,5) unfolding assms(3) by (auto simp: range_order_def)
  then obtain spec where spec: "spec \<in> set specs" "fst spec = k" by auto
  then obtain r where r: "route_of spec = Some r" using assms(2) by blast
  from assms(1) spec(1) have "router_entry d cfg a w spec" by blast
  then obtain rt' where "cf_Routers cfg (fst spec) = Some (Some rt')" "ParseRule (rc_Rule rt') = Inr (rt_Match r)"
    "rt_Priority r = rc_Priority rt'" "rt_RuleString r = rc_Rule rt'" by (rule entry_route [OF _ r])
  then have "rt_Match r = m" "rt_Priority r = rc_Priority rt" "rt_RuleString r = rc_Rule rt" using spec(2) assms(5,6) by simp_all
  with spec(1) r show ?thesis by blast
qed

lemma grows_any: "grows w w1 m \<Longrightarrow> grows w1 w2 n \<Longrightarrow> \<exists>k. grows w w2 k"
  using grows_trans by blast

lemma resolve_grows: "ResolveMiddlewares names d (b, w) = ((b1, w1), x) \<Longrightarrow> grows w w1 (card (set names - dom (bu_cache b)))"
  unfolding ResolveMiddlewares_def by (rule resolve_names_grows)

text \<open>One turn of the loop over the routers.\<close>

lemma routers_loop_cases:
  assumes "routers_loop d srt (k # ks) cfg b (s, w) = ((s1, w1), x)"
  obtains (skip) "cf_Routers cfg k = None" "routers_loop d srt ks cfg b (s, w) = ((s1, w1), x)"
    | (stop) n where "s1 = s" "x \<noteq> Inr ()" "grows w w1 n"
    | (go_on) rt base b2 w2 mws rm where "cf_Routers cfg k = Some (Some rt)" "svc_Get (as_svcMgr s) (rc_Service rt) w = Some base"
        "ResolveMiddlewares (rc_Middlewares rt) d (b, w) = ((b2, w2), Inr mws)"
        "AddRoute srt k (rc_Rule rt) (rc_Priority rt) (rc_Middlewares rt) (rc_Service rt) (Chain mws base) (as_routerMgr s) = Inr rm"
        "routers_loop d srt ks cfg b2 (s\<lparr>as_routerMgr := rm\<rparr>, w2) = ((s1, w1), x)"
proof (cases "\<exists>rt base. cf_Routers cfg k = Some (Some rt) \<and> svc_Get (as_svcMgr s) (rc_Service rt) w = Some base")
  case False
  then show ?thesis using assms skip stop by (auto split: option.splits)
next
  case True
  then obtain rt base where rt: "cf_Routers cfg k = Some (Some rt)" "svc_Get (as_svcMgr s) (rc_Service rt) w = Some base" by blast
  obtain b2 w2 y where r: "ResolveMiddlewares (rc_Middlewares rt) d (b, w) = ((b2, w2), y)" by (metis surj_pair)
  note g = resolve_grows [OF r]
  show ?thesis
  proof (cases y)
    case (Inl e)
    then show ?thesis using assms rt r stop g by auto
  next
    case (Inr mws)
    have h: "(if length mws > 0 then Chain mws base else base) = Chain mws base" by (simp add: Chain_def)
    show ?thesis
    proof (cases "AddRoute srt k (rc_Rule rt) (rc_Priority rt) (rc_Middlewares rt) (rc_Service rt) (Chain mws base) (as_routerMgr s)")
      case (Inl e)
      then show ?thesis using assms rt r \<open>y = Inr mws\<close> stop g by (auto simp: Let_def h simp del: length_greater_0_conv)
    next
      case (Inr rm)
      then show ?thesis using assms rt r \<open>y = Inr mws\<close> by (intro go_on [OF rt _ Inr]) (simp_all only: routers_loop.simps Let_def h prod.case sum.case option.case)
    qed
  qed
qed

lemma routers_loop_table:
  assumes "routers_loop d srt ks cfg b (s, w) = ((s1, w1), x)" and "builder_knows d b" and "bu_cfg b = cfg" and "bu_registry b = Some (as_svcMgr s)"
  shows "as_svcMgr s1 = as_svcMgr s \<and> as_cfg s1 = as_cfg s \<and> (\<exists>n. grows w w1 n)
     \<and> (\<exists>specs. add_routes srt specs (as_routerMgr s) = Inr (as_routerMgr s1)
          \<and> (\<forall>spec \<in> set specs. router_entry d cfg (as_svcMgr s) w spec)
          \<and> (x = Inr () \<longrightarrow> map fst specs = filter (\<lambda>k. cf_Routers cfg k \<noteq> None) ks))"
  using assms
proof (induction ks arbitrary: b s w)
  case (Cons k ks)
  from Cons.prems(1) show ?case
  proof (cases rule: routers_loop_cases)
    case skip
    then show ?thesis using Cons.IH [OF skip(2) Cons.prems(2-4)] by simp
  next
    case (stop n)
    then show ?thesis by (auto intro!: exI [of _ "[]"])
  next
    case (go_on rt base b2 w2 mws rm)
    have keep: "builder_knows d b2" "bu_cfg b2 = cfg" "bu_registry b2 = Some (as_svcMgr s)"
      "list_all2 (stands_for d cfg (Some (as_svcMgr s))) (rc_Middlewares rt) mws"
      using resolve_knows [OF go_on(3)] Cons.prems(2-4) by auto
    note g = resolve_grows [OF go_on(3)]
    from Cons.IH [OF go_on(5) keep(1,2)] keep(3) obtain specs n where ih: "as_svcMgr s1 = as_svcMgr s" "as_cfg s1 = as_cfg s" "grows w2 w1 n"
      "add_routes srt specs rm = Inr (as_routerMgr s1)" "\<forall>spec \<in> set specs. router_entry d cfg (as_svcMgr s) w2 spec"
      "x = Inr () \<longrightarrow> map fst specs = filter (\<lambda>k. cf_Routers cfg k \<noteq> None) ks" by auto
    let ?spec = "(k, rc_Rule rt, rc_Priority rt, rc_Middlewares rt, rc_Service rt, Chain mws base)"
    have "router_entry d cfg (as_svcMgr s) w ?spec" unfolding router_entry_def using go_on(1,2) keep(4) by auto
    then have "\<forall>spec \<in> set (?spec # specs). router_entry d cfg (as_svcMgr s) w spec"
      using ih(5) router_entry_cong [OF grows_frame(1) [OF g]] by simp
    moreover have "add_routes srt (?spec # specs) (as_routerMgr s) = Inr (as_routerMgr s1)" using go_on(4) ih(4) by simp
    moreover have "x = Inr () \<longrightarrow> map fst (?spec # specs) = filter (\<lambda>k. cf_Routers cfg k \<noteq> None) (k # ks)" using ih(6) go_on(1) by simp
    ultimately show ?thesis using ih(1,2) grows_any [OF g ih(3)] by blast
  qed
qed auto

section \<open>Initialization\<close>

lemma draw_frame [simp]:
  "wo_mgrs (snd (draw_order w)) = wo_mgrs w" "wo_mgrs (snd (draw_orders w)) = wo_mgrs w" "wo_mgrs (snd (draw_clocks w)) = wo_mgrs w"
  "wo_hub (snd (draw_order w)) = wo_hub w" "wo_hub (snd (draw_orders w)) = wo_hub w" "wo_hub (snd (draw_clocks w)) = wo_hub w"
  "fst (draw_order w) = en_order (wo_env w) 0" "fst (draw_orders w) = en_orders (wo_env w) 0" "fst (draw_clocks w) = en_clocks (wo_env w) 0"
  "en_order (wo_env (snd (draw_order w))) = (\<lambda>n. en_order (wo_env w) (Suc n))"
  "en_order (wo_env (snd (draw_clocks w))) = en_order (wo_env w)"
  "en_clocks (wo_env (snd (draw_order w))) = en_clocks (wo_env w)"
  by (simp_all add: draw_order_def draw_orders_def draw_clocks_def draw_def)

lemma new_manager_Inr:
  assumes "new_manager cfg w = (w1, Inr a)"
  shows "a = length (wo_mgrs w) \<and> wo_hub w1 = wo_hub w \<and> en_order (wo_env w1) = (\<lambda>n. en_order (wo_env w) (Suc n))
     \<and> (\<exists>m. NewManager (en_order (wo_env w) 0) (en_clocks (wo_env w) 0) cfg = Inr m \<and> wo_mgrs w1 = wo_mgrs w @ [m])"
  using assms by (auto simp: new_manager_def Let_def case_prod_beta split: sum.splits)

text \<open>What an initialization leaves behind once it has made the manager, whether it succeeds or not.\<close>

lemma initialize_any:
  assumes "initialize d srt cfg (s, w) = ((s1, w1), x)" and "NewManager (en_order (wo_env w) 0) (en_clocks (wo_env w) 0) cfg = Inr m"
  shows "as_svcMgr s1 = length (wo_mgrs w) \<and> as_cfg s1 = as_cfg s \<and> wo_hub w1 = wo_hub w \<and> wo_mgrs w1 = wo_mgrs w @ [m]
     \<and> en_order (wo_env w1) = (\<lambda>n. en_order (wo_env w) (n + 2))
     \<and> (\<exists>specs. add_routes srt specs NewRouteManager = Inr (as_routerMgr s1)
          \<and> (\<forall>spec \<in> set specs. router_entry d cfg (length (wo_mgrs w)) w1 spec)
          \<and> (x = Inr () \<longrightarrow> map fst specs = filter (\<lambda>k. cf_Routers cfg k \<noteq> None) (en_order (wo_env w) (Suc 0))))"
proof -
  let ?a = "length (wo_mgrs w)"
  obtain w2 where nm: "new_manager cfg w = (w2, Inr ?a)" and w2: "wo_mgrs w2 = wo_mgrs w @ [m]" "wo_hub w2 = wo_hub w"
    "en_order (wo_env w2) = (\<lambda>n. en_order (wo_env w) (Suc n))"
    using assms(2) by (simp add: new_manager_def Let_def case_prod_beta)
  let ?s = "s\<lparr>as_svcMgr := ?a, as_routerMgr := NewRouteManager\<rparr>" and ?w = "snd (draw_order w2)"
  have loop: "routers_loop d srt (en_order (wo_env w) (Suc 0)) cfg (NewBuilder cfg (Some ?a)) (?s, ?w) = ((s1, w1), x)"
    using assms(1) nm w2(3) by (simp add: initialize_def Let_def case_prod_beta)
  from routers_loop_table [OF loop]
  obtain n specs where t: "as_svcMgr s1 = ?a" "as_cfg s1 = as_cfg s" "grows ?w w1 n"
    "add_routes srt specs NewRouteManager = Inr (as_routerMgr s1)" "\<forall>spec \<in> set specs. router_entry d cfg ?a ?w spec"
    "x = Inr () \<longrightarrow> map fst specs = filter (\<lambda>k. cf_Routers cfg k \<noteq> None) (en_order (wo_env w) (Suc 0))"
    by auto
  have "wo_mgrs w1 = wo_mgrs w @ [m]" "wo_hub w1 = wo_hub w" "en_order (wo_env w1) = (\<lambda>n. en_order (wo_env w) (n + 2))"
    using grows_frame(1-3) [OF t(3)] w2 by simp_all
  moreover have "router_entry d cfg ?a w1 = router_entry d cfg ?a ?w" by (rule router_entry_cong) (rule grows_frame(1) [OF t(3)])
  ultimately show ?thesis using t by auto
qed

lemma initialize_table:
  assumes "initialize d srt cfg (s, w) = ((s1, w1), Inr ())"
  shows "as_svcMgr s1 = length (wo_mgrs w) \<and> as_cfg s1 = as_cfg s \<and> wo_hub w1 = wo_hub w
     \<and> en_order (wo_env w1) = (\<lambda>n. en_order (wo_env w) (n + 2))
     \<and> (\<exists>m. NewManager (en_order (wo_env w) 0) (en_clocks (wo_env w) 0) cfg = Inr m \<and> wo_mgrs w1 = wo_mgrs w @ [m])
     \<and> (\<exists>specs. add_routes srt specs NewRouteManager = Inr (as_routerMgr s1)
          \<and> (\<forall>spec \<in> set specs. router_entry d cfg (length (wo_mgrs w)) w1 spec)
          \<and> map fst specs = filter (\<lambda>k. cf_Routers cfg k \<noteq> None) (en_order (wo_env w) (Suc 0)))"
proof -
  obtain w2 y where nm: "new_manager cfg w = (w2, y)" by (metis surj_pair)
  with assms obtain a where "y = Inr a" by (cases y) (auto simp: initialize_def)
  with new_manager_Inr nm obtain m where "NewManager (en_order (wo_env w) 0) (en_clocks (wo_env w) 0) cfg = Inr m" by blast
  with initialize_any [OF assms this] show ?thesis by blast
qed

section \<open>Which handler serves a request\<close>

text \<open>
  C6. Every request is served by the best matching router. After the application was set up from a configuration, with any sort that keeps the promise of \<^verbatim>\<open>sort.Slice\<close> and
  in any order of the routers, a request goes through the middlewares that a configured router names, in their order, to the proxy handler of that router's service in the new
  manager, and the router is one that matches, of the highest priority and, among those, with the longest rule; if no router matches, the request goes to the service
  \<^verbatim>\<open>default\<close>, or is answered with 502 if there is none.
\<close>

theorem app_serves_best_router:
  assumes "slice_sort srt" and "initialize d srt cfg (s, w) = ((s1, w1), Inr ())"
    and "range_order (cf_Routers cfg) (en_order (wo_env w) 1)"
  shows "(\<exists>k rt matcher ph mws. cf_Routers cfg k = Some (Some rt) \<and> ParseRule (rc_Rule rt) = Inr matcher \<and> matcher req
       \<and> (\<forall>k' rt' m'. cf_Routers cfg k' = Some (Some rt') \<and> ParseRule (rc_Rule rt') = Inr m' \<and> m' req \<longrightarrow>
            rc_Priority rt' < rc_Priority rt
            \<or> rc_Priority rt' = rc_Priority rt \<and> length (rc_Rule rt') \<le> length (rc_Rule rt))
       \<and> Manager_Get (wo_mgrs w1 ! as_svcMgr s1) (rc_Service rt) = Some ph
       \<and> list_all2 (stands_for d cfg (Some (as_svcMgr s1))) (rc_Middlewares rt) mws
       \<and> app_ServeHTTP s1 w2 rw req = Chain mws (proxy_ServeHTTP (as_svcMgr s1) (rc_Service rt) ph) w2 rw req)
   \<or> ((\<forall>k rt m. cf_Routers cfg k = Some (Some rt) \<and> ParseRule (rc_Rule rt) = Inr m \<longrightarrow> \<not> m req)
       \<and> app_ServeHTTP s1 w2 rw req =
           (case svc_Get (as_svcMgr s1) ''default'' w2 of
              Some h \<Rightarrow> h w2 rw req
            | None \<Rightarrow> reply (http_Error ''No matching service'' 502 rw) w2 req))"
proof -
  from initialize_table [OF assms(2)] obtain specs where
    sv: "as_svcMgr s1 = length (wo_mgrs w)" and
    specs: "add_routes srt specs NewRouteManager = Inr (as_routerMgr s1)"
      "\<forall>spec \<in> set specs. router_entry d cfg (length (wo_mgrs w)) w1 spec"
      "map fst specs = filter (\<lambda>k. cf_Routers cfg k \<noteq> None) (en_order (wo_env w) 1)"
    by auto
  have some: "\<forall>s \<in> set specs. route_of s \<noteq> None"
    using add_routes_contents [OF assms(1) specs(1)] by (simp add: NewRouteManager_def)
  note routes = table_routes [OF specs(2) some specs(3) assms(3)]
  show ?thesis
  proof (cases "RouteManager_Route (as_routerMgr s1) req")
    case None
    then have "\<not> m req" if "cf_Routers cfg k = Some (Some rt)" "ParseRule (rc_Rule rt) = Inr m" for k rt m
      using no_route_configured [OF assms(1) specs(1) None] routes [OF that] by fastforce
    then have "\<forall>k rt m. cf_Routers cfg k = Some (Some rt) \<and> ParseRule (rc_Rule rt) = Inr m \<longrightarrow> \<not> m req" by blast
    then show ?thesis by (rule disjI2 [OF conjI]) (simp add: app_ServeHTTP_def None)
  next
    case (Some r)
    obtain sp where sp: "sp \<in> set specs" "route_of sp = Some r" "rt_Match r req"
      and top: "\<And>s. s \<in> set specs \<Longrightarrow> rt_Match (the (route_of s)) req \<Longrightarrow> in_order r (the (route_of s))"
      using route_configured [OF assms(1) specs(1) Some] by blast
    have "router_entry d cfg (length (wo_mgrs w)) w1 sp" using specs(2) sp(1) by blast
    then obtain rt base mws where rt: "cf_Routers cfg (fst sp) = Some (Some rt)" "ParseRule (rc_Rule rt) = Inr (rt_Match r)"
      "rt_Priority r = rc_Priority rt" "rt_RuleString r = rc_Rule rt" "rt_Handler r = Chain mws base"
      "svc_Get (length (wo_mgrs w)) (rc_Service rt) w1 = Some base"
      "list_all2 (stands_for d cfg (Some (length (wo_mgrs w)))) (rc_Middlewares rt) mws"
      by (rule entry_route [OF _ sp(2)])
    have "rc_Priority rt' < rc_Priority rt \<or> rc_Priority rt' = rc_Priority rt \<and> length (rc_Rule rt') \<le> length (rc_Rule rt)"
      if "cf_Routers cfg k' = Some (Some rt')" "ParseRule (rc_Rule rt') = Inr m'" "m' req" for k' rt' m'
      using routes [OF that(1,2)] top that(3) rt(3,4) by (fastforce simp: in_order_iff)
    moreover obtain ph where "Manager_Get (wo_mgrs w1 ! length (wo_mgrs w)) (rc_Service rt) = Some ph"
      "base = proxy_ServeHTTP (length (wo_mgrs w)) (rc_Service rt) ph"
      using rt(6) by (auto simp: svc_Get_def split: if_splits)
    moreover have "app_ServeHTTP s1 w2 rw req = Chain mws base w2 rw req" using Some rt(5) by (simp add: app_ServeHTTP_def)
    ultimately show ?thesis using rt(1,2,7) sp(3) unfolding sv by blast
  qed
qed

section \<open>Hot reload\<close>

text \<open>All health checks of a manager have been told to stop.\<close>

definition monitors_stopped :: "Manager \<Rightarrow> bool" where
  "monitors_stopped m \<longleftrightarrow> (\<forall>k inst mon. mg_instances m k = Some inst \<and> is_Monitor inst = Some mon \<longrightarrow> mo_stopChs mon = [])"

definition stops :: "string list \<Rightarrow> Manager \<Rightarrow> Manager \<Rightarrow> bool" where
  "stops ks m m1 \<longleftrightarrow> (\<forall>k inst mon. mg_instances m1 k = Some inst \<and> is_Monitor inst = Some mon \<and>
     (k \<in> set ks \<or> (\<forall>i mo. mg_instances m k = Some i \<and> is_Monitor i = Some mo \<longrightarrow> mo_stopChs mo = [])) \<longrightarrow> mo_stopChs mon = [])"

lemma stops_Cons:
  assumes "stops ks m m1"
    and "\<And>j i mo. mg_instances m j = Some i \<Longrightarrow> is_Monitor i = Some mo \<Longrightarrow>
      j = k \<or> (\<forall>i mo. mg_instances m0 j = Some i \<and> is_Monitor i = Some mo \<longrightarrow> mo_stopChs mo = []) \<Longrightarrow> mo_stopChs mo = []"
  shows "stops (k # ks) m0 m1"
  unfolding stops_def
proof (intro allI impI)
  fix j ins mo
  assume "mg_instances m1 j = Some ins \<and> is_Monitor ins = Some mo
    \<and> (j \<in> set (k # ks) \<or> (\<forall>i mo. mg_instances m0 j = Some i \<and> is_Monitor i = Some mo \<longrightarrow> mo_stopChs mo = []))"
  then show "mo_stopChs mo = []"
    by (intro assms(1) [unfolded stops_def, rule_format, of j ins mo]) (use assms(2) in auto)
qed

lemma Manager_Stop_stops: "mgr_ok m \<Longrightarrow> Manager_Stop ks m = Inr m1 \<Longrightarrow> stops ks m m1"
proof (induction ks arbitrary: m)
  case (Cons k ks)
  show ?case
  proof (cases "\<exists>inst mon. mg_instances m k = Some inst \<and> is_Monitor inst = Some mon")
    case True
    then obtain inst mon where i: "mg_instances m k = Some inst" "is_Monitor inst = Some mon" by blast
    then have ok: "monitor_ok mon" "mo_servers mon = sc_Servers (is_Config inst)"
      using Cons.prems(1) by (auto simp: mgr_ok_def instance_ok_def split: option.splits)
    define mon1 where "mon1 = mon\<lparr>mo_closed := set (mo_stopChs mon) \<union> mo_closed mon, mo_stopChs := []\<rparr>"
    let ?m = "set_instance k (inst\<lparr>is_Monitor := Some mon1\<rparr>) m"
    have "keeps inst (inst\<lparr>is_Monitor := Some mon1\<rparr>)"
      using ok by (auto simp: keeps_def instance_ok_def monitor_ok_def mon1_def)
    note m = mgr_ok_set_instance [OF Cons.prems(1) i(1) this]
    have "Manager_Stop ks ?m = Inr m1" using Cons.prems(2) i Monitor_Stop_ok [OF ok(1)] by (simp add: mon1_def)
    from Cons.IH [OF m this] show ?thesis by (rule stops_Cons) (auto simp: mon1_def split: if_splits)
  next
    case False
    then have n: "is_Monitor i = None" if "mg_instances m k = Some i" for i using that by (cases "is_Monitor i") auto
    then have "Manager_Stop ks m = Inr m1" using Cons.prems(2) by (auto split: option.splits)
    from Cons.IH [OF Cons.prems(1) this] show ?thesis by (rule stops_Cons) (use n in auto)
  qed
qed (auto simp: stops_def)

lemma stop_manager_Inr:
  assumes "mgr_ok (wo_mgrs w ! a)" and "a < length (wo_mgrs w)" and "range_order (mg_instances (wo_mgrs w ! a)) (en_order (wo_env w) 0)"
  shows "\<exists>w1 m. stop_manager a w = (w1, Inr ()) \<and> wo_mgrs w1 = (wo_mgrs w)[a := m] \<and> mgr_ok m \<and> monitors_stopped m
     \<and> wo_hub w1 = wo_hub w \<and> wo_env w1 = wo_env (snd (draw_order w))"
proof -
  obtain m where m: "Manager_Stop (en_order (wo_env w) 0) (wo_mgrs w ! a) = Inr m" "mgr_ok m" "mg_cfg m = mg_cfg (wo_mgrs w ! a)"
    using Manager_Stop_ok [OF assms(1)] by blast
  have "dom (mg_instances m) = dom (mg_instances (wo_mgrs w ! a))" using m(2,3) assms(1) by (simp add: mgr_ok_def)
  then have "k \<in> set (en_order (wo_env w) 0)" if "mg_instances m k = Some inst" for k inst
    using that assms(3) unfolding range_order_def by blast
  then have "monitors_stopped m" using Manager_Stop_stops [OF assms(1) m(1)] unfolding stops_def monitors_stopped_def by blast
  then show ?thesis using m(1,2)
    by (intro exI [of _ "snd (draw_order w)\<lparr>wo_mgrs := (wo_mgrs w)[a := m]\<rparr>"] exI [of _ m])
      (simp add: stop_manager_def Let_def case_prod_beta)
qed

lemma import_metrics_frame:
  assumes "new < length (wo_mgrs w)" and "mgr_ok (wo_mgrs w ! new)"
  shows "length (wo_mgrs (import_metrics new old w)) = length (wo_mgrs w)"
    and "j \<noteq> new \<Longrightarrow> wo_mgrs (import_metrics new old w) ! j = wo_mgrs w ! j"
    and "mgr_ok (wo_mgrs (import_metrics new old w) ! new)"
    and "mg_cfg (wo_mgrs (import_metrics new old w) ! new) = mg_cfg (wo_mgrs w ! new)"
    and "wo_hub (import_metrics new old w) = wo_hub w"
  using assms import_loop_ok [OF assms(2)] by (simp_all add: import_metrics_def Let_def case_prod_beta Manager_ImportMetrics_def)

lemma load_config_parts:
  "snd (load_config decoded w) = Load (en_order (wo_env w) 0) (en_order (wo_env w) 1) (en_order (wo_env w) 2) decoded"
  "wo_mgrs (fst (load_config decoded w)) = wo_mgrs w" "wo_hub (fst (load_config decoded w)) = wo_hub w"
  "en_order (wo_env (fst (load_config decoded w))) = (\<lambda>n. en_order (wo_env w) (n + 3))"
  by (simp_all add: load_config_def Let_def case_prod_beta numeral_2_eq_2 numeral_3_eq_3)

text \<open>The orders in which the environment ranges over the maps during a reload are orders of these maps.\<close>

definition orders_fit :: "(nat \<Rightarrow> string list) \<Rightarrow> Config result \<Rightarrow> Manager \<Rightarrow> bool" where
  "orders_fit ord decoded m \<longleftrightarrow>
     (\<forall>c. decoded = Inr c \<longrightarrow> range_order (cf_Services c) (ord 0) \<and> range_order (cf_EntryPoints c) (ord 1))
     \<and> (\<forall>c. Load (ord 0) (ord 1) (ord 2) decoded = Inr c \<longrightarrow> range_order (cf_Services c) (ord 2) \<and> range_order (cf_Services c) (ord 4))
     \<and> range_order (mg_instances m) (ord 3)"

definition loaded :: "Config result \<Rightarrow> 'l World \<Rightarrow> Config result" where
  "loaded decoded w = Load (en_order (wo_env w) 0) (en_order (wo_env w) 1) (en_order (wo_env w) 2) decoded"

lemma reload_rejected:
  assumes "reload d srt decoded (s, w) = ((s1, w1), x)" and "loaded decoded w = Inl e"
  shows "s1 = s \<and> wo_mgrs w1 = wo_mgrs w \<and> wo_hub w1 = wo_hub w \<and> (\<exists>e. x = Inl e)"
  using assms load_config_parts [of decoded w] by (auto simp: loaded_def reload_def case_prod_beta split: sum.splits)

lemma loaded_ready:
  assumes "loaded decoded w = Inr c" and "orders_fit (en_order (wo_env w)) decoded m"
  shows "config_ready c \<and> urls_unique c"
proof -
  obtain c0 where "decoded = Inr c0" using assms(1) by (cases decoded) (auto simp: loaded_def Load_def)
  then show ?thesis using assms by (intro load_ready [of c0]) (auto simp: orders_fit_def loaded_def)
qed

text \<open>A reload whose file was accepted: the old manager \<open>m\<close> is stopped, the new one \<open>m1\<close> is made, and the routers may fail or not.\<close>

lemma reload_accepted:
  assumes "reload d srt decoded (s, w) = ((s1, w1), x)" and "as_svcMgr s < length (wo_mgrs w)" and "mgr_ok (wo_mgrs w ! as_svcMgr s)"
    and "loaded decoded w = Inr c" and "orders_fit (en_order (wo_env w)) decoded (wo_mgrs w ! as_svcMgr s)"
  obtains m m1 w4 specs where "mgr_ok m" "monitors_stopped m" "mgr_ok m1" "mg_cfg m1 = c" "as_cfg s1 = c" "as_svcMgr s1 = length (wo_mgrs w)"
    "wo_mgrs w4 = (wo_mgrs w)[as_svcMgr s := m] @ [m1]" "wo_hub w4 = wo_hub w"
    "w1 = (if x = Inr () then SetProvider (as_svcMgr s1) (import_metrics (as_svcMgr s1) (as_svcMgr s) w4) else w4)"
    "add_routes srt specs NewRouteManager = Inr (as_routerMgr s1)" "\<forall>spec \<in> set specs. router_entry d c (length (wo_mgrs w)) w4 spec"
proof -
  obtain w2 where lc: "load_config decoded w = (w2, Inr c)" and w2: "wo_mgrs w2 = wo_mgrs w" "wo_hub w2 = wo_hub w"
    "en_order (wo_env w2) = (\<lambda>n. en_order (wo_env w) (n + 3))"
    using load_config_parts [of decoded w] assms(4) unfolding loaded_def by (metis prod.collapse)
  obtain w3 m where st: "stop_manager (as_svcMgr s) w2 = (w3, Inr ())" "wo_mgrs w3 = (wo_mgrs w)[as_svcMgr s := m]" "mgr_ok m"
    "monitors_stopped m" "wo_hub w3 = wo_hub w" "wo_env w3 = wo_env (snd (draw_order w2))"
    using stop_manager_Inr [of w2 "as_svcMgr s"] assms(2,3,5) w2 by (auto simp: orders_fit_def)
  have o3: "en_order (wo_env w3) 0 = en_order (wo_env w) 4" by (simp add: st(6) w2(3) eval_nat_numeral)
  have o4: "range_order (cf_Services c) (en_order (wo_env w) 4)" using assms(4,5) by (simp add: orders_fit_def loaded_def)
  obtain m1 where m1: "NewManager (en_order (wo_env w3) 0) (en_clocks (wo_env w3) 0) c = Inr m1" "mgr_ok m1" "mg_cfg m1 = c"
    using NewManager_ok [OF o4] loaded_ready [OF assms(4,5)] unfolding o3 by blast
  obtain s4 w4 z where i: "initialize d srt c (s\<lparr>as_cfg := c\<rparr>, w3) = ((s4, w4), z)" by (metis surj_pair)
  from initialize_any [OF i m1(1)] obtain specs where f: "as_svcMgr s4 = length (wo_mgrs w)" "as_cfg s4 = c"
    "wo_mgrs w4 = (wo_mgrs w)[as_svcMgr s := m] @ [m1]" "wo_hub w4 = wo_hub w" "add_routes srt specs NewRouteManager = Inr (as_routerMgr s4)"
    "\<forall>spec \<in> set specs. router_entry d c (length (wo_mgrs w)) w4 spec"
    using st(2,5) by auto
  have e: "s1 = s4" "w1 = (if x = Inr () then SetProvider (as_svcMgr s1) (import_metrics (as_svcMgr s1) (as_svcMgr s) w4) else w4)"
    using assms(1) lc st(1) i by (cases z; auto simp: reload_def)+
  show thesis by (rule that [OF st(3,4) m1(2,3) _ _ f(3,4) e(2)]) (use f e(1) in auto)
qed

lemma reload_state:
  assumes "reload d srt decoded (s, w) = ((s1, w1), x)" and "as_svcMgr s < length (wo_mgrs w)" and "mgr_ok (wo_mgrs w ! as_svcMgr s)"
    and "loaded decoded w = Inr c" and "orders_fit (en_order (wo_env w)) decoded (wo_mgrs w ! as_svcMgr s)"
  shows "as_cfg s1 = c \<and> as_svcMgr s1 = length (wo_mgrs w) \<and> length (wo_mgrs w1) = Suc (length (wo_mgrs w))
     \<and> mgr_ok (wo_mgrs w1 ! as_svcMgr s1) \<and> GetConfig (wo_mgrs w1 ! as_svcMgr s1) = c
     \<and> mgr_ok (wo_mgrs w1 ! as_svcMgr s) \<and> monitors_stopped (wo_mgrs w1 ! as_svcMgr s)
     \<and> (\<forall>j < length (wo_mgrs w). j \<noteq> as_svcMgr s \<longrightarrow> wo_mgrs w1 ! j = wo_mgrs w ! j)
     \<and> wo_hub w1 = (wo_hub w)\<lparr>hu_provider := (if x = Inr () then as_svcMgr s1 else hu_provider (wo_hub w))\<rparr>"
proof (rule reload_accepted [OF assms])
  fix m m1 w4
  let ?a = "length (wo_mgrs w)"
  assume r: "mgr_ok m" "monitors_stopped m" "mgr_ok m1" "mg_cfg m1 = c" "as_cfg s1 = c" "as_svcMgr s1 = ?a"
    "wo_mgrs w4 = (wo_mgrs w)[as_svcMgr s := m] @ [m1]" "wo_hub w4 = wo_hub w"
    "w1 = (if x = Inr () then SetProvider (as_svcMgr s1) (import_metrics (as_svcMgr s1) (as_svcMgr s) w4) else w4)"
  have old: "wo_mgrs w4 ! ?a = m1" "wo_mgrs w4 ! as_svcMgr s = m" "?a < length (wo_mgrs w4)" "as_svcMgr s \<noteq> ?a" using r(7) assms(2) by (simp_all add: nth_append)
  have rest: "wo_mgrs w4 ! j = wo_mgrs w ! j" if "j < ?a" "j \<noteq> as_svcMgr s" for j
    using that r(7) by (simp add: nth_append)
  have "mgr_ok (wo_mgrs w4 ! ?a)" using old(1) r(3) by simp
  note im = import_metrics_frame [OF old(3) this]
  have w1: "length (wo_mgrs w1) = Suc ?a" "mgr_ok (wo_mgrs w1 ! ?a)" "mg_cfg (wo_mgrs w1 ! ?a) = c"
    "\<And>j. j \<noteq> ?a \<Longrightarrow> wo_mgrs w1 ! j = wo_mgrs w4 ! j"
    using im old(1) r(3,4,6,7,9) by (simp_all add: SetProvider_def)
  have "wo_hub w1 = (wo_hub w)\<lparr>hu_provider := (if x = Inr () then as_svcMgr s1 else hu_provider (wo_hub w))\<rparr>"
    using r(6,8,9) im(5) by (auto simp: SetProvider_def)
  then show ?thesis using r(1,2,5,6) w1 old(2,4) rest by (simp add: GetConfig_def)
qed

text \<open>
  C12. What a hot reload leaves. If the file cannot be read or is not accepted, nothing changes. Otherwise the health checks of the old manager are told to stop, and
  configuration and manager are the new ones: a manager that satisfies the invariant and whose monitors run; no third manager changes. If a router then cannot be set up,
  the reload fails, but all this remains, and the dashboard goes on showing the old manager, whose health checks have ended; only if the reload succeeds, it shows the new one.
\<close>

theorem reload_outcome:
  assumes "reload d srt decoded (s, w) = ((s1, w1), x)" and "as_svcMgr s < length (wo_mgrs w)" and "mgr_ok (wo_mgrs w ! as_svcMgr s)"
    and "orders_fit (en_order (wo_env w)) decoded (wo_mgrs w ! as_svcMgr s)"
  shows "case loaded decoded w of
      Inl e \<Rightarrow> s1 = s \<and> wo_mgrs w1 = wo_mgrs w \<and> wo_hub w1 = wo_hub w \<and> (\<exists>e. x = Inl e)
    | Inr c \<Rightarrow> as_cfg s1 = c \<and> as_svcMgr s1 = length (wo_mgrs w) \<and> length (wo_mgrs w1) = Suc (length (wo_mgrs w))
        \<and> mgr_ok (wo_mgrs w1 ! as_svcMgr s1) \<and> GetConfig (wo_mgrs w1 ! as_svcMgr s1) = c
        \<and> mgr_ok (wo_mgrs w1 ! as_svcMgr s) \<and> monitors_stopped (wo_mgrs w1 ! as_svcMgr s)
        \<and> (\<forall>j < length (wo_mgrs w). j \<noteq> as_svcMgr s \<longrightarrow> wo_mgrs w1 ! j = wo_mgrs w ! j)
        \<and> hu_provider (wo_hub w1) = (case x of Inl e \<Rightarrow> hu_provider (wo_hub w) | Inr u \<Rightarrow> as_svcMgr s1)"
proof (cases "loaded decoded w")
  case (Inl e)
  then show ?thesis using reload_rejected [OF assms(1)] by simp
next
  case (Inr c)
  then show ?thesis using reload_state [OF assms(1-3) Inr assms(4)] by (cases x) auto
qed

section \<open>An example\<close>

text \<open>The example configuration, set up in a world with given managers and orders of iteration.\<close>

definition app_world :: "Manager list \<Rightarrow> string list list \<Rightarrow> unit World" where
  "app_world ms os = (demo_world (Inr demo_answer) demo_metrics [] [])
     \<lparr>wo_mgrs := ms, wo_env := (demo_env (Inr demo_answer))\<lparr>en_order := (\<lambda>n. if n < length os then os ! n else [])\<rparr>\<rparr>"

definition app_start :: "unit appState" where
  "app_start = \<lparr>as_cfg = demo_config, as_svcMgr = 0, as_routerMgr = NewRouteManager\<rparr>"

lemma app_world_simps [simp]:
  "wo_mgrs (app_world ms os) = ms" "en_order (wo_env (app_world ms os)) = (\<lambda>n. if n < length os then os ! n else [])"
  by (simp_all add: app_world_def)

lemma demo_router:
  "cf_Routers demo_config = [''r'' \<mapsto> Some \<lparr>rc_Rule = print_atom ''PathPrefix'' [''/''], rc_Priority = 1, rc_Middlewares = [''headers''],
     rc_Service = ''default''\<rparr>]"
  by (simp add: demo_config_def print_atom_def quoted_def)

lemma demo_setup:
  assumes "Load [] [] [''default''] (Inr demo_config) = Inr c" and "range_order (cf_Services c) [''default'']"
    and "cf_Routers c = cf_Routers demo_config" and "cf_Middlewares c = Map.empty"
    and "en_order (wo_env w) 0 = [''default'']" and "en_order (wo_env w) 1 = [''r'']"
  shows "\<exists>s1 w1. initialize demo_deps insertionSort c (s, w :: unit World) = ((s1, w1), Inr ())"
proof -
  have rdy: "config_ready c \<and> urls_unique c" by (rule load_ready [OF _ _ assms(2,1)]) simp_all
  obtain m where m: "NewManager [''default''] (en_clocks (wo_env w) 0) c = Inr m" "mgr_ok m" "mg_cfg m = c"
    using NewManager_ok [OF assms(2)] rdy by blast
  have "''default'' \<in> dom (cf_Services c)" using assms(2) unfolding range_order_def by (metis list.set_intros(1))
  moreover have "dom (mg_instances m) = dom (cf_Services c)" using m(2,3) by (simp only: mgr_ok_def)
  ultimately have "''default'' \<in> dom (mg_instances m)" by (simp only:)
  then obtain inst where inst: "mg_instances m ''default'' = Some inst" by blast
  have "svc_Get (length (wo_mgrs w)) ''default'' v = Some (proxy_ServeHTTP (length (wo_mgrs w)) ''default'' (is_Handler inst))"
    if "wo_mgrs v = wo_mgrs w @ [m]" for v :: "unit World"
    using that inst by (simp add: svc_Get_def Manager_Get_def nth_append)
  then show ?thesis
    using m(1) assms(5,6) by (simp add: initialize_def new_manager_def Let_def case_prod_beta assms(3,4) demo_router ResolveMiddlewares_def Build_def
        NewBuilder_def buildLegacy_def built_def AddRoute_def demo_rules)
qed

lemma demo_initialize:
  "\<exists>c s1 w1. Load [] [] [''default''] (Inr demo_config) = Inr c \<and> cf_Routers c = cf_Routers demo_config
     \<and> initialize demo_deps insertionSort c (app_start, app_world ms [[''default''], [''r'']]) = ((s1, w1), Inr ())"
proof -
  obtain c where c: "Load [] [] [''default''] (Inr demo_config) = Inr c" "range_order (cf_Services c) [''default'']"
    "cf_Routers c = cf_Routers demo_config" "cf_Middlewares c = Map.empty" using demo_load by blast
  from demo_setup [OF this, of "app_world ms [[''default''], [''r'']]" app_start] c(1,3) show ?thesis by auto
qed

theorem app_serves_best_router_witness:
  "\<exists>c s1 w1 ph mws. initialize demo_deps insertionSort c (app_start, app_world [] [[''default''], [''r'']]) = ((s1, w1), Inr ())
     \<and> app_ServeHTTP s1 w1 (ConnW (new_Conn False)) demo_request
         = Chain mws (proxy_ServeHTTP (as_svcMgr s1) ''default'' ph) w1 (ConnW (new_Conn False)) demo_request"
proof -
  obtain c s1 w1 where i: "initialize demo_deps insertionSort c (app_start, app_world [] [[''default''], [''r'']]) = ((s1, w1), Inr ())"
    "cf_Routers c = cf_Routers demo_config" using demo_initialize [of "[]"] by blast
  have o: "range_order (cf_Routers c) (en_order (wo_env (app_world [] [[''default''], [''r'']])) 1)"
    by (simp add: i(2) demo_router range_order_def)
  have match: "MatchPathPrefix ''/'' demo_request" by (simp add: MatchPathPrefix_def demo_request_def HasPrefix_def)
  have rule: "ParseRule (rc_Rule rt) = Inr m \<longleftrightarrow> m = MatchPathPrefix ''/''" if "cf_Routers c k = Some (Some rt)" for k rt m
    using that by (auto simp: i(2) demo_router demo_rules split: if_splits)
  have svc: "rc_Service rt = ''default''" if "cf_Routers c k = Some (Some rt)" for k rt
    using that by (auto simp: i(2) demo_router split: if_splits)
  have "\<not> (\<forall>k rt m. cf_Routers c k = Some (Some rt) \<and> ParseRule (rc_Rule rt) = Inr m \<longrightarrow> \<not> m demo_request)"
    using match by (auto simp: i(2) demo_router demo_rules)
  with app_serves_best_router [OF go_sort.slice_sort_axioms i(1) o, of demo_request w1 "ConnW (new_Conn False)"]
  obtain k rt ph mws where "cf_Routers c k = Some (Some rt)"
    "app_ServeHTTP s1 w1 (ConnW (new_Conn False)) demo_request
       = Chain mws (proxy_ServeHTTP (as_svcMgr s1) (rc_Service rt) ph) w1 (ConnW (new_Conn False)) demo_request" by blast
  then show ?thesis using i(1) svc by metis
qed

theorem reload_outcome_witness:
  "\<exists>m s1 w1 x. reload demo_deps insertionSort (Inr demo_config)
        (app_start, app_world [m] [[], [], [''default''], [''default''], [''default''], [''r''], [''default'']]) = ((s1, w1), x)
     \<and> as_svcMgr s1 = 1 \<and> mgr_ok (wo_mgrs w1 ! 1) \<and> monitors_stopped (wo_mgrs w1 ! 0)"
proof -
  obtain c0 m inst where m: "mgr_ok m" "range_order (mg_instances m) [''default'']" using demo_manager by blast
  obtain c where c: "Load [] [] [''default''] (Inr demo_config) = Inr c" "range_order (cf_Services c) [''default'']" using demo_load by blast
  let ?os = "[[], [], [''default''], [''default''], [''default''], [''r''], [''default'']] :: string list list"
  let ?w = "app_world [m] ?os"
  obtain s1 w1 x where r: "reload demo_deps insertionSort (Inr demo_config) (app_start, ?w) = ((s1, w1), x)" by (metis surj_pair)
  have "as_svcMgr app_start = 0" by (simp add: app_start_def)
  with reload_outcome [OF r] m c
  have "as_svcMgr s1 = 1" "mgr_ok (wo_mgrs w1 ! 1)" "monitors_stopped (wo_mgrs w1 ! 0)" by (auto simp: orders_fit_def loaded_def)
  with r show ?thesis by blast
qed

end
