(* ===== verification/Confine.thy ===== *)
theory Confine
  imports Reload
begin

text \<open>
  What a request can do to the service managers. Handlers change a manager by selecting a server, by counting and by reporting an outcome, and nothing else; so every
  reflexive and transitive relation between managers that allows these three holds between the worlds before and after a request, through any chain of middlewares.
  The locale \<open>manager_relation\<close> shows this once; it is used for the addresses that a request can reach, and for the invariant of the managers.
\<close>

section \<open>Relations between worlds\<close>

definition related :: "(nat \<Rightarrow> Manager \<Rightarrow> Manager \<Rightarrow> bool) \<Rightarrow> (Hub \<Rightarrow> Hub \<Rightarrow> bool) \<Rightarrow> 'l World \<Rightarrow> 'l World \<Rightarrow> bool" where
  "related R H w w1 \<longleftrightarrow> H (wo_hub w) (wo_hub w1) \<and> length (wo_mgrs w1) = length (wo_mgrs w)
     \<and> (\<forall>b < length (wo_mgrs w). R b (wo_mgrs w ! b) (wo_mgrs w1 ! b))"

definition keeps_related :: "(nat \<Rightarrow> Manager \<Rightarrow> Manager \<Rightarrow> bool) \<Rightarrow> (Hub \<Rightarrow> Hub \<Rightarrow> bool) \<Rightarrow> 'l Handler \<Rightarrow> bool" where
  "keeps_related R H serve \<longleftrightarrow> (\<forall>w rw r. related R H w (fst (serve w rw r)))"

lemma related_cong: "wo_mgrs w' = wo_mgrs w \<Longrightarrow> wo_hub w' = wo_hub w \<Longrightarrow> related R H w' = related R H w"
  by (simp add: related_def fun_eq_iff)

lemma related_mono: "related R H w w1 \<Longrightarrow> (\<And>b m m1. R b m m1 \<Longrightarrow> S b m m1) \<Longrightarrow> related S H w w1"
  by (auto simp: related_def)

lemma keeps_related_mono: "keeps_related R H serve \<Longrightarrow> (\<And>b m m1. R b m m1 \<Longrightarrow> S b m m1) \<Longrightarrow> keeps_related S H serve"
  unfolding keeps_related_def using related_mono by blast

lemma draws_frame [simp]:
  "wo_mgrs (snd (draw_answer w)) = wo_mgrs w" "wo_mgrs (snd (draw_stamp w)) = wo_mgrs w" "wo_mgrs (snd (draw_rand w)) = wo_mgrs w"
  "wo_mgrs (snd (draw_waited w)) = wo_mgrs w" "wo_mgrs (snd (draw_bytes w)) = wo_mgrs w"
  "wo_hub (snd (draw_answer w)) = wo_hub w" "wo_hub (snd (draw_stamp w)) = wo_hub w" "wo_hub (snd (draw_rand w)) = wo_hub w"
  "wo_hub (snd (draw_waited w)) = wo_hub w" "wo_hub (snd (draw_bytes w)) = wo_hub w" "wo_hub (snd (draw_now w)) = wo_hub w"
  by (simp_all add: draw_answer_def draw_stamp_def draw_rand_def draw_waited_def draw_bytes_def draw_now_def)

lemma calls_frame [simp]:
  "wo_mgrs (snd (client_Do q w)) = wo_mgrs w" "wo_mgrs (snd (attempt_timeout ph ctx w)) = wo_mgrs w"
  "wo_mgrs (snd (retry_pause i ms r w)) = wo_mgrs w" "wo_mgrs (log_line path e w) = wo_mgrs w"
  "wo_hub (snd (client_Do q w)) = wo_hub w" "wo_hub (snd (attempt_timeout ph ctx w)) = wo_hub w"
  "wo_hub (snd (retry_pause i ms r w)) = wo_hub w" "wo_hub (log_line path e w) = wo_hub w"
  "wo_hub (log_Info entry w) = wo_hub w" "wo_hub (log_Error entry w) = wo_hub w"
  by (simp_all add: client_Do_def attempt_timeout_def retry_pause_def log_line_def log_Info_def log_Error_def log_write_def
      Let_def case_prod_beta split: option.splits)

lemma related_frame [simp]:
  "related R H w (log_Info entry w1) = related R H w w1" "related R H w (log_Error entry w1) = related R H w w1"
  "related R H w (snd (draw_now w1)) = related R H w w1" "related R H w (snd (client_Do q w1)) = related R H w w1"
  "related R H (log_Info entry w) w1 = related R H w w1"
  by (simp_all add: related_def)

lemma route_loop_in: "route_loop rs req = Some r \<Longrightarrow> r \<in> set rs"
  by (induction rs) (auto split: if_splits)

section \<open>What handlers keep\<close>

locale manager_relation =
  fixes R :: "nat \<Rightarrow> Manager \<Rightarrow> Manager \<Rightarrow> bool" and H :: "Hub \<Rightarrow> Hub \<Rightarrow> bool" and A :: "nat set"
  assumes hub_refl: "H h h"
    and hub_trans: "H h h1 \<Longrightarrow> H h1 h2 \<Longrightarrow> H h h2"
    and refl: "R b m m"
    and trans: "R b m m1 \<Longrightarrow> R b m1 m2 \<Longrightarrow> R b m m2"
    and select: "a \<in> A \<Longrightarrow> mg_instances m k = Some inst \<Longrightarrow> Router_Select tf tc rnd pri ex (is_Router inst) = ((r, rnd1), res)
      \<Longrightarrow> R a m (set_instance k (set_router r inst) m)"
    and count: "a \<in> A \<Longrightarrow> mg_instances m k = Some inst \<Longrightarrow> R a m (set_instance k (set_collector (collector_step (is_Collector inst) e) inst) m)"
    and report: "a \<in> A \<Longrightarrow> R a m (RecordCircuitBreakerResult ks now stamp url ok m)"
begin

lemma same: "wo_mgrs w1 = wo_mgrs w \<Longrightarrow> wo_hub w1 = wo_hub w \<Longrightarrow> related R H w w1"
  by (simp add: related_def refl hub_refl)

lemma before: "related R H w1 w2 \<Longrightarrow> wo_mgrs w1 = wo_mgrs w \<Longrightarrow> wo_hub w1 = wo_hub w \<Longrightarrow> related R H w w2"
  by (simp add: related_def)

lemma after: "related R H w w1 \<Longrightarrow> related R H w1 w2 \<Longrightarrow> related R H w w2"
  unfolding related_def by (auto intro: trans hub_trans)

lemma put: "R a (wo_mgrs w ! a) m \<Longrightarrow> related R H w (w\<lparr>wo_mgrs := (wo_mgrs w)[a := m]\<rparr>)"
  unfolding related_def by (simp add: hub_refl, metis nth_list_update_eq nth_list_update_neq refl)

lemma go_on: "related R H w (fst x) \<Longrightarrow> (\<And>w1 y. x = (w1, Inr y) \<Longrightarrow> related R H w1 (fst (f w1 y))) \<Longrightarrow> related R H w (fst (and_do x f))"
  by (cases "(x, f)" rule: and_do.cases) (auto intro: after)

lemma replies: "fst (reply x w r) = w"
  by (simp add: reply_def)

lemma collector:
  assumes "a \<in> A" and "f = (\<lambda>c. collector_step c e)"
  shows "related R H w (on_collector a k f w)"
  using count [OF assms(1), of "wo_mgrs w ! a" k _ e] assms(2)
  by (auto simp: on_collector_def wo_put_def wo_instance_def same split: option.splits if_splits intro!: put)

lemma counted:
  assumes "a \<in> A" and "related R H w w1"
  shows "related R H w (on_collector a k (RecordStart t) w1)" "related R H w (on_collector a k (RecordEnd t l ok) w1)"
    "related R H w (on_collector a k (RecordPriority t pri) w1)"
  by (rule after [OF assms(2) collector [OF assms(1)]], rule ext, rule collector_step.simps [symmetric])+

lemma prepared: "a \<in> A \<Longrightarrow> related R H w (snd (snd (prepare a k ph t req w)))"
  using counted(1) [OF _ same [OF HOL.refl HOL.refl], of a w k t] by (simp add: prepare_def Let_def case_prod_beta related_def)

lemma to_backend: "a \<in> A \<Longrightarrow> related R H w (fst (proxyToBackend a k ph t pri n rid cip w rw req))"
  using prepared [of a w k ph t req]
  by (auto simp: proxyToBackend_def Let_def case_prod_beta fst_and_do_reply split: sum.splits intro!: counted)

lemma selected:
  assumes "a \<in> A"
  shows "related R H w (snd (select_server a k pri ex w))"
proof (cases "wo_instance a k w")
  case (Some inst)
  then have i: "mg_instances (wo_mgrs w ! a) k = Some inst" by (simp add: wo_instance_def split: if_splits)
  obtain r rnd res where s: "Router_Select (fst (draw_clocks w)) (fst (draw_now (snd (draw_clocks w))))
      (en_rand (wo_env (snd (draw_now (snd (draw_clocks w)))))) pri ex (is_Router inst) = ((r, rnd), res)" by (metis surj_pair)
  from put [OF select [OF assms i s], of ] show ?thesis
    using Some s by (simp add: select_server_def Let_def case_prod_beta wo_put_def related_def)
qed (simp add: select_server_def same)

lemma proxy: "a \<in> A \<Longrightarrow> keeps_related R H (proxy_ServeHTTP a k ph)"
  unfolding keeps_related_def
  by (auto simp: proxy_ServeHTTP_def Let_def case_prod_beta selected split: sum.splits fault.splits
      intro: after [OF selected to_backend])

lemma retry_loop:
  assumes "keeps_related R H next"
  shows "related R H w (fst (retry_loop n i m ms next w rw r))"
proof (induction n arbitrary: i w rw r)
  case (Suc n)
  let ?w = "snd (retry_pause i ms r w)"
  have "related R H ?w (fst (next ?w (RetryW rw new_retryWriter) q))" for q using assms by (simp add: keeps_related_def)
  then have "related R H w (fst (next ?w (RetryW rw new_retryWriter) q))" for q by (rule before) simp_all
  then show ?case
    by (auto simp: Let_def case_prod_beta same replies split: Writer.splits intro!: go_on before [OF Suc.IH])
qed (simp add: same)

lemma reported: "b \<in> A \<Longrightarrow> related R H w (report_result b url ok w)"
  unfolding report_result_def Let_def case_prod_beta by (rule before [OF put [OF report]]) simp_all

lemma circuit_breaker: "keeps_related R H next \<Longrightarrow> set_option registry \<subseteq> A \<Longrightarrow> keeps_related R H (NewCircuitBreaker registry next)"
  by (auto simp: keeps_related_def NewCircuitBreaker_def Let_def same
      split: Writer.splits option.splits intro!: go_on reported)

lemma middlewares:
  assumes "set_option registry \<subseteq> A"
  shows "middleware_invariant registry (keeps_related R H)"
proof
  fix "next" :: "'a Handler" assume c: "keeps_related R H next"
  then have n: "related R H w (fst (next w rw r))" for w rw r by (simp add: keeps_related_def)
  have n': "related R H w (fst (next w1 rw r))" if "wo_mgrs w1 = wo_mgrs w" "wo_hub w1 = wo_hub w" for w w1 rw r
    using before [OF n that] .
  show "keeps_related R H (NewRetry n ms next)" for n ms
    unfolding keeps_related_def using retry_loop [OF c] by (simp add: NewRetry_def Let_def del: retry_loop.simps)
  show "keeps_related R H (NewCircuitBreaker registry next)" by (rule circuit_breaker [OF c assms])
  show "keeps_related R H (NewAccessLog opened path next)" for opened path
    by (auto simp: keeps_related_def NewAccessLog_def Let_def case_prod_beta n' same split: Writer.splits intro!: go_on)
  show "keeps_related R H (RateLimit NewLimiter Allow addr next)" for NewLimiter Allow addr
    by (auto simp: keeps_related_def RateLimit_def Let_def case_prod_beta n' same replies)
  show "keeps_related R H (NewPriorityTimeout h m l next)" for h m l
    by (auto simp: keeps_related_def NewPriorityTimeout_def Let_def case_prod_beta n')
  show "keeps_related R H (RequestHeaders next)"
    by (auto simp: keeps_related_def RequestHeaders_def Let_def case_prod_beta n')
  show "keeps_related R H (CORS cfg next)" for cfg
    by (auto simp: keeps_related_def CORS_def Let_def n same replies)
  show "keeps_related R H (BasicAuth user pass next)" for user pass
    by (auto simp: keeps_related_def BasicAuth_def unauthorized_def n same replies split: option.splits)
qed

lemma chain:
  "list_all2 (stands_for d cfg registry) names mws \<Longrightarrow> set_option registry \<subseteq> A \<Longrightarrow> keeps_related R H final \<Longrightarrow> keeps_related R H (Chain mws final)"
  using middleware_invariant.chain [OF middlewares] by blast

text \<open>The table of routes, and the handler of the application that uses it.\<close>

lemma table:
  assumes "slice_sort srt" and "add_routes srt specs NewRouteManager = Inr m"
    and "\<forall>spec \<in> set specs. router_entry d cfg a w spec" and "a \<in> A"
  shows "\<forall>r \<in> set (rm_routes m). keeps_related R H (rt_Handler r)"
proof
  fix r assume "r \<in> set (rm_routes m)"
  then obtain spec where spec: "spec \<in> set specs" "route_of spec = Some r"
    using table_search(1,2) [OF assms(1,2)] by (auto simp: image_iff)
  have "router_entry d cfg a w spec" using assms(3) spec(1) by blast
  then obtain rt :: RouterConfig and base mws where "rt_Handler r = Chain mws base" and base: "svc_Get a (rc_Service rt) w = Some base"
    and mws: "list_all2 (stands_for d cfg (Some a)) (rc_Middlewares rt) mws"
    by (rule entry_route [OF _ spec(2)])
  moreover have "keeps_related R H base" using base by (auto simp: svc_Get_def proxy assms(4) split: if_splits)
  ultimately show "keeps_related R H (rt_Handler r)" using chain [OF mws] assms(4) by simp
qed

lemma app_table:
  assumes "\<forall>r \<in> set (rm_routes (as_routerMgr s)). keeps_related R H (rt_Handler r)" and "as_svcMgr s \<in> A"
  shows "keeps_related R H (app_ServeHTTP s)"
proof -
  have "related R H w (fst (app_ServeHTTP s w rw req))" for w rw req
  proof (cases "RouteManager_Route (as_routerMgr s) req")
    case (Some r)
    then have "r \<in> set (rm_routes (as_routerMgr s))" using route_loop_in by (simp add: RouteManager_Route_def)
    with assms(1) have "keeps_related R H (rt_Handler r)" by blast
    then show ?thesis using Some by (simp add: app_ServeHTTP_def keeps_related_def)
  next
    case None
    have "keeps_related R H h" if "svc_Get (as_svcMgr s) ''default'' w = Some h" for h
      using that by (auto simp: svc_Get_def proxy assms(2) split: if_splits)
    then show ?thesis using None by (simp add: app_ServeHTTP_def keeps_related_def same replies split: option.splits)
  qed
  then show ?thesis by (simp add: keeps_related_def)
qed

lemma app:
  assumes "initialize d srt cfg (s, w) = ((s1, w1), Inr ())" and "slice_sort srt" and "as_svcMgr s1 \<in> A"
  shows "keeps_related R H (app_ServeHTTP s1)"
  using initialize_table [OF assms(1)] table [OF assms(2)] assms(3) by (intro app_table) auto

end

section \<open>Two relations\<close>

text \<open>Managers outside of a set of addresses stay as they are.\<close>

definition only :: "nat set \<Rightarrow> nat \<Rightarrow> Manager \<Rightarrow> Manager \<Rightarrow> bool" where
  "only A b m m1 \<longleftrightarrow> b \<in> A \<or> m1 = m"

interpretation only: manager_relation "only A" "(=)" A for A
  by unfold_locales (auto simp: only_def)

text \<open>A well-formed manager stays well-formed and keeps its configuration, and its health checks are neither started nor stopped.\<close>

definition monitors_of :: "Manager \<Rightarrow> string \<Rightarrow> Monitor option option" where
  "monitors_of m k = map_option is_Monitor (mg_instances m k)"

definition still_ok :: "nat \<Rightarrow> Manager \<Rightarrow> Manager \<Rightarrow> bool" where
  "still_ok b m m1 \<longleftrightarrow> (mgr_ok m \<longrightarrow> mgr_ok m1 \<and> mg_cfg m1 = mg_cfg m) \<and> monitors_of m1 = monitors_of m"

text \<open>No request changes the provider and the history of the hub.\<close>

definition hub_kept :: "Hub \<Rightarrow> Hub \<Rightarrow> bool" where
  "hub_kept h h1 \<longleftrightarrow> hu_provider h1 = hu_provider h \<and> hu_history h1 = hu_history h \<and> hu_htmlPath h1 = hu_htmlPath h"

lemma monitors_of_set_instance:
  "mg_instances m k = Some inst \<Longrightarrow> is_Monitor inst1 = is_Monitor inst \<Longrightarrow> monitors_of (set_instance k inst1 m) = monitors_of m"
  by (auto simp: monitors_of_def fun_eq_iff)

lemma still_ok_instance:
  assumes "mg_instances m k = Some inst" and "instance_ok inst \<Longrightarrow> keeps inst inst1" and "is_Monitor inst1 = is_Monitor inst"
  shows "still_ok b m (set_instance k inst1 m)"
proof -
  have "mgr_ok (set_instance k inst1 m) \<and> mg_cfg (set_instance k inst1 m) = mg_cfg m" if m: "mgr_ok m"
  proof -
    have "instance_ok inst" using m assms(1) by (simp add: mgr_ok_def)
    then show ?thesis using mgr_ok_set_instance [OF m assms(1)] assms(2) by simp
  qed
  then show ?thesis using monitors_of_set_instance [OF assms(1,3)] by (simp add: still_ok_def)
qed

lemma monitors_of_report: "monitors_of (RecordCircuitBreakerResult ks now stamp url ok m) = monitors_of m"
  by (induction ks now stamp url ok m rule: RecordCircuitBreakerResult.induct)
    (auto simp: record_on_def Let_def case_prod_beta monitors_of_set_instance split: option.splits)

interpretation still_ok: manager_relation still_ok hub_kept UNIV
proof
  fix a :: nat and m :: Manager and k inst tf tc rnd pri ex r rnd1 res
  assume i: "mg_instances m k = Some inst" and s: "Router_Select tf tc rnd pri ex (is_Router inst) = ((r, rnd1), res)"
  have "keeps inst (set_router r inst)" if "instance_ok inst"
    using select_on_ok [OF that, of tf tc rnd pri ex] s by (auto simp: select_on_def split: sum.splits fault.splits)
  with i show "still_ok a m (set_instance k (set_router r inst) m)" by (rule still_ok_instance) simp_all
next
  fix a :: nat and m :: Manager and k inst e
  assume i: "mg_instances m k = Some inst"
  show "still_ok a m (set_instance k (set_collector (collector_step (is_Collector inst) e) inst) m)"
    by (rule still_ok_instance [OF i]) (rule keeps_collector, simp_all)
qed (auto simp: still_ok_def hub_kept_def RecordCircuitBreakerResult_ok monitors_of_report)

section \<open>Requests after a reload\<close>

text \<open>
  C13. Requests stay within the managers they were set up for. After a set-up or reload, a request that passes an entrypoint, whose middlewares were resolved for the
  manager \<open>m0\<close> of the program's start, changes no service manager but the current one and \<open>m0\<close>; without entrypoint middlewares it changes the current one only. So
  metrics, breakers and monitors of a service manager that a reload has replaced are never changed by a later request, with the one exception of reports by a
  circuit breaker middleware of an entrypoint, which go on to the manager of the start.
\<close>

theorem requests_confined:
  assumes "slice_sort srt" and "initialize d srt cfg (s, w) = ((s1, w1), Inr ())"
    and "ResolveMiddlewares names d (NewBuilder cfg0 (Some m0), w0) = ((b, w0'), Inr mws)"
    and "j < length (wo_mgrs w2)" and "j \<noteq> as_svcMgr s1" and "j \<noteq> m0 \<or> names = []"
  shows "wo_mgrs (fst (Chain mws (app_ServeHTTP s1) w2 rw req)) ! j = wo_mgrs w2 ! j"
proof -
  let ?A = "if names = [] then {as_svcMgr s1} else {m0, as_svcMgr s1}"
  have app: "keeps_related (only ?A) (=) (app_ServeHTTP s1)" by (rule only.app [OF assms(2,1)]) simp
  have mws: "list_all2 (stands_for d cfg0 (Some m0)) names mws"
    using resolve_knows [OF assms(3)] by simp
  have "keeps_related (only ?A) (=) (Chain mws (app_ServeHTTP s1))"
  proof (cases "names = []")
    case True
    then show ?thesis using mws app by (simp add: Chain_def)
  next
    case False
    then show ?thesis by (intro only.chain [OF mws _ app]) simp
  qed
  then show ?thesis using assms(4-6) by (auto simp: keeps_related_def related_def only_def split: if_splits)
qed

theorem requests_confined_witness:
  "\<exists>m c s1 w1 b w mws. initialize demo_deps insertionSort c (app_start, app_world [m, m] [[''default''], [''r'']]) = ((s1, w1), Inr ())
     \<and> ResolveMiddlewares [''headers''] demo_deps (NewBuilder demo_config (Some 0), w1) = ((b, w), Inr mws)
     \<and> wo_mgrs (fst (Chain mws (app_ServeHTTP s1) w1 (ConnW (new_Conn False)) demo_request)) ! 1 = m"
proof -
  obtain m :: Manager where "mgr_ok m" using demo_manager by blast
  obtain c s1 w1 where i: "initialize demo_deps insertionSort c (app_start, app_world [m, m] [[''default''], [''r'']]) = ((s1, w1), Inr ())"
    using demo_initialize [of "[m, m]"] by blast
  obtain m2 where s1: "as_svcMgr s1 = 2" "wo_mgrs w1 = [m, m, m2]" using initialize_table [OF i] by auto
  obtain b w mws where r: "ResolveMiddlewares [''headers''] demo_deps (NewBuilder demo_config (Some 0), w1) = ((b, w), Inr mws)"
    by (simp add: ResolveMiddlewares_def Build_def NewBuilder_def demo_config_def buildLegacy_def built_def)
  have "wo_mgrs (fst (Chain mws (app_ServeHTTP s1) w1 (ConnW (new_Conn False)) demo_request)) ! 1 = wo_mgrs w1 ! 1"
    by (rule requests_confined [OF go_sort.slice_sort_axioms i r]) (simp_all add: s1)
  also have "wo_mgrs w1 ! 1 = m" by (simp add: s1(2))
  finally show ?thesis using i r by blast
qed

end
