(* ===== verification/JsonText.thy ===== *)
theory JsonText
  imports Json "HOL-Library.List_Lexorder" "HOL-Library.Char_ord"
begin

text \<open>
  How \<^verbatim>\<open>encoding/json\<close> writes Go values: structs with their tags, maps with sorted keys, and the text with its escapes. The shortest decimal
  form of a \<^verbatim>\<open>float64\<close> is an argument; it is missing for the values that JSON does not have, for which encoding fails.
\<close>

section \<open>Values\<close>

text \<open>A member of a struct, left out when the tag says \<^verbatim>\<open>omitempty\<close> and the field is zero.\<close>

definition member :: "string \<Rightarrow> json \<Rightarrow> (string \<times> json) list" where
  "member name j = [(name, j)]"

definition optional :: "string \<Rightarrow> bool \<Rightarrow> json \<Rightarrow> (string \<times> json) list" where
  "optional name zero j = (if zero then [] else [(name, j)])"

definition json_map :: "('v \<Rightarrow> json) \<Rightarrow> (string \<rightharpoonup> 'v) \<Rightarrow> json" where
  "json_map f m = JObj (map (\<lambda>k. (k, f (the (m k)))) (sorted_list_of_set (dom m)))"

text \<open>A number without fraction below \<open>10\<close> to the 21 is written like an integer.\<close>

definition json_float :: "f64 \<Rightarrow> json" where
  "json_float x = (if x = of_int \<lfloor>x\<rfloor> \<and> \<bar>x\<bar> < 10 ^ 21 then JInt \<lfloor>x\<rfloor> else JFloat x)"

fun json_pointer :: "('v \<Rightarrow> json) \<Rightarrow> 'v option \<Rightarrow> json" where
  "json_pointer f None = JNull"
| "json_pointer f (Some v) = f v"

section \<open>Text\<close>

definition hex_char :: "nat \<Rightarrow> char" where
  "hex_char n = (''0123456789abcdef'' ! n)"

text \<open>The number of bytes of the character at the front, by the rules of UTF-8; \<open>None\<close> if they form none.\<close>

definition continues :: "nat list \<Rightarrow> bool" where
  "continues bs \<longleftrightarrow> list_all (\<lambda>b. 0x80 \<le> b \<and> b \<le> 0xBF) bs"

definition utf8_size :: "nat list \<Rightarrow> nat option" where
  "utf8_size bs =
     (case bs of
        [] \<Rightarrow> None
      | b0 # r \<Rightarrow>
          let b1 = (case r of [] \<Rightarrow> 0 | b1 # r1 \<Rightarrow> b1)
          in if b0 < 0x80 then Some 1
             else if 0xC2 \<le> b0 \<and> b0 \<le> 0xDF \<and> length r \<ge> 1 \<and> continues (take 1 r) then Some 2
             else if 0xE0 \<le> b0 \<and> b0 \<le> 0xEF \<and> length r \<ge> 2 \<and> continues (take 2 r)
                \<and> (b0 = 0xE0 \<longrightarrow> 0xA0 \<le> b1) \<and> (b0 = 0xED \<longrightarrow> b1 \<le> 0x9F) then Some 3
             else if 0xF0 \<le> b0 \<and> b0 \<le> 0xF4 \<and> length r \<ge> 3 \<and> continues (take 3 r)
                \<and> (b0 = 0xF0 \<longrightarrow> 0x90 \<le> b1) \<and> (b0 = 0xF4 \<longrightarrow> b1 \<le> 0x8F) then Some 4
             else None)"

definition escape_byte :: "char \<Rightarrow> string" where
  "escape_byte c =
     (if byte c = 0x22 \<or> byte c = 0x5C then [CHR 0x5C, c]
      else if byte c = 0x08 then [CHR 0x5C, CHR ''b'']
      else if byte c = 0x0C then [CHR 0x5C, CHR ''f'']
      else if byte c = 0x0A then [CHR 0x5C, CHR ''n'']
      else if byte c = 0x0D then [CHR 0x5C, CHR ''r'']
      else if byte c = 0x09 then [CHR 0x5C, CHR ''t'']
      else if byte c < 0x20 \<or> c = CHR ''<'' \<or> c = CHR ''>'' \<or> c = CHR ''&''
        then CHR 0x5C # ''u00'' @ [hex_char (byte c div 16), hex_char (byte c mod 16)]
      else [c])"

function escape :: "string \<Rightarrow> string" where
  "escape [] = []"
| "escape (c # cs) =
     (if byte c < 0x80 then escape_byte c @ escape cs
      else case utf8_size (map byte (c # cs)) of
             None \<Rightarrow> CHR 0x5C # ''ufffd'' @ escape cs
           | Some n \<Rightarrow>
               if map byte (c # take 2 cs) \<in> {[0xE2, 0x80, 0xA8], [0xE2, 0x80, 0xA9]}
               then CHR 0x5C # ''u202'' @ [hex_char (byte (cs ! 1) mod 16)] @ escape (drop 2 cs)
               else c # take (n - 1) cs @ escape (drop (n - 1) cs))"
  by pat_completeness auto
termination
  by (relation "measure length") auto

definition json_string :: "string \<Rightarrow> string" where
  "json_string s = CHR 0x22 # escape s @ [CHR 0x22]"

text \<open>\<open>flt\<close> is the text of a \<^verbatim>\<open>float64\<close>.\<close>

function json_text :: "(f64 \<Rightarrow> string option) \<Rightarrow> json \<Rightarrow> string result"
  and json_elements :: "(f64 \<Rightarrow> string option) \<Rightarrow> json list \<Rightarrow> string list result"
  and json_members :: "(f64 \<Rightarrow> string option) \<Rightarrow> (string \<times> json) list \<Rightarrow> string list result" where
  "json_text flt JNull = Inr ''null''"
| "json_text flt (JBool b) = Inr (if b then ''true'' else ''false'')"
| "json_text flt (JInt n) = Inr (Itoa n)"
| "json_text flt (JFloat x) = (case flt x of None \<Rightarrow> Inl (GoError ''json: unsupported value'') | Some s \<Rightarrow> Inr s)"
| "json_text flt (JStr s) = Inr (json_string s)"
| "json_text flt (JArr js) = map_sum id (\<lambda>ts. ''['' @ strings_Join ts '','' @ '']'') (json_elements flt js)"
| "json_text flt (JObj ms) = map_sum id (\<lambda>ts. ''{'' @ strings_Join ts '','' @ ''}'') (json_members flt ms)"
| "json_elements flt [] = Inr []"
| "json_elements flt (j # js) =
     (case json_text flt j of Inl e \<Rightarrow> Inl e | Inr t \<Rightarrow> map_sum id (\<lambda>ts. t # ts) (json_elements flt js))"
| "json_members flt [] = Inr []"
| "json_members flt ((k, j) # ms) =
     (case json_text flt j of
        Inl e \<Rightarrow> Inl e
      | Inr t \<Rightarrow> map_sum id (\<lambda>ts. (json_string k @ '':'' @ t) # ts) (json_members flt ms))"
  by pat_completeness auto
termination
  by (relation "measure (\<lambda>x. case x of Inl (flt, j) \<Rightarrow> size j | Inr (Inl (flt, js)) \<Rightarrow> size_list size js
      | Inr (Inr (flt, ms)) \<Rightarrow> size_list (size_prod (\<lambda>_. 0) size) ms)") auto

section \<open>Encoding succeeds\<close>

text \<open>The only failure is a number that JSON does not have.\<close>

fun floats :: "json \<Rightarrow> f64 set" where
  "floats (JFloat x) = {x}"
| "floats (JArr js) = (\<Union>j \<in> set js. floats j)"
| "floats (JObj ms) = (\<Union>m \<in> set ms. floats (snd m))"
| "floats j = {}"

lemma json_text_total:
  "\<forall>x \<in> floats j. flt x \<noteq> None \<Longrightarrow> \<exists>t. json_text flt j = Inr t"
  "\<forall>j \<in> set js. \<forall>x \<in> floats j. flt x \<noteq> None \<Longrightarrow> \<exists>ts. json_elements flt js = Inr ts"
  "\<forall>m \<in> set ms. \<forall>x \<in> floats (snd m). flt x \<noteq> None \<Longrightarrow> \<exists>ts. json_members flt ms = Inr ts"
  by (induction flt j and flt js and flt ms rule: json_text_json_elements_json_members.induct) auto

end
