(* ===== verification/ConfigJson.thy ===== *)
theory ConfigJson
  imports Config JsonText
begin

text \<open>
  The configuration as JSON, after the tags of \<^verbatim>\<open>src/config/config.go\<close>: how the file is decoded into the structs, and how the dashboard's
  \<^verbatim>\<open>/api/config\<close> encodes them. A list of the model stands for a nil slice when it is empty, which is written as \<^verbatim>\<open>null\<close>.
\<close>

section \<open>Pointers, slices and maps\<close>

fun read_pointer :: "'a \<Rightarrow> 'a reader \<Rightarrow> 'a option reader" where
  "read_pointer zero read JNull old = Inr None"
| "read_pointer zero read j old = map_sum id Some (read j (case old of None \<Rightarrow> zero | Some x \<Rightarrow> x))"

fun read_items :: "'a \<Rightarrow> 'a reader \<Rightarrow> json list \<Rightarrow> 'a list \<Rightarrow> 'a list result" where
  "read_items zero read [] old = Inr []"
| "read_items zero read (j # js) old =
     (case read j (case old of [] \<Rightarrow> zero | x # xs \<Rightarrow> x) of
        Inl e \<Rightarrow> Inl e
      | Inr x \<Rightarrow> map_sum id (\<lambda>xs. x # xs) (read_items zero read js (case old of [] \<Rightarrow> [] | x # xs \<Rightarrow> xs)))"

fun read_slice :: "'a \<Rightarrow> 'a reader \<Rightarrow> 'a list reader" where
  "read_slice zero read JNull old = Inr []"
| "read_slice zero read (JArr js) old = read_items zero read js old"
| "read_slice zero read j old = type_error"

text \<open>A map from keys to pointers: every entry is read afresh.\<close>

fun read_entries :: "'a \<Rightarrow> 'a reader \<Rightarrow> (string \<times> json) list \<Rightarrow> (string \<rightharpoonup> 'a option) \<Rightarrow> (string \<rightharpoonup> 'a option) result" where
  "read_entries zero read [] m = Inr m"
| "read_entries zero read ((k, j) # ms) m =
     (case read_pointer zero read j None of Inl e \<Rightarrow> Inl e | Inr v \<Rightarrow> read_entries zero read ms (m(k \<mapsto> v)))"

fun read_map :: "'a \<Rightarrow> 'a reader \<Rightarrow> (string \<rightharpoonup> 'a option) reader" where
  "read_map zero read JNull old = Inr Map.empty"
| "read_map zero read (JObj ms) old = read_entries zero read ms old"
| "read_map zero read j old = type_error"

text \<open>A \<^verbatim>\<open>json.RawMessage\<close> takes any value, \<^verbatim>\<open>null\<close> too.\<close>

definition read_raw :: "json option reader" where
  "read_raw j old = Inr (Some j)"

definition json_list :: "('a \<Rightarrow> json) \<Rightarrow> 'a list \<Rightarrow> json" where
  "json_list f xs = (if xs = [] then JNull else JArr (map f xs))"

section \<open>Structs\<close>

definition zero_health :: HealthCheckConfig where
  "zero_health =
     \<lparr>hc_Path = [], hc_IntervalSec = 0, hc_TimeoutSec = 0, hc_ExpectedStatus = 0\<rparr>"

definition health_fields :: "HealthCheckConfig fields" where
  "health_fields =
     [field ''path'' hc_Path (\<lambda>v. hc_Path_update (\<lambda>_. v)) read_string,
      field ''interval_sec'' hc_IntervalSec (\<lambda>v. hc_IntervalSec_update (\<lambda>_. v)) read_int,
      field ''timeout_sec'' hc_TimeoutSec (\<lambda>v. hc_TimeoutSec_update (\<lambda>_. v)) read_int,
      field ''expected_status'' hc_ExpectedStatus (\<lambda>v. hc_ExpectedStatus_update (\<lambda>_. v)) read_int]"

definition health_json :: "HealthCheckConfig \<Rightarrow> json" where
  "health_json h =
     JObj (optional ''path'' (hc_Path h = []) (JStr (hc_Path h)) @
       optional ''interval_sec'' (hc_IntervalSec h = 0) (JInt (hc_IntervalSec h)) @
       optional ''timeout_sec'' (hc_TimeoutSec h = 0) (JInt (hc_TimeoutSec h)) @
       optional ''expected_status'' (hc_ExpectedStatus h = 0) (JInt (hc_ExpectedStatus h)))"

definition zero_breaker :: CircuitBreakerConfig where
  "zero_breaker =
     \<lparr>cb_Threshold = 0, cb_RecoveryTimeoutSec = 0\<rparr>"

definition breaker_fields :: "CircuitBreakerConfig fields" where
  "breaker_fields =
     [field ''threshold'' cb_Threshold (\<lambda>v. cb_Threshold_update (\<lambda>_. v)) read_int,
      field ''recovery_timeout_sec'' cb_RecoveryTimeoutSec (\<lambda>v. cb_RecoveryTimeoutSec_update (\<lambda>_. v)) read_int]"

definition breaker_json :: "CircuitBreakerConfig \<Rightarrow> json" where
  "breaker_json b =
     JObj (member ''threshold'' (JInt (cb_Threshold b)) @
       member ''recovery_timeout_sec'' (JInt (cb_RecoveryTimeoutSec b)))"

definition zero_balancer :: LoadBalancerConfig where
  "zero_balancer =
     \<lparr>lb_Algorithm = [], lb_Sticky = False\<rparr>"

definition balancer_fields :: "LoadBalancerConfig fields" where
  "balancer_fields =
     [field ''algorithm'' lb_Algorithm (\<lambda>v. lb_Algorithm_update (\<lambda>_. v)) read_string,
      field ''sticky'' lb_Sticky (\<lambda>v. lb_Sticky_update (\<lambda>_. v)) read_bool]"

definition balancer_json :: "LoadBalancerConfig \<Rightarrow> json" where
  "balancer_json l =
     JObj (optional ''algorithm'' (lb_Algorithm l = []) (JStr (lb_Algorithm l)) @
       optional ''sticky'' (\<not> lb_Sticky l) (JBool (lb_Sticky l)))"

definition zero_server :: ServerConfig where
  "zero_server =
     \<lparr>sv_URL = [], sv_Name = [], sv_Weight = 0, sv_DelayMs = 0, sv_HealthCheck = zero_health\<rparr>"

definition server_fields :: "ServerConfig fields" where
  "server_fields =
     [field ''url'' sv_URL (\<lambda>v. sv_URL_update (\<lambda>_. v)) read_string,
      field ''name'' sv_Name (\<lambda>v. sv_Name_update (\<lambda>_. v)) read_string,
      field ''weight'' sv_Weight (\<lambda>v. sv_Weight_update (\<lambda>_. v)) read_int,
      field ''delay_ms'' sv_DelayMs (\<lambda>v. sv_DelayMs_update (\<lambda>_. v)) read_int,
      field ''health_check'' sv_HealthCheck (\<lambda>v. sv_HealthCheck_update (\<lambda>_. v)) (read_struct health_fields)]"

definition server_json :: "ServerConfig \<Rightarrow> json" where
  "server_json s =
     JObj (member ''url'' (JStr (sv_URL s)) @
       member ''name'' (JStr (sv_Name s)) @
       member ''weight'' (JInt (sv_Weight s)) @
       member ''delay_ms'' (JInt (sv_DelayMs s)) @
       member ''health_check'' (health_json (sv_HealthCheck s)))"

definition zero_router :: RouterConfig where
  "zero_router =
     \<lparr>rc_Rule = [], rc_Priority = 0, rc_Middlewares = [], rc_Service = []\<rparr>"

definition router_fields :: "RouterConfig fields" where
  "router_fields =
     [field ''rule'' rc_Rule (\<lambda>v. rc_Rule_update (\<lambda>_. v)) read_string,
      field ''priority'' rc_Priority (\<lambda>v. rc_Priority_update (\<lambda>_. v)) read_int,
      field ''middlewares'' rc_Middlewares (\<lambda>v. rc_Middlewares_update (\<lambda>_. v)) read_strings,
      field ''service'' rc_Service (\<lambda>v. rc_Service_update (\<lambda>_. v)) read_string]"

definition router_json :: "RouterConfig \<Rightarrow> json" where
  "router_json r =
     JObj (member ''rule'' (JStr (rc_Rule r)) @
       member ''priority'' (JInt (rc_Priority r)) @
       optional ''middlewares'' (rc_Middlewares r = []) (json_list JStr (rc_Middlewares r)) @
       member ''service'' (JStr (rc_Service r)))"

definition zero_service :: ServiceConfig where
  "zero_service =
     \<lparr>sc_LoadBalancer = None, sc_HealthCheck = None, sc_CircuitBreaker = None, sc_Canary = False, sc_Servers = []\<rparr>"

definition service_fields :: "ServiceConfig fields" where
  "service_fields =
     [field ''load_balancer'' sc_LoadBalancer (\<lambda>v. sc_LoadBalancer_update (\<lambda>_. v)) (read_pointer zero_balancer (read_struct balancer_fields)),
      field ''health_check'' sc_HealthCheck (\<lambda>v. sc_HealthCheck_update (\<lambda>_. v)) (read_pointer zero_health (read_struct health_fields)),
      field ''circuit_breaker'' sc_CircuitBreaker (\<lambda>v. sc_CircuitBreaker_update (\<lambda>_. v)) (read_pointer zero_breaker (read_struct breaker_fields)),
      field ''canary'' sc_Canary (\<lambda>v. sc_Canary_update (\<lambda>_. v)) read_bool,
      field ''servers'' sc_Servers (\<lambda>v. sc_Servers_update (\<lambda>_. v)) (read_slice zero_server (read_struct server_fields))]"

definition service_json :: "ServiceConfig \<Rightarrow> json" where
  "service_json s =
     JObj (optional ''load_balancer'' (sc_LoadBalancer s = None) (json_pointer balancer_json (sc_LoadBalancer s)) @
       optional ''health_check'' (sc_HealthCheck s = None) (json_pointer health_json (sc_HealthCheck s)) @
       optional ''circuit_breaker'' (sc_CircuitBreaker s = None) (json_pointer breaker_json (sc_CircuitBreaker s)) @
       optional ''canary'' (\<not> sc_Canary s) (JBool (sc_Canary s)) @
       member ''servers'' (json_list server_json (sc_Servers s)))"

definition zero_auth :: DashboardAuth where
  "zero_auth =
     \<lparr>da_Username = [], da_Password = []\<rparr>"

definition auth_fields :: "DashboardAuth fields" where
  "auth_fields =
     [field ''username'' da_Username (\<lambda>v. da_Username_update (\<lambda>_. v)) read_string,
      field ''password'' da_Password (\<lambda>v. da_Password_update (\<lambda>_. v)) read_string]"

definition auth_json :: "DashboardAuth \<Rightarrow> json" where
  "auth_json a =
     JObj (optional ''username'' (da_Username a = []) (JStr (da_Username a)) @
       optional ''password'' (da_Password a = []) (JStr (da_Password a)))"

definition zero_middleware :: MiddlewareConfig where
  "zero_middleware =
     \<lparr>mc_Type = [], mc_Config = None\<rparr>"

definition middleware_fields :: "MiddlewareConfig fields" where
  "middleware_fields =
     [field ''type'' mc_Type (\<lambda>v. mc_Type_update (\<lambda>_. v)) read_string,
      field ''config'' mc_Config (\<lambda>v. mc_Config_update (\<lambda>_. v)) read_raw]"

definition middleware_json :: "MiddlewareConfig \<Rightarrow> json" where
  "middleware_json m =
     JObj (member ''type'' (JStr (mc_Type m)) @
       optional ''config'' (mc_Config m = None) (json_pointer id (mc_Config m)))"

definition zero_timeouts :: TimeoutConfig where
  "zero_timeouts =
     \<lparr>tc_HighSec = 0, tc_MediumSec = 0, tc_LowSec = 0\<rparr>"

definition timeouts_fields :: "TimeoutConfig fields" where
  "timeouts_fields =
     [field ''high_sec'' tc_HighSec (\<lambda>v. tc_HighSec_update (\<lambda>_. v)) read_int,
      field ''medium_sec'' tc_MediumSec (\<lambda>v. tc_MediumSec_update (\<lambda>_. v)) read_int,
      field ''low_sec'' tc_LowSec (\<lambda>v. tc_LowSec_update (\<lambda>_. v)) read_int]"

definition timeouts_json :: "TimeoutConfig \<Rightarrow> json" where
  "timeouts_json t =
     JObj (optional ''high_sec'' (tc_HighSec t = 0) (JInt (tc_HighSec t)) @
       optional ''medium_sec'' (tc_MediumSec t = 0) (JInt (tc_MediumSec t)) @
       optional ''low_sec'' (tc_LowSec t = 0) (JInt (tc_LowSec t)))"

definition zero_tls :: TLSConfig where
  "zero_tls =
     \<lparr>tl_Enabled = False, tl_CertFile = [], tl_KeyFile = [], tl_AutoGenerate = False\<rparr>"

definition tls_fields :: "TLSConfig fields" where
  "tls_fields =
     [field ''enabled'' tl_Enabled (\<lambda>v. tl_Enabled_update (\<lambda>_. v)) read_bool,
      field ''cert_file'' tl_CertFile (\<lambda>v. tl_CertFile_update (\<lambda>_. v)) read_string,
      field ''key_file'' tl_KeyFile (\<lambda>v. tl_KeyFile_update (\<lambda>_. v)) read_string,
      field ''auto_generate'' tl_AutoGenerate (\<lambda>v. tl_AutoGenerate_update (\<lambda>_. v)) read_bool]"

definition tls_json :: "TLSConfig \<Rightarrow> json" where
  "tls_json t =
     JObj (optional ''enabled'' (\<not> tl_Enabled t) (JBool (tl_Enabled t)) @
       optional ''cert_file'' (tl_CertFile t = []) (JStr (tl_CertFile t)) @
       optional ''key_file'' (tl_KeyFile t = []) (JStr (tl_KeyFile t)) @
       optional ''auto_generate'' (\<not> tl_AutoGenerate t) (JBool (tl_AutoGenerate t)))"

definition zero_entrypoint :: EntryPointConfig where
  "zero_entrypoint =
     \<lparr>ep_Address = [], ep_Protocol = [], ep_Middlewares = [], ep_TLS = None\<rparr>"

definition entrypoint_fields :: "EntryPointConfig fields" where
  "entrypoint_fields =
     [field ''address'' ep_Address (\<lambda>v. ep_Address_update (\<lambda>_. v)) read_string,
      field ''protocol'' ep_Protocol (\<lambda>v. ep_Protocol_update (\<lambda>_. v)) read_string,
      field ''middlewares'' ep_Middlewares (\<lambda>v. ep_Middlewares_update (\<lambda>_. v)) read_strings,
      field ''tls'' ep_TLS (\<lambda>v. ep_TLS_update (\<lambda>_. v)) (read_pointer zero_tls (read_struct tls_fields))]"

definition entrypoint_json :: "EntryPointConfig \<Rightarrow> json" where
  "entrypoint_json e =
     JObj (member ''address'' (JStr (ep_Address e)) @
       optional ''protocol'' (ep_Protocol e = []) (JStr (ep_Protocol e)) @
       optional ''middlewares'' (ep_Middlewares e = []) (json_list JStr (ep_Middlewares e)) @
       optional ''tls'' (ep_TLS e = None) (json_pointer tls_json (ep_TLS e)))"

definition zero_cors :: ConfigCORS where
  "zero_cors =
     \<lparr>cc_AllowedOrigins = [], cc_AllowedMethods = [], cc_AllowedHeaders = []\<rparr>"

definition config_cors_fields :: "ConfigCORS fields" where
  "config_cors_fields =
     [field ''allowed_origins'' cc_AllowedOrigins (\<lambda>v. cc_AllowedOrigins_update (\<lambda>_. v)) read_strings,
      field ''allowed_methods'' cc_AllowedMethods (\<lambda>v. cc_AllowedMethods_update (\<lambda>_. v)) read_strings,
      field ''allowed_headers'' cc_AllowedHeaders (\<lambda>v. cc_AllowedHeaders_update (\<lambda>_. v)) read_strings]"

definition cors_json :: "ConfigCORS \<Rightarrow> json" where
  "cors_json c =
     JObj (optional ''allowed_origins'' (cc_AllowedOrigins c = []) (json_list JStr (cc_AllowedOrigins c)) @
       optional ''allowed_methods'' (cc_AllowedMethods c = []) (json_list JStr (cc_AllowedMethods c)) @
       optional ''allowed_headers'' (cc_AllowedHeaders c = []) (json_list JStr (cc_AllowedHeaders c)))"

definition zero_config :: Config where
  "zero_config =
     \<lparr>cf_ListenPort = 0, cf_DashboardPort = 0, cf_Servers = [], cf_Algorithm = [], cf_HealthInterval = 0, cf_BreakerThreshold = 0, cf_BreakerTimeoutSec = 0, cf_MetricsIntervalSec = 0, cf_MaxRetries = 0, cf_ShutdownTimeoutSec = 0, cf_RateLimitRPS = 0, cf_RateLimitBurst = 0, cf_PerAttemptTimeoutSec = 0, cf_RetryBackoffMs = 0, cf_RetryBackoffMaxMs = 0, cf_AccessLogPath = [], cf_DashboardAuth = zero_auth, cf_TLS = zero_tls, cf_CORS = zero_cors, cf_HotReload = False, cf_Middlewares = Map.empty, cf_Timeouts = zero_timeouts, cf_EntryPoints = Map.empty, cf_Routers = Map.empty, cf_Services = Map.empty\<rparr>"

definition config_fields :: "Config fields" where
  "config_fields =
     [field ''listen_port'' cf_ListenPort (\<lambda>v. cf_ListenPort_update (\<lambda>_. v)) read_int,
      field ''dashboard_port'' cf_DashboardPort (\<lambda>v. cf_DashboardPort_update (\<lambda>_. v)) read_int,
      field ''servers'' cf_Servers (\<lambda>v. cf_Servers_update (\<lambda>_. v)) (read_slice zero_server (read_struct server_fields)),
      field ''algorithm'' cf_Algorithm (\<lambda>v. cf_Algorithm_update (\<lambda>_. v)) read_string,
      field ''health_interval_sec'' cf_HealthInterval (\<lambda>v. cf_HealthInterval_update (\<lambda>_. v)) read_int,
      field ''breaker_threshold'' cf_BreakerThreshold (\<lambda>v. cf_BreakerThreshold_update (\<lambda>_. v)) read_int,
      field ''breaker_timeout_sec'' cf_BreakerTimeoutSec (\<lambda>v. cf_BreakerTimeoutSec_update (\<lambda>_. v)) read_int,
      field ''metrics_interval_sec'' cf_MetricsIntervalSec (\<lambda>v. cf_MetricsIntervalSec_update (\<lambda>_. v)) read_int,
      field ''max_retries'' cf_MaxRetries (\<lambda>v. cf_MaxRetries_update (\<lambda>_. v)) read_int,
      field ''shutdown_timeout_sec'' cf_ShutdownTimeoutSec (\<lambda>v. cf_ShutdownTimeoutSec_update (\<lambda>_. v)) read_int,
      field ''rate_limit_rps'' cf_RateLimitRPS (\<lambda>v. cf_RateLimitRPS_update (\<lambda>_. v)) read_float,
      field ''rate_limit_burst'' cf_RateLimitBurst (\<lambda>v. cf_RateLimitBurst_update (\<lambda>_. v)) read_int,
      field ''per_attempt_timeout_sec'' cf_PerAttemptTimeoutSec (\<lambda>v. cf_PerAttemptTimeoutSec_update (\<lambda>_. v)) read_int,
      field ''retry_backoff_ms'' cf_RetryBackoffMs (\<lambda>v. cf_RetryBackoffMs_update (\<lambda>_. v)) read_int,
      field ''retry_backoff_max_ms'' cf_RetryBackoffMaxMs (\<lambda>v. cf_RetryBackoffMaxMs_update (\<lambda>_. v)) read_int,
      field ''access_log_path'' cf_AccessLogPath (\<lambda>v. cf_AccessLogPath_update (\<lambda>_. v)) read_string,
      field ''dashboard_auth'' cf_DashboardAuth (\<lambda>v. cf_DashboardAuth_update (\<lambda>_. v)) (read_struct auth_fields),
      field ''tls'' cf_TLS (\<lambda>v. cf_TLS_update (\<lambda>_. v)) (read_struct tls_fields),
      field ''cors'' cf_CORS (\<lambda>v. cf_CORS_update (\<lambda>_. v)) (read_struct config_cors_fields),
      field ''hot_reload'' cf_HotReload (\<lambda>v. cf_HotReload_update (\<lambda>_. v)) read_bool,
      field ''middlewares'' cf_Middlewares (\<lambda>v. cf_Middlewares_update (\<lambda>_. v)) (read_map zero_middleware (read_struct middleware_fields)),
      field ''timeouts'' cf_Timeouts (\<lambda>v. cf_Timeouts_update (\<lambda>_. v)) (read_struct timeouts_fields),
      field ''entrypoints'' cf_EntryPoints (\<lambda>v. cf_EntryPoints_update (\<lambda>_. v)) (read_map zero_entrypoint (read_struct entrypoint_fields)),
      field ''routers'' cf_Routers (\<lambda>v. cf_Routers_update (\<lambda>_. v)) (read_map zero_router (read_struct router_fields)),
      field ''services'' cf_Services (\<lambda>v. cf_Services_update (\<lambda>_. v)) (read_map zero_service (read_struct service_fields))]"

definition config_json :: "Config \<Rightarrow> json" where
  "config_json c =
     JObj (member ''listen_port'' (JInt (cf_ListenPort c)) @
       member ''dashboard_port'' (JInt (cf_DashboardPort c)) @
       member ''servers'' (json_list server_json (cf_Servers c)) @
       member ''algorithm'' (JStr (cf_Algorithm c)) @
       member ''health_interval_sec'' (JInt (cf_HealthInterval c)) @
       member ''breaker_threshold'' (JInt (cf_BreakerThreshold c)) @
       member ''breaker_timeout_sec'' (JInt (cf_BreakerTimeoutSec c)) @
       member ''metrics_interval_sec'' (JInt (cf_MetricsIntervalSec c)) @
       member ''max_retries'' (JInt (cf_MaxRetries c)) @
       member ''shutdown_timeout_sec'' (JInt (cf_ShutdownTimeoutSec c)) @
       member ''rate_limit_rps'' (json_float (cf_RateLimitRPS c)) @
       member ''rate_limit_burst'' (JInt (cf_RateLimitBurst c)) @
       member ''per_attempt_timeout_sec'' (JInt (cf_PerAttemptTimeoutSec c)) @
       optional ''retry_backoff_ms'' (cf_RetryBackoffMs c = 0) (JInt (cf_RetryBackoffMs c)) @
       optional ''retry_backoff_max_ms'' (cf_RetryBackoffMaxMs c = 0) (JInt (cf_RetryBackoffMaxMs c)) @
       optional ''access_log_path'' (cf_AccessLogPath c = []) (JStr (cf_AccessLogPath c)) @
       member ''dashboard_auth'' (auth_json (cf_DashboardAuth c)) @
       member ''tls'' (tls_json (cf_TLS c)) @
       member ''cors'' (cors_json (cf_CORS c)) @
       optional ''hot_reload'' (\<not> cf_HotReload c) (JBool (cf_HotReload c)) @
       optional ''middlewares'' (cf_Middlewares c = Map.empty) (json_map (json_pointer middleware_json) (cf_Middlewares c)) @
       member ''timeouts'' (timeouts_json (cf_Timeouts c)) @
       optional ''entrypoints'' (cf_EntryPoints c = Map.empty) (json_map (json_pointer entrypoint_json) (cf_EntryPoints c)) @
       optional ''routers'' (cf_Routers c = Map.empty) (json_map (json_pointer router_json) (cf_Routers c)) @
       optional ''services'' (cf_Services c = Map.empty) (json_map (json_pointer service_json) (cf_Services c)))"

section \<open>The file\<close>

text \<open>\<open>file\<close> is the content of the file, or the error of reading or of its syntax.\<close>

definition decode_config :: "json result \<Rightarrow> Config result" where
  "decode_config file = (case file of Inl e \<Rightarrow> Inl e | Inr j \<Rightarrow> read_struct config_fields j zero_config)"

end
