(* ===== verification/Dashboard.thy ===== *)
theory Dashboard
  imports Confine ConfigJson
begin

text \<open>
  The dashboard's hub, \<^verbatim>\<open>src/internal/dashboard/hub.go\<close>: the snapshot provider that a reload exchanges, the history of snapshots, the WebSocket clients with the
  broadcast of every second, and the endpoints of the API.
\<close>

section \<open>What is not in the repository\<close>

text \<open>
  The text of floating-point numbers, \<^verbatim>\<open>Upgrade\<close> and \<^verbatim>\<open>WriteMessage\<close> of \<^verbatim>\<open>github.com/gorilla/websocket\<close> (a client that is told to go away gets its answer from
  the first, and the second may fail), and the serving of files and redirects by \<^verbatim>\<open>net/http\<close>. Every call can see other ones.
\<close>

record 'l Web =
  we_float :: "f64 \<Rightarrow> string option"
  we_Upgrade :: "'l World \<Rightarrow> Writer \<Rightarrow> Request \<Rightarrow> (Writer \<times> nat) + (Writer \<times> Request) result"
  we_delivers :: "nat \<Rightarrow> bool"
  we_ServeFile :: "string \<Rightarrow> 'l Handler"
  we_Redirect :: "string \<Rightarrow> 'l Handler"

section \<open>Snapshots as JSON\<close>

definition event_json :: "CircuitEvent \<Rightarrow> json" where
  "event_json e = JObj (member ''server_name'' (JStr (ev_ServerName e)) @ member ''server_url'' (JStr (ev_ServerURL e)) @
     member ''old_state'' (JStr (ev_OldState e)) @ member ''new_state'' (JStr (ev_NewState e)) @ member ''timestamp'' (JStr (ev_Timestamp e)))"

definition stats_json :: "ServerStats \<Rightarrow> json" where
  "stats_json s = JObj (member ''name'' (JStr (ss_Name s)) @ member ''url'' (JStr (ss_URL s)) @ member ''weight'' (JInt (ss_Weight s)) @
     member ''is_healthy'' (JBool (ss_IsHealthy s)) @ member ''avg_latency_ms'' (json_float (ss_AvgLatencyMs s)) @
     member ''p95_latency_ms'' (json_float (ss_P95LatencyMs s)) @ member ''active_connections'' (JInt (ss_ActiveConnections s)) @
     member ''total_requests'' (JInt (ss_TotalRequests s)) @ member ''success_count'' (JInt (ss_SuccessCount s)) @
     member ''failure_count'' (JInt (ss_FailureCount s)) @ member ''retry_count'' (JInt (ss_RetryCount s)) @
     member ''circuit_state'' (JStr (ss_CircuitState s)) @ member ''high_priority_count'' (JInt (ss_HighPriorityCount s)) @
     member ''low_priority_count'' (JInt (ss_LowPriorityCount s)) @ member ''last_checked'' (JStr (ss_LastChecked s)))"

definition snapshot_json :: "DashboardSnapshot \<Rightarrow> json" where
  "snapshot_json d = JObj (member ''servers'' (json_map stats_json (ds_Servers d)) @ member ''global_rps'' (json_float (ds_GlobalRPS d)) @
     member ''total_requests'' (JInt (ds_TotalRequests d)) @ member ''success_rate'' (json_float (ds_SuccessRate d)) @
     member ''healthy_count'' (JInt (ds_HealthyCount d)) @ member ''total_count'' (JInt (ds_TotalCount d)) @
     member ''algorithm'' (JStr (ds_Algorithm d)) @ member ''circuit_events'' (json_list event_json (ds_CircuitEvents d)))"

section \<open>The hub\<close>

definition historySize :: nat where
  "historySize = 120"

definition NewHub :: "nat \<Rightarrow> string \<Rightarrow> Hub" where
  "NewHub provider htmlPath = \<lparr>hu_provider = provider, hu_clients = [], hu_htmlPath = htmlPath, hu_history = [], hu_wire = []\<rparr>"

text \<open>\<^verbatim>\<open>DashboardSnap()\<close> of the manager at an address; it takes the clock and the orders of its maps from the environment.\<close>

definition snap_of :: "nat \<Rightarrow> 'l World \<Rightarrow> DashboardSnapshot \<times> 'l World" where
  "snap_of a w =
     (let (ks, w1) = draw_order w; (now, w2) = draw_clocks w1; (ord, w3) = draw_orders w2; (us, w4) = draw_order w3;
          (m, snap) = Manager_DashboardSnap ks now ord us (wo_mgrs w4 ! a)
      in (snap, w4\<lparr>wo_mgrs := (wo_mgrs w4)[a := m]\<rparr>))"

text \<open>\<^verbatim>\<open>json.NewEncoder(w).Encode(v)\<close>, with whether it succeeded.\<close>

definition encode_to :: "'l Web \<Rightarrow> json \<Rightarrow> Writer \<Rightarrow> Writer \<times> fault option" where
  "encode_to web j rw =
     (case json_text (we_float web) j of
        Inl err \<Rightarrow> (rw, Some err)
      | Inr t \<Rightarrow> (fst (Write (t @ [CHR 0x0A]) rw), None))"

definition api_headers :: "Writer \<Rightarrow> Writer" where
  "api_headers = on_Header (\<lambda>h. Header_Set ''Access-Control-Allow-Origin'' ''*'' (Header_Set ''Content-Type'' ''application/json'' h))"

definition hub_ServeHTTP :: "'l Web \<Rightarrow> 'l Handler" where
  "hub_ServeHTTP web w rw r = we_ServeFile web (hu_htmlPath (wo_hub w)) w rw r"

definition HandleAPIMetrics :: "'l Web \<Rightarrow> 'l Handler" where
  "HandleAPIMetrics web w rw r =
     (let (snap, w1) = snap_of (hu_provider (wo_hub w)) w
      in reply (Inr (fst (encode_to web (snapshot_json snap) (api_headers rw)))) w1 r)"

definition HandleAPIHistory :: "'l Web \<Rightarrow> 'l Handler" where
  "HandleAPIHistory web w rw r =
     reply (Inr (fst (encode_to web (JArr (map snapshot_json (hu_history (wo_hub w)))) (api_headers rw)))) w r"

definition HandleAPIConfig :: "'l Web \<Rightarrow> 'l Handler" where
  "HandleAPIConfig web w rw r =
     (let cfg = GetConfig (wo_mgrs w ! hu_provider (wo_hub w))
      in reply (Inr (fst (encode_to web (config_json cfg) (api_headers rw)))) w r)"

text \<open>The keys of a \<^verbatim>\<open>map[string]interface{}\<close> are written in their order.\<close>

definition health_body :: "string \<Rightarrow> int \<Rightarrow> int \<Rightarrow> json" where
  "health_body status healthyCount totalCount =
     JObj [(''healthy_count'', JInt healthyCount), (''status'', JStr status), (''total_count'', JInt totalCount)]"

definition HandleAPIHealth :: "'l Web \<Rightarrow> 'l Handler" where
  "HandleAPIHealth web w rw r =
     (let (snap, w1) = snap_of (hu_provider (wo_hub w)) w; rw1 = api_headers rw
      in if ds_HealthyCount snap > 0
         then case WriteHeader 200 rw1 of
                Inl e \<Rightarrow> (w1, Inl e)
              | Inr rw2 \<Rightarrow>
                  reply (Inr (fst (encode_to web (health_body ''healthy'' (ds_HealthyCount snap) (ds_TotalCount snap)) rw2))) w1 r
         else case WriteHeader 503 rw1 of
                Inl e \<Rightarrow> (w1, Inl e)
              | Inr rw2 \<Rightarrow> reply (Inr (fst (encode_to web (health_body ''unhealthy'' 0 (ds_TotalCount snap)) rw2))) w1 r)"

section \<open>WebSocket clients\<close>

definition on_hub :: "(Hub \<Rightarrow> Hub) \<Rightarrow> 'l World \<Rightarrow> 'l World" where
  "on_hub f w = w\<lparr>wo_hub := f (wo_hub w)\<rparr>"

definition HandleWS :: "'l Web \<Rightarrow> 'l Handler" where
  "HandleWS web w rw r =
     (case we_Upgrade web w rw r of
        Inr ans \<Rightarrow> (w, ans)
      | Inl (rw1, conn) \<Rightarrow>
          (let hist = hu_history (wo_hub w);
               w1 = (if length hist > 0
                     then case json_text (we_float web) (JObj [(''data'', JArr (map snapshot_json hist)), (''type'', JStr ''history'')]) of
                            Inl err \<Rightarrow> w
                          | Inr t \<Rightarrow> if we_delivers web conn then on_hub (\<lambda>h. h\<lparr>hu_wire := hu_wire h @ [WsText conn t]\<rparr>) w else w
                     else w)
           in (on_hub (\<lambda>h. h\<lparr>hu_clients := List.insert conn (hu_clients h)\<rparr>) w1, Inr (rw1, r))))"

text \<open>The goroutine of a connection, when its read fails.\<close>

definition ws_disconnect :: "nat \<Rightarrow> 'l World \<Rightarrow> 'l World" where
  "ws_disconnect conn = on_hub (\<lambda>h. h\<lparr>hu_clients := removeAll conn (hu_clients h), hu_wire := hu_wire h @ [WsClose conn]\<rparr>)"

text \<open>The loop of the broadcast over the clients, in the order \<open>conns\<close>.\<close>

fun send_all :: "'l Web \<Rightarrow> string \<Rightarrow> nat list \<Rightarrow> Hub \<Rightarrow> Hub" where
  "send_all web t [] h = h"
| "send_all web t (conn # conns) h =
     send_all web t conns
       (if we_delivers web conn then h\<lparr>hu_wire := hu_wire h @ [WsText conn t]\<rparr>
        else h\<lparr>hu_clients := removeAll conn (hu_clients h), hu_wire := hu_wire h @ [WsClose conn]\<rparr>)"

definition store_snapshot :: "DashboardSnapshot \<Rightarrow> Hub \<Rightarrow> Hub" where
  "store_snapshot snap h =
     (let hist = hu_history h @ [snap]
      in h\<lparr>hu_history := (if length hist > historySize then drop (length hist - historySize) hist else hist)\<rparr>)"

text \<open>One tick of \<^verbatim>\<open>StartBroadcast\<close>; the clients are visited in the order \<open>conns\<close>.\<close>

definition broadcast_tick :: "'l Web \<Rightarrow> nat list \<Rightarrow> 'l World \<Rightarrow> 'l World" where
  "broadcast_tick web conns w =
     (let (snap, w1) = snap_of (hu_provider (wo_hub w)) w;
          w2 = on_hub (store_snapshot snap) w1
      in case json_text (we_float web) (JObj [(''data'', snapshot_json snap), (''type'', JStr ''tick'')]) of
           Inl err \<Rightarrow> w2
         | Inr t \<Rightarrow> on_hub (send_all web t conns) w2)"

end
