(* ===== verification/Certs.thy ===== *)
theory Certs
  imports Gate NetIP
begin

text \<open>
  The self-signed certificate, \<^verbatim>\<open>src/internal/tlsutil/certs.go\<close>: what it is made of, which files it is written to and what is left of them after an error. The
  cryptography (\<^verbatim>\<open>crypto/ecdsa\<close>, \<^verbatim>\<open>crypto/rand\<close>, \<^verbatim>\<open>crypto/x509\<close>) and the success of file operations are arguments.
\<close>

section \<open>Files in PEM\<close>

text \<open>The content of the files that can be seen, by path.\<close>

type_synonym disk = "string \<rightharpoonup> string"

text \<open>Lines of 64 characters, as \<^verbatim>\<open>pem.Encode\<close> breaks the Base64 text.\<close>

function pem_lines :: "string \<Rightarrow> string" where
  "pem_lines s = (if s = [] then [] else take 64 s @ [CHR 0x0A] @ pem_lines (drop 64 s))"
  by pat_completeness auto
termination
  by (relation "measure length") auto

declare pem_lines.simps [simp del]

definition pem_header :: "string \<Rightarrow> string \<Rightarrow> string" where
  "pem_header word kind = ''-----'' @ word @ '' '' @ kind @ ''-----'' @ [CHR 0x0A]"

definition pem_text :: "string \<Rightarrow> string \<Rightarrow> string" where
  "pem_text kind bytes = pem_header ''BEGIN'' kind @ pem_lines (b64_encode bytes) @ pem_header ''END'' kind"

section \<open>The certificate\<close>

text \<open>The fields of \<^verbatim>\<open>x509.Certificate\<close> that the template sets; the key usages are the bits and numbers of \<^verbatim>\<open>crypto/x509\<close>.\<close>

record Certificate =
  xc_SerialNumber :: int
  xc_Organization :: "string list"
  xc_CommonName :: string
  xc_NotBefore :: time
  xc_NotAfter :: time
  xc_KeyUsage :: int
  xc_ExtKeyUsage :: "int list"
  xc_BasicConstraintsValid :: bool
  xc_DNSNames :: "string list"
  xc_IPAddresses :: "IP option list"

text \<open>
  What the code calls. \<open>cy_Int\<close> gets the bound of the serial number, \<open>cy_clock\<close> is the clock at its two readings, \<open>cy_Create\<close> and \<open>cy_Write\<close> have the errors of \<^verbatim>\<open>os.Create\<close>
  and of writing a text, the latter with the number of bytes that were written before.
\<close>

record 'k Crypto =
  cy_GenerateKey :: "string + 'k"
  cy_Int :: "int \<Rightarrow> string + int"
  cy_clock :: "time \<times> time"
  cy_CreateCertificate :: "Certificate \<Rightarrow> Certificate \<Rightarrow> 'k \<Rightarrow> string + string"
  cy_MarshalECPrivateKey :: "'k \<Rightarrow> string + string"
  cy_Create :: "string \<Rightarrow> string option"
  cy_Write :: "string \<Rightarrow> string \<Rightarrow> (nat \<times> string) option"

definition cert_template :: "int \<Rightarrow> time \<times> time \<Rightarrow> Certificate" where
  "cert_template serialNumber clock =
     \<lparr>xc_SerialNumber = serialNumber, xc_Organization = [''Intelligent Load Balancer''], xc_CommonName = ''localhost'',
      xc_NotBefore = fst clock, xc_NotAfter = snd clock + 365 * 24 * 3600 * 1000000000,
      xc_KeyUsage = 1 + 4, xc_ExtKeyUsage = [1], xc_BasicConstraintsValid = True,
      xc_DNSNames = [''localhost'', ''loadbalancer''], xc_IPAddresses = [ParseIP ''127.0.0.1'', ParseIP ''::1'']\<rparr>"

definition fileExists :: "disk \<Rightarrow> string \<Rightarrow> bool" where
  "fileExists disk path \<longleftrightarrow> disk path \<noteq> None"

text \<open>\<^verbatim>\<open>os.Create\<close> empties a file that is there.\<close>

definition create_file :: "'k Crypto \<Rightarrow> string \<Rightarrow> disk \<Rightarrow> disk \<times> string option" where
  "create_file cy path disk = (case cy_Create cy path of Some err \<Rightarrow> (disk, Some err) | None \<Rightarrow> (disk(path \<mapsto> []), None))"

definition write_pem :: "'k Crypto \<Rightarrow> string \<Rightarrow> string \<Rightarrow> string \<Rightarrow> disk \<Rightarrow> disk \<times> string option" where
  "write_pem cy path kind bytes disk =
     (let text = pem_text kind bytes; old = (case disk path of None \<Rightarrow> [] | Some s \<Rightarrow> s)
      in case cy_Write cy path text of
           Some (n, err) \<Rightarrow> (disk(path \<mapsto> old @ take n text), Some err)
         | None \<Rightarrow> (disk(path \<mapsto> old @ text), None))"

definition GenerateSelfSigned :: "'k Crypto \<Rightarrow> string \<Rightarrow> string \<Rightarrow> disk \<Rightarrow> disk \<times> string option" where
  "GenerateSelfSigned cy certPath keyPath disk =
     (if fileExists disk certPath \<and> fileExists disk keyPath then (disk, None)
      else case cy_GenerateKey cy of
        Inl err \<Rightarrow> (disk, Some (''failed to generate private key: '' @ err))
      | Inr privateKey \<Rightarrow>
     (case cy_Int cy (2 ^ 128) of
        Inl err \<Rightarrow> (disk, Some (''failed to generate serial number: '' @ err))
      | Inr serialNumber \<Rightarrow>
     (let template = cert_template serialNumber (cy_clock cy)
      in case cy_CreateCertificate cy template template privateKey of
        Inl err \<Rightarrow> (disk, Some (''failed to create certificate: '' @ err))
      | Inr certDER \<Rightarrow>
     (case create_file cy certPath disk of
        (disk1, Some err) \<Rightarrow> (disk1, Some (''failed to create cert file: '' @ err))
      | (disk1, None) \<Rightarrow>
     (case write_pem cy certPath ''CERTIFICATE'' certDER disk1 of
        (disk2, Some err) \<Rightarrow> (disk2, Some (''failed to write cert PEM: '' @ err))
      | (disk2, None) \<Rightarrow>
     (case create_file cy keyPath disk2 of
        (disk3, Some err) \<Rightarrow> (disk3, Some (''failed to create key file: '' @ err))
      | (disk3, None) \<Rightarrow>
     (case cy_MarshalECPrivateKey cy privateKey of
        Inl err \<Rightarrow> (disk3, Some (''failed to marshal private key: '' @ err))
      | Inr keyDER \<Rightarrow>
     (case write_pem cy keyPath ''EC PRIVATE KEY'' keyDER disk3 of
        (disk4, Some err) \<Rightarrow> (disk4, Some (''failed to write key PEM: '' @ err))
      | (disk4, None) \<Rightarrow> (disk4, None)))))))))"

section \<open>What a PEM file holds\<close>

lemma pem_lines_filter: "list_all (\<lambda>c. byte c \<noteq> 10 \<and> byte c \<noteq> 13) s \<Longrightarrow> filter (\<lambda>c. byte c \<noteq> 10 \<and> byte c \<noteq> 13) (pem_lines s) = s"
proof (induction s rule: pem_lines.induct)
  case (1 s)
  show ?case
  proof (cases "s = []")
    case False
    have s: "list_all (\<lambda>c. byte c \<noteq> 10 \<and> byte c \<noteq> 13) (take 64 s)" "list_all (\<lambda>c. byte c \<noteq> 10 \<and> byte c \<noteq> 13) (drop 64 s)"
      using 1(2) by (metis append_take_drop_id list_all_append)+
    have "filter (\<lambda>c. byte c \<noteq> 10 \<and> byte c \<noteq> 13) (take 64 s) = take 64 s" using s(1) by (simp add: list_all_iff)
    with 1(1) [OF False s(2)] show ?thesis using False by (subst pem_lines.simps) (simp add: byte_def)
  qed (simp add: pem_lines.simps)
qed

lemma pem_lines_decode: "b64_decode (pem_lines (b64_encode bytes)) = Some bytes"
  using pem_lines_filter [OF b64_encode_plain] by (simp add: b64_decode_def b64_quanta_encode)

text \<open>The bytes between the two header lines.\<close>

definition holds_pem :: "disk \<Rightarrow> string \<Rightarrow> string \<Rightarrow> string \<Rightarrow> bool" where
  "holds_pem disk path kind bytes \<longleftrightarrow>
     (\<exists>body. disk path = Some (pem_header ''BEGIN'' kind @ body @ pem_header ''END'' kind) \<and> b64_decode body = Some bytes)"

lemma holds_pem_text: "disk path = Some (pem_text kind bytes) \<Longrightarrow> holds_pem disk path kind bytes"
  unfolding holds_pem_def pem_text_def using pem_lines_decode by blast

lemma write_pem_done:
  "write_pem cy path kind bytes disk = (disk1, None) \<Longrightarrow> disk path = Some [] \<Longrightarrow> disk1 = disk(path \<mapsto> pem_text kind bytes)"
  by (auto simp: write_pem_def Let_def split: option.splits)

lemma create_file_done: "create_file cy path disk = (disk1, None) \<Longrightarrow> disk1 = disk(path \<mapsto> [])"
  by (simp add: create_file_def split: option.splits)

lemma files_confined:
  "p \<noteq> path \<Longrightarrow> fst (create_file cy path disk) p = disk p" "p \<noteq> path \<Longrightarrow> fst (write_pem cy path kind bytes disk) p = disk p"
  by (simp_all add: create_file_def write_pem_def Let_def split: option.splits)

lemma generated_confined:
  assumes "p \<noteq> certPath" and "p \<noteq> keyPath"
  shows "fst (GenerateSelfSigned cy certPath keyPath disk) p = disk p"
  unfolding GenerateSelfSigned_def Let_def
  by (auto split: sum.splits prod.splits option.splits dest!: arg_cong [where f=fst] simp: files_confined assms)

text \<open>What a run without error has done.\<close>

lemma generated_files:
  assumes "GenerateSelfSigned cy certPath keyPath disk = (disk1, None)" and "\<not> (fileExists disk certPath \<and> fileExists disk keyPath)"
  obtains privateKey serialNumber certDER keyDER where "cy_GenerateKey cy = Inr privateKey" "cy_Int cy (2 ^ 128) = Inr serialNumber"
    "cy_CreateCertificate cy (cert_template serialNumber (cy_clock cy)) (cert_template serialNumber (cy_clock cy)) privateKey = Inr certDER"
    "cy_MarshalECPrivateKey cy privateKey = Inr keyDER"
    "disk1 = disk(certPath \<mapsto> pem_text ''CERTIFICATE'' certDER, keyPath \<mapsto> pem_text ''EC PRIVATE KEY'' keyDER)"
proof -
  obtain k n where k: "cy_GenerateKey cy = Inr k" "cy_Int cy (2 ^ 128) = Inr n"
    using assms by (auto simp: GenerateSelfSigned_def split: sum.splits)
  let ?t = "cert_template n (cy_clock cy)"
  obtain c where c: "cy_CreateCertificate cy ?t ?t k = Inr c"
    using assms k by (auto simp: GenerateSelfSigned_def Let_def split: sum.splits)
  obtain d1 where d1: "create_file cy certPath disk = (d1, None)"
    using assms k c by (auto simp: GenerateSelfSigned_def Let_def split: prod.splits option.splits)
  obtain d2 where d2: "write_pem cy certPath ''CERTIFICATE'' c d1 = (d2, None)"
    using assms k c d1 by (auto simp: GenerateSelfSigned_def Let_def split: prod.splits option.splits)
  obtain d3 where d3: "create_file cy keyPath d2 = (d3, None)"
    using assms k c d1 d2 by (auto simp: GenerateSelfSigned_def Let_def split: prod.splits option.splits)
  obtain e where e: "cy_MarshalECPrivateKey cy k = Inr e"
    using assms k c d1 d2 d3 by (auto simp: GenerateSelfSigned_def Let_def split: sum.splits)
  have d4: "write_pem cy keyPath ''EC PRIVATE KEY'' e d3 = (disk1, None)"
    using assms k c d1 d2 d3 e by (auto simp: GenerateSelfSigned_def Let_def split: prod.splits option.splits)
  note f1 = create_file_done [OF d1] and f3 = create_file_done [OF d3]
  have f2: "d2 = d1(certPath \<mapsto> pem_text ''CERTIFICATE'' c)" using write_pem_done [OF d2] f1 by simp
  have "disk1 = d3(keyPath \<mapsto> pem_text ''EC PRIVATE KEY'' e)" using write_pem_done [OF d4] f3 by simp
  with f1 f2 f3 have "disk1 = disk(certPath \<mapsto> pem_text ''CERTIFICATE'' c, keyPath \<mapsto> pem_text ''EC PRIVATE KEY'' e)" by (simp add: fun_eq_iff)
  with k c e that show thesis by blast
qed

lemma generated_exist:
  assumes "GenerateSelfSigned cy certPath keyPath disk = (disk1, None)"
  shows "fileExists disk1 certPath \<and> fileExists disk1 keyPath"
proof (cases "fileExists disk certPath \<and> fileExists disk keyPath")
  case True
  then show ?thesis using assms by (simp add: GenerateSelfSigned_def)
next
  case False
  show ?thesis by (rule generated_files [OF assms False]) (simp add: fileExists_def)
qed

text \<open>
  C38. A certificate comes with its key. Generating a certificate touches no other file, and none at all when both files are there. If it succeeds and makes new files at different paths, the one has the
  certificate that was signed with a new key and the other has that key, both as PEM that decodes to them; a later call then finds both and does nothing.
\<close>

theorem certificate_with_key:
  assumes "GenerateSelfSigned cy certPath keyPath disk = (disk1, err)"
  shows "(\<forall>p. p \<noteq> certPath \<and> p \<noteq> keyPath \<longrightarrow> disk1 p = disk p)
    \<and> (fileExists disk certPath \<and> fileExists disk keyPath \<longrightarrow> disk1 = disk \<and> err = None)
    \<and> (err = None \<and> certPath \<noteq> keyPath \<and> \<not> (fileExists disk certPath \<and> fileExists disk keyPath) \<longrightarrow>
        (\<exists>k n cert key. cy_GenerateKey cy = Inr k \<and> cy_Int cy (2 ^ 128) = Inr n
           \<and> cy_CreateCertificate cy (cert_template n (cy_clock cy)) (cert_template n (cy_clock cy)) k = Inr cert
           \<and> cy_MarshalECPrivateKey cy k = Inr key
           \<and> holds_pem disk1 certPath ''CERTIFICATE'' cert \<and> holds_pem disk1 keyPath ''EC PRIVATE KEY'' key))
    \<and> (err = None \<longrightarrow> (\<forall>cy2. GenerateSelfSigned cy2 certPath keyPath disk1 = (disk1, None)))"
proof (intro conjI allI impI)
  show "disk1 p = disk p" if "p \<noteq> certPath \<and> p \<noteq> keyPath" for p using generated_confined [of p certPath keyPath cy disk] that assms by simp
  show "disk1 = disk" "err = None" if "fileExists disk certPath \<and> fileExists disk keyPath" using assms that by (simp_all add: GenerateSelfSigned_def)
  show "\<exists>k n cert key. cy_GenerateKey cy = Inr k \<and> cy_Int cy (2 ^ 128) = Inr n
       \<and> cy_CreateCertificate cy (cert_template n (cy_clock cy)) (cert_template n (cy_clock cy)) k = Inr cert
       \<and> cy_MarshalECPrivateKey cy k = Inr key
       \<and> holds_pem disk1 certPath ''CERTIFICATE'' cert \<and> holds_pem disk1 keyPath ''EC PRIVATE KEY'' key"
    if "err = None \<and> certPath \<noteq> keyPath \<and> \<not> (fileExists disk certPath \<and> fileExists disk keyPath)"
  proof -
    from that assms have g: "GenerateSelfSigned cy certPath keyPath disk = (disk1, None)" "\<not> (fileExists disk certPath \<and> fileExists disk keyPath)" by simp_all
    obtain k n cert key where f: "cy_GenerateKey cy = Inr k" "cy_Int cy (2 ^ 128) = Inr n"
      "cy_CreateCertificate cy (cert_template n (cy_clock cy)) (cert_template n (cy_clock cy)) k = Inr cert"
      "cy_MarshalECPrivateKey cy k = Inr key"
      and d: "disk1 = disk(certPath \<mapsto> pem_text ''CERTIFICATE'' cert, keyPath \<mapsto> pem_text ''EC PRIVATE KEY'' key)"
      by (rule generated_files [OF g])
    have "disk1 certPath = Some (pem_text ''CERTIFICATE'' cert)" "disk1 keyPath = Some (pem_text ''EC PRIVATE KEY'' key)" using that by (simp_all add: d)
    with f show ?thesis by (blast intro: holds_pem_text)
  qed
  show "GenerateSelfSigned cy2 certPath keyPath disk1 = (disk1, None)" if "err = None" for cy2
    using generated_exist [of cy certPath keyPath disk disk1] assms that by (simp add: GenerateSelfSigned_def)
qed

definition demo_crypto :: "nat Crypto" where
  "demo_crypto = \<lparr>cy_GenerateKey = Inr 7, cy_Int = (\<lambda>n. Inr 5), cy_clock = (0, 1), cy_CreateCertificate = (\<lambda>t p k. Inr ''cert''),
     cy_MarshalECPrivateKey = (\<lambda>k. Inr ''key''), cy_Create = (\<lambda>p. None), cy_Write = (\<lambda>p t. None)\<rparr>"

lemma demo_generated: "\<exists>disk1. GenerateSelfSigned demo_crypto certPath keyPath disk = (disk1, None)"
  by (cases "fileExists disk certPath \<and> fileExists disk keyPath") (simp_all add: GenerateSelfSigned_def demo_crypto_def create_file_def write_pem_def Let_def)

theorem certificate_with_key_witness:
  "\<exists>disk1. GenerateSelfSigned demo_crypto ''c'' ''k'' Map.empty = (disk1, None)
     \<and> holds_pem disk1 ''c'' ''CERTIFICATE'' ''cert'' \<and> holds_pem disk1 ''k'' ''EC PRIVATE KEY'' ''key''"
proof -
  obtain disk1 where g: "GenerateSelfSigned demo_crypto ''c'' ''k'' Map.empty = (disk1, None)"
    using demo_generated by blast
  from certificate_with_key [OF g] g show ?thesis by (force simp: fileExists_def demo_crypto_def)
qed

end
