(* ===== verification/Terminal.thy ===== *)
theory Terminal
  imports Metrics JsonText
begin

text \<open>
  The report on the terminal, \<^verbatim>\<open>src/internal/metrics/reporter.go\<close>, as the text that it prints.
\<close>

section \<open>Formats\<close>

text \<open>The number of characters of a string in UTF-8; a byte that belongs to none counts as one.\<close>

function runes :: "string \<Rightarrow> nat" where
  "runes [] = 0"
| "runes (c # cs) = Suc (runes (case utf8_size (map byte (c # cs)) of None \<Rightarrow> cs | Some n \<Rightarrow> drop (n - 1) cs))"
  by pat_completeness auto
termination
  by (relation "measure length") (auto split: option.splits)

text \<open>\<^verbatim>\<open>%-ns\<close>: padded on the right.\<close>

definition pad :: "nat \<Rightarrow> string \<Rightarrow> string" where
  "pad n s = s @ replicate (n - runes s) CHR '' ''"

text \<open>\<^verbatim>\<open>%.1f\<close>: the exact value rounded to one digit, to even when it lies between two.\<close>

definition fixed1 :: "f64 \<Rightarrow> string" where
  "fixed1 x = (let n = round_even (\<bar>x\<bar> * 10) in (if x < 0 then ''-'' else []) @ Itoa (n div 10) @ ''.'' @ Itoa (n mod 10))"

section \<open>The report\<close>

text \<open>The horizontal line has 110 times the character U+2500.\<close>

definition report_rule :: string where
  "report_rule = concat (replicate 110 [CHR 0xE2, CHR 0x94, CHR 0x80]) @ [CHR 0x0A]"

definition report_columns :: string where
  "report_columns = ''  '' @ pad 12 ''Server'' @ '' '' @ pad 8 ''Health'' @ '' '' @ pad 9 ''Requests'' @ '' '' @ pad 9 ''Avg(ms)'' @ '' '' @ pad 9 ''P95(ms)'' @ '' ''
     @ pad 8 ''Active'' @ '' '' @ pad 8 ''Retries'' @ '' '' @ pad 10 ''Success%'' @ '' '' @ ''Circuit'' @ [CHR 0x0A]"

definition health_word :: "bool \<Rightarrow> string" where
  "health_word up = (if up then ''UP  '' @ [CHR 0xE2, CHR 0x9C, CHR 0x93] else ''DOWN '' @ [CHR 0xE2, CHR 0x9C, CHR 0x97])"

definition report_row :: "ServerStats \<Rightarrow> string" where
  "report_row s =
     (let health = health_word (ss_IsHealthy s);
          rate = (if ss_TotalRequests s > 0 then fmul (fdiv (f64_of_int (ss_SuccessCount s)) (f64_of_int (ss_TotalRequests s))) 100 else 0)
      in ''  '' @ pad 12 (ss_Name s) @ '' '' @ pad 8 health @ '' '' @ pad 9 (Itoa (ss_TotalRequests s)) @ '' '' @ pad 9 (fixed1 (ss_AvgLatencyMs s)) @ '' ''
         @ pad 9 (fixed1 (ss_P95LatencyMs s)) @ '' '' @ pad 8 (Itoa (ss_ActiveConnections s)) @ '' '' @ pad 8 (Itoa (ss_RetryCount s)) @ '' ''
         @ pad 10 (fixed1 rate) @ '' '' @ ss_CircuitState s @ [CHR 0x0A])"

definition report_totals :: "string \<Rightarrow> int \<Rightarrow> f64 \<Rightarrow> f64 \<Rightarrow> int \<Rightarrow> int \<Rightarrow> string" where
  "report_totals clock requests rate rps healthy servers =
     ''  TOTAL: '' @ Itoa requests @ '' requests  |  Success: '' @ fixed1 rate @ ''%  |  RPS: '' @ fixed1 rps @ ''  |  Healthy: '' @ Itoa healthy @ ''/''
       @ Itoa servers @ ''  |  '' @ clock @ [CHR 0x0A]"

fun report_rows :: "url list \<Rightarrow> stats_map \<Rightarrow> string" where
  "report_rows [] m = []"
| "report_rows (u # us) m = (case m u of None \<Rightarrow> report_rows us m | Some s \<Rightarrow> report_row s @ report_rows us m)"

text \<open>\<open>ks\<close> and \<open>us\<close> are the orders of the servers in the snapshot and in the table, \<open>clock\<close> the time of day as it is printed.\<close>

definition PrintReport :: "time \<Rightarrow> url list \<Rightarrow> url list \<Rightarrow> string \<Rightarrow> Collector \<Rightarrow> Collector \<times> string" where
  "PrintReport now ks us clock c =
     (let (c1, snap) = DashboardSnap now ks c
      in (c1, [CHR 0x0A] @ report_rule @ report_columns @ report_rule @ report_rows us (ds_Servers snap) @ report_rule
            @ report_totals clock (ds_TotalRequests snap) (ds_SuccessRate snap) (ds_GlobalRPS snap) (ds_HealthyCount snap) (ds_TotalCount snap) @ report_rule))"

section \<open>What the report says\<close>

lemma report_rows_concat: "set us \<subseteq> dom m \<Longrightarrow> report_rows us m = concat (map (\<lambda>u. report_row (the (m u))) us)"
  by (induction us) auto

lemma card_filter_distinct: "distinct us \<Longrightarrow> card {u \<in> set us. P u} = length (filter P us)"
  by (metis distinct_card distinct_filter set_filter)

text \<open>The digits that \<^verbatim>\<open>%.1f\<close> prints are nearest to the number.\<close>

lemma fixed1_nearest:
  assumes "0 \<le> x"
  shows "\<exists>n. fixed1 x = Itoa (n div 10) @ ''.'' @ Itoa (n mod 10) \<and> \<bar>of_int n / 10 - x\<bar> \<le> 1 / 20"
proof (intro exI conjI)
  show "fixed1 x = Itoa (round_even (x * 10) div 10) @ ''.'' @ Itoa (round_even (x * 10) mod 10)" using assms by (simp add: fixed1_def Let_def)
  have "of_int (round_even (x * 10)) / 10 - x \<le> 1 / 20" "x - of_int (round_even (x * 10)) / 10 \<le> 1 / 20" using round_even_bounds [of "x * 10"] by linarith+
  then show "\<bar>of_int (round_even (x * 10)) / 10 - x\<bar> \<le> 1 / 20" by linarith
qed

text \<open>
  The terminal report adds up. It has one row for every server, and the numbers in its last line are those of the rows: as many healthy servers as rows that say so, as
  many servers as rows, and the sum of their requests.
\<close>

theorem report_adds_up:
  assumes "range_order (co_servers c) ks" and "range_order (co_servers c) us" and "PrintReport now ks us clock c = (c1, out)"
  shows "\<exists>rps. let rows = map (\<lambda>u. the (co_servers c u)) us
     in out = [CHR 0x0A] @ report_rule @ report_columns @ report_rule @ concat (map report_row rows) @ report_rule
          @ report_totals clock (i64 (sum_list (map ss_TotalRequests rows)))
              (success_rate (i64 (sum_list (map ss_SuccessCount rows))) (i64 (sum_list (map ss_TotalRequests rows)))) rps
              (int (length (filter ss_IsHealthy rows))) (int (length rows)) @ report_rule
       \<and> length rows = card (dom (co_servers c)) \<and> co_servers c1 = co_servers c"
proof -
  let ?m = "co_servers c" and ?rows = "map (\<lambda>u. the (co_servers c u)) us"
  have us: "distinct us" "set us = dom ?m" and ks: "distinct ks" "set ks = dom ?m" using assms(1,2) by (simp_all add: range_order_def)
  have sums: "(\<Sum>u \<in> dom ?m. stat_of f ?m u) = sum_list (map f ?rows)" for f
  proof -
    have "(\<Sum>u \<in> dom ?m. stat_of f ?m u) = sum_list (map (stat_of f ?m) us)" using us by (simp add: sum_list_distinct_conv_sum_set)
    also have "\<dots> = sum_list (map f ?rows)" using us(2) by (auto simp: stat_of_def intro!: arg_cong [where f=sum_list])
    finally show ?thesis .
  qed
  have "{u. \<exists>s. ?m u = Some s \<and> ss_IsHealthy s} = {u \<in> set us. ss_IsHealthy (the (?m u))}" using us(2) by auto
  then have h: "(\<Sum>u \<in> dom ?m. stat_of healthy_flag ?m u) = int (length (filter ss_IsHealthy ?rows))"
    using sum_healthy_flag [of ?m] us card_filter_distinct [OF us(1), of "\<lambda>u. ss_IsHealthy (the (?m u))"]
    by (simp add: filter_map o_def) (metis List.finite_set)
  have n: "length ks = length us" using us ks by (metis distinct_card)
  have rr: "report_rows us ?m = concat (map report_row ?rows)" using report_rows_concat [of us ?m] us(2) by (simp add: o_def)
  have c1: "length ?rows = card (dom ?m)" using us by (metis distinct_card length_map)
  show ?thesis
    using assms(3) snap_totals_sum [OF assms(1)] sums h n rr c1
    by (auto simp: PrintReport_def DashboardSnap_def Let_def)
qed

theorem report_adds_up_witness:
  "\<exists>c1 out. PrintReport 5 [''b'', ''a''] [''a'', ''b''] ''12:00:00'' (New 0 [''a'', ''b''] [] []) = (c1, out) \<and> co_servers c1 ''a'' \<noteq> None"
proof -
  let ?c = "New 0 [''a'', ''b''] [] []"
  obtain c1 out where r: "PrintReport 5 [''b'', ''a''] [''a'', ''b''] ''12:00:00'' ?c = (c1, out)" by (metis surj_pair)
  have o: "range_order (co_servers ?c) [''b'', ''a'']" "range_order (co_servers ?c) [''a'', ''b'']" by (auto simp: range_order_def New_def split: if_splits)
  have "co_servers ?c ''a'' \<noteq> None" by (simp add: New_def)
  with report_adds_up [OF o r] r show ?thesis by (auto simp: Let_def)
qed

text \<open>
  The goroutine of \<^verbatim>\<open>StartReporter\<close> prints a report at every tick; the steps of the running program are those ticks. Its ticker panics when the interval, in nanoseconds and
  after wrap-around, is not positive.
\<close>

definition StartReporter :: "int \<Rightarrow> unit result" where
  "StartReporter intervalSec =
     (if seconds intervalSec \<le> 0 then Inl (GoPanic ''non-positive interval for NewTicker'') else Inr ())"

end
