(* ===== verification/Entry.thy ===== *)
theory Entry
  imports Dashboard Certs Terminal
begin

text \<open>
  The entrypoints, \<^verbatim>\<open>src/internal/entrypoint/entrypoint.go\<close>, and the start and end of the program, \<^verbatim>\<open>main\<close> in \<^verbatim>\<open>src/cmd/loadbalancer/main.go\<close>. The handler of
  an entrypoint refers to the application's state, which a reload changes; it is a function of that state, and of what
  package \<^verbatim>\<open>websocket\<close> and the file server do at the time of the call.
\<close>

section \<open>Entrypoints\<close>

type_synonym 'l AppHandler = "'l Web \<Rightarrow> 'l appState \<Rightarrow> 'l Handler"

record 'l Server =
  srv_Addr :: string
  srv_Handler :: "'l AppHandler"
  srv_ReadTimeout :: int
  srv_WriteTimeout :: int
  srv_IdleTimeout :: int

record 'l EntryPoint =
  ei_Name :: string
  ei_Config :: EntryPointConfig
  ei_server :: "'l Server"
  ei_handler :: "'l AppHandler"

definition entrypoint_New :: "string \<Rightarrow> EntryPointConfig \<Rightarrow> 'l AppHandler \<Rightarrow> 'l Middleware list \<Rightarrow> 'l EntryPoint" where
  "entrypoint_New name cfg handler middlewares =
     (let handler1 = (if length middlewares > 0 then (\<lambda>web s. Chain middlewares (handler web s)) else handler)
      in \<lparr>ei_Name = name, ei_Config = cfg,
          ei_server = \<lparr>srv_Addr = ep_Address cfg, srv_Handler = handler1, srv_ReadTimeout = 15 * 1000000000,
            srv_WriteTimeout = 30 * 1000000000, srv_IdleTimeout = 60 * 1000000000\<rparr>,
          ei_handler = handler1\<rparr>)"

text \<open>How an entrypoint listens, and what \<^verbatim>\<open>Start\<close> sends on its channel when the server has ended with \<open>err\<close>.\<close>

datatype listener = ListenAndServe string | ListenAndServeTLS string string string

definition start_listener :: "'l EntryPoint \<Rightarrow> listener" where
  "start_listener ep =
     (case ep_TLS (ei_Config ep) of
        Some tls \<Rightarrow>
          if ep_Protocol (ei_Config ep) = ''https''
          then ListenAndServeTLS (srv_Addr (ei_server ep)) (default_str ''server.crt'' (tl_CertFile tls)) (default_str ''server.key'' (tl_KeyFile tls))
          else ListenAndServe (srv_Addr (ei_server ep))
      | None \<Rightarrow> ListenAndServe (srv_Addr (ei_server ep)))"

datatype server_error = ErrServerClosed | ServerError string

definition ep_Start :: "'l EntryPoint \<Rightarrow> (listener \<Rightarrow> server_error option) \<Rightarrow> server_error option" where
  "ep_Start ep serve =
     (let err = serve (start_listener ep)
      in if err \<noteq> None \<and> err \<noteq> Some ErrServerClosed then err else None)"

definition ep_Shutdown :: "'l EntryPoint \<Rightarrow> ('l Server \<Rightarrow> string option) \<Rightarrow> string option" where
  "ep_Shutdown ep shutdown = (case shutdown (ei_server ep) of Some err \<Rightarrow> Some err | None \<Rightarrow> None)"

section \<open>The manager of entrypoints\<close>

text \<open>A channel is known by what it will deliver.\<close>

record 'l EpManager =
  em_entrypoints :: "string \<rightharpoonup> 'l EntryPoint"
  em_errChans :: "string \<rightharpoonup> server_error option"

definition ep_NewManager :: "'l EpManager" where
  "ep_NewManager = \<lparr>em_entrypoints = Map.empty, em_errChans = Map.empty\<rparr>"

definition ep_Register :: "'l EntryPoint \<Rightarrow> 'l EpManager \<Rightarrow> 'l EpManager" where
  "ep_Register ep m = m\<lparr>em_entrypoints := (em_entrypoints m)(ei_Name ep \<mapsto> ep)\<rparr>"

definition ep_Get :: "'l EpManager \<Rightarrow> string \<Rightarrow> 'l EntryPoint option" where
  "ep_Get m name = em_entrypoints m name"

fun ep_Names :: "string list \<Rightarrow> 'l EpManager \<Rightarrow> string list \<Rightarrow> string list" where
  "ep_Names [] m names = names"
| "ep_Names (k # ks) m names =
     (case em_entrypoints m k of None \<Rightarrow> ep_Names ks m names | Some ep \<Rightarrow> ep_Names ks m (names @ [k]))"

fun StartAll :: "string list \<Rightarrow> (listener \<Rightarrow> server_error option) \<Rightarrow> 'l EpManager \<Rightarrow> 'l EpManager" where
  "StartAll [] serve m = m"
| "StartAll (k # ks) serve m =
     (case em_entrypoints m k of
        None \<Rightarrow> StartAll ks serve m
      | Some ep \<Rightarrow> StartAll ks serve (m\<lparr>em_errChans := (em_errChans m)(k \<mapsto> ep_Start ep serve)\<rparr>))"

text \<open>The goroutines of \<^verbatim>\<open>ShutdownAll\<close> end in the order \<open>ks\<close>; each appends its error.\<close>

fun shutdown_errs :: "string list \<Rightarrow> ('l Server \<Rightarrow> string option) \<Rightarrow> 'l EpManager \<Rightarrow> string list \<Rightarrow> string list" where
  "shutdown_errs [] shutdown m errs = errs"
| "shutdown_errs (k # ks) shutdown m errs =
     (case em_entrypoints m k of
        None \<Rightarrow> shutdown_errs ks shutdown m errs
      | Some ep \<Rightarrow>
          (case ep_Shutdown ep shutdown of
             Some err \<Rightarrow> shutdown_errs ks shutdown m (errs @ [''entrypoint '' @ k @ '': '' @ err])
           | None \<Rightarrow> shutdown_errs ks shutdown m errs))"

definition ShutdownAll :: "string list \<Rightarrow> ('l Server \<Rightarrow> string option) \<Rightarrow> 'l EpManager \<Rightarrow> unit result" where
  "ShutdownAll ks shutdown m =
     (let errs = shutdown_errs ks shutdown m []
      in if length errs > 0 then Inl (GoError (''shutdown errors: ['' @ strings_Join errs '' '' @ '']'')) else Inr ())"

section \<open>The dashboard's entrypoint\<close>

text \<open>\<^verbatim>\<open>path.Clean\<close> of a rooted path, by its elements, and the form of it that \<^verbatim>\<open>http.ServeMux\<close> uses: a slash at the end stays.\<close>

fun split_path :: "string \<Rightarrow> string \<Rightarrow> string list" where
  "split_path [] cur = [cur]"
| "split_path (c # cs) cur = (if c = CHR ''/'' then cur # split_path cs [] else split_path cs (cur @ [c]))"

fun clean_elements :: "string list \<Rightarrow> string list \<Rightarrow> string list" where
  "clean_elements [] acc = acc"
| "clean_elements (e # es) acc =
     (if e = [] \<or> e = ''.'' then clean_elements es acc
      else if e = ''..'' then clean_elements es (butlast acc)
      else clean_elements es (acc @ [e]))"

definition path_Clean :: "string \<Rightarrow> string" where
  "path_Clean p = CHR ''/'' # strings_Join (clean_elements (split_path p []) []) ''/''"

definition cleanPath :: "string \<Rightarrow> string" where
  "cleanPath p =
     (if p = [] then ''/''
      else let p1 = (if hd p = CHR ''/'' then p else CHR ''/'' # p); np = path_Clean p1
           in if last p1 = CHR ''/'' \<and> np \<noteq> ''/'' then np @ ''/'' else np)"

definition stats_handler :: "'l AppHandler" where
  "stats_handler web s w rw r =
     (let rw1 = on_Header (Header_Set ''Content-Type'' ''application/json'') rw;
          (snap, w1) = snap_of (as_svcMgr s) w
      in case encode_to web (snapshot_json snap) rw1 of
           (rw2, None) \<Rightarrow> reply (Inr rw2) w1 r
         | (rw2, Some err) \<Rightarrow> reply (http_Error (error_text err) 500 rw2) w1 r)"

text \<open>
  The \<^verbatim>\<open>ServeMux\<close> of the dashboard, for request paths without escapes: a path that is not clean is redirected, an exact pattern wins, and
  the pattern \<^verbatim>\<open>/\<close> takes the rest.
\<close>

definition dashMux :: "'l AppHandler" where
  "dashMux web s w rw r =
     (if rq_RequestURI r = ''*'' then reply (WriteHeader 400 (on_Header (Header_Set ''Connection'' ''close'') rw)) w r
      else if rq_Method r \<noteq> ''CONNECT'' \<and> cleanPath (rq_Path r) \<noteq> rq_Path r then we_Redirect web (cleanPath (rq_Path r)) w rw r
      else if rq_Path r = ''/ws'' then HandleWS web w rw r
      else if rq_Path r = ''/api/metrics'' then HandleAPIMetrics web w rw r
      else if rq_Path r = ''/api/history'' then HandleAPIHistory web w rw r
      else if rq_Path r = ''/api/health'' then HandleAPIHealth web w rw r
      else if rq_Path r = ''/api/config'' then HandleAPIConfig web w rw r
      else if rq_Path r = ''/stats'' then stats_handler web s w rw r
      else hub_ServeHTTP web w rw r)"

section \<open>The program\<close>

text \<open>The loop of \<^verbatim>\<open>main\<close> over the configured entrypoints, in the order \<open>ks\<close>; \<^verbatim>\<open>log.Fatalf\<close> is an error.\<close>

fun entrypoints_start ::
  "'l Deps \<Rightarrow> string list \<Rightarrow> Config \<Rightarrow> 'l Builder \<times> 'l World \<Rightarrow> 'l EpManager \<Rightarrow> ('l Builder \<times> 'l World) \<times> 'l EpManager result" where
  "entrypoints_start d [] cfg b m = (b, Inr m)"
| "entrypoints_start d (k # ks) cfg b m =
     (case cf_EntryPoints cfg k of
        None \<Rightarrow> entrypoints_start d ks cfg b m
      | Some None \<Rightarrow> (b, Inl (GoPanic ''nil entrypoint config''))
      | Some (Some epCfg) \<Rightarrow>
          (case ResolveMiddlewares (ep_Middlewares epCfg) d b of
             (b1, Inl err) \<Rightarrow>
               (b1, Inl (wrap_error (''[MAIN] Failed to resolve middlewares for entrypoint '' @ dquoted k @ '': '') err))
           | (b1, Inr middlewares) \<Rightarrow>
               (let handler = (if k = ''dashboard'' then dashMux else (\<lambda>web s. app_ServeHTTP s));
                    ep = entrypoint_New k epCfg handler middlewares
                in entrypoints_start d ks cfg b1 (ep_Register ep m))))"

text \<open>The certificate that \<^verbatim>\<open>main\<close> has made when TLS is on.\<close>

definition ensure_certs :: "'k Crypto \<Rightarrow> TLSConfig \<Rightarrow> 'l World \<Rightarrow> 'l World \<times> unit result" where
  "ensure_certs cy tls w =
     (if tl_Enabled tls \<and> tl_AutoGenerate tls
      then case GenerateSelfSigned cy (default_str ''server.crt'' (tl_CertFile tls)) (default_str ''server.key'' (tl_KeyFile tls)) (wo_disk w) of
             (disk, Some err) \<Rightarrow> (w\<lparr>wo_disk := disk\<rparr>, Inl (GoError (''[MAIN] Failed to generate self-signed certificate: '' @ err)))
           | (disk, None) \<Rightarrow> (w\<lparr>wo_disk := disk\<rparr>, Inr ())
      else (w, Inr ()))"

text \<open>
  The terminal report of the first service that the loop of \<^verbatim>\<open>main\<close> meets. A panic of its goroutine ends the program; here it does so at once.
\<close>

definition start_reporter :: "string list \<Rightarrow> int \<Rightarrow> (string \<rightharpoonup> Instance) \<Rightarrow> unit result" where
  "start_reporter ks intervalSec instances =
     (case filter (\<lambda>k. instances k \<noteq> None) ks of [] \<Rightarrow> Inr () | k # others \<Rightarrow> StartReporter intervalSec)"

text \<open>
  \<^verbatim>\<open>main\<close> up to the start of the servers. \<open>opened\<close> tells whether the log file can be opened. The ticks of the broadcast and of the terminal report and the watcher belong to goroutines, which
  the steps of the running system stand for.
\<close>

definition main_start ::
  "'l Deps \<Rightarrow> 'l Handler slice_sorter \<Rightarrow> (listener \<Rightarrow> server_error option) \<Rightarrow> 'k Crypto \<Rightarrow> (string \<Rightarrow> bool)
     \<Rightarrow> Config result \<Rightarrow> 'l World \<Rightarrow> 'l World \<times> ('l appState \<times> 'l EpManager) result" where
  "main_start d srt serve cy opened decoded w =
     (case load_config decoded w of
        (w1, Inl err) \<Rightarrow> (w1, Inl (wrap_error ''[MAIN] Failed to load config: '' err))
      | (w1, Inr cfg) \<Rightarrow>
          (let (ok, w2) = InitFileLogger (opened (cf_AccessLogPath cfg)) w1
           in case initialize d srt cfg (\<lparr>as_cfg = cfg, as_svcMgr = 0, as_routerMgr = NewRouteManager\<rparr>, w2) of
                ((s, w3), Inl err) \<Rightarrow> (w3, Inl (wrap_error ''[MAIN] Failed to initialize state: '' err))
              | ((s, w3), Inr u) \<Rightarrow>
                  (let (is, w4) = draw_order (w3\<lparr>wo_hub := NewHub (as_svcMgr s) ''web/dashboard.html''\<rparr>)
                   in case start_reporter is (cf_MetricsIntervalSec cfg) (Instances (wo_mgrs w4 ! as_svcMgr s)) of
                        Inl p \<Rightarrow> (w4, Inl p)
                      | Inr u \<Rightarrow>
                          (case ensure_certs cy (cf_TLS cfg) w4 of
                             (w5, Inl err) \<Rightarrow> (w5, Inl err)
                           | (w5, Inr v) \<Rightarrow>
                               (let (ks, w6) = draw_order w5
                                in case entrypoints_start d ks cfg (NewBuilder cfg (Some (as_svcMgr s)), w6) ep_NewManager of
                                     ((b, w7), Inl err) \<Rightarrow> (w7, Inl err)
                                   | ((b, w7), Inr m) \<Rightarrow>
                                       (let (ss, w8) = draw_order w7 in (w8, Inr (s, StartAll ss serve m))))))))"

text \<open>The end of \<^verbatim>\<open>main\<close>: the errors of \<^verbatim>\<open>ShutdownAll\<close> are logged only, then the monitors are stopped.\<close>

definition main_shutdown :: "string list \<Rightarrow> ('l Server \<Rightarrow> string option) \<Rightarrow> 'l appState \<Rightarrow> 'l EpManager \<Rightarrow> 'l World \<Rightarrow> 'l World \<times> unit result" where
  "main_shutdown ks shutdown s m w = (let r = ShutdownAll ks shutdown m in stop_manager (as_svcMgr s) w)"

end
