(* ===== verification/System.thy ===== *)
theory System
  imports Entry Terminal
begin

text \<open>
  The running program: its start, and then, in any order, requests at the entrypoints, hot reloads, health checks, ticks of the broadcast, snapshots of the terminal report, and
  clients that go away. Each is one step; what a step needs from outside is chosen anew at every step.
\<close>

section \<open>What the dashboard keeps\<close>

lemma still_ok_step: "mgr_step e m = Inr m1 \<Longrightarrow> monitors_of m1 = monitors_of m \<Longrightarrow> still_ok b m m1"
  using mgr_step_ok [of m e] by (auto simp: still_ok_def)

lemma monitors_of_snap_loop: "monitors_of (fst (snap_loop ks now ord (m, S, E, r))) = monitors_of m"
  by (induction ks arbitrary: m S E r)
    (simp_all add: Let_def case_prod_beta monitors_of_set_instance split: option.splits)

lemma still_ok_snap: "still_ok b m (fst (Manager_DashboardSnap ks now ord us m))"
  using still_ok_step [of "MgrSnap ks now ord us" m _ b] monitors_of_snap_loop [of ks now ord m Map.empty "[]" 0]
  by (simp add: Manager_DashboardSnap_def Let_def case_prod_beta)

lemma snap_of_related: "related still_ok hub_kept w (snd (snap_of a w))"
  unfolding snap_of_def Let_def case_prod_beta snd_conv by (rule still_ok.before [OF still_ok.put [OF still_ok_snap]]) simp_all

text \<open>The file server and redirects leave managers and hub alone.\<close>

definition web_ok :: "'l Web \<Rightarrow> bool" where
  "web_ok web \<longleftrightarrow> (\<forall>p. keeps_related still_ok hub_kept (we_ServeFile web p)) \<and> (\<forall>p. keeps_related still_ok hub_kept (we_Redirect web p))"

lemma on_hub_related: "hub_kept (wo_hub w) (f (wo_hub w)) \<Longrightarrow> related still_ok hub_kept w (on_hub f w)"
  by (simp add: related_def on_hub_def still_ok.refl)

lemma related_on_hub:
  "related still_ok hub_kept w w1 \<Longrightarrow> hub_kept (wo_hub w1) (f (wo_hub w1)) \<Longrightarrow> related still_ok hub_kept w (on_hub f w1)"
  by (rule still_ok.after [OF _ on_hub_related])

lemma HandleWS_related: "related still_ok hub_kept w (fst (HandleWS web w rw r))"
  by (auto simp: HandleWS_def Let_def hub_kept_def on_hub_def still_ok.same related_def still_ok.refl split: sum.splits)

lemma dashMux_related:
  assumes "web_ok web"
  shows "keeps_related still_ok hub_kept (dashMux web s)"
proof -
  have f: "related still_ok hub_kept w (fst (we_ServeFile web p w rw r))" "related still_ok hub_kept w (fst (we_Redirect web p w rw r))" for p w rw r
    using assms by (simp_all add: web_ok_def keeps_related_def)
  have h: "related still_ok hub_kept w (fst (HandleAPIHealth web w rw r))" for w rw r
    by (simp add: HandleAPIHealth_def Let_def case_prod_beta still_ok.replies snap_of_related split: sum.splits)
  have s: "related still_ok hub_kept w (fst (stats_handler web s w rw r))" for w rw r
    by (simp add: stats_handler_def Let_def case_prod_beta still_ok.replies snap_of_related split: option.splits prod.splits)
  show ?thesis
    by (auto simp: keeps_related_def dashMux_def f h s HandleWS_related hub_ServeHTTP_def HandleAPIMetrics_def HandleAPIHistory_def HandleAPIConfig_def
        Let_def case_prod_beta still_ok.replies snap_of_related still_ok.same)
qed

section \<open>The entrypoints of a started program\<close>

definition entry_handler :: "string \<Rightarrow> 'l AppHandler" where
  "entry_handler k = (if k = ''dashboard'' then dashMux else (\<lambda>web s. app_ServeHTTP s))"

text \<open>An entrypoint serves the chain of the middlewares that its configuration names.\<close>

definition entry_of :: "'l Deps \<Rightarrow> Config \<Rightarrow> nat \<Rightarrow> string \<Rightarrow> 'l EntryPoint \<Rightarrow> bool" where
  "entry_of d cfg a k ep \<longleftrightarrow> ei_Name ep = k \<and> cf_EntryPoints cfg k = Some (Some (ei_Config ep)) \<and> srv_Addr (ei_server ep) = ep_Address (ei_Config ep)
     \<and> (\<exists>mws. list_all2 (stands_for d cfg (Some a)) (ep_Middlewares (ei_Config ep)) mws
          \<and> srv_Handler (ei_server ep) = (\<lambda>web s. Chain mws (entry_handler k web s)))"

lemma entry_of_New:
  assumes "list_all2 (stands_for d cfg (Some a)) (ep_Middlewares epCfg) mws" and "cf_EntryPoints cfg k = Some (Some epCfg)"
  shows "entry_of d cfg a k (entrypoint_New k epCfg (entry_handler k) mws)"
proof -
  have "(if length mws > 0 then (\<lambda>web s. Chain mws (entry_handler k web s)) else entry_handler k) = (\<lambda>web s. Chain mws (entry_handler k web s))"
    by (simp add: Chain_def)
  then show ?thesis using assms unfolding entry_of_def entrypoint_New_def by (auto simp: Let_def)
qed

lemma entrypoints_start_all:
  assumes "entrypoints_start d ks cfg (b, w) m = ((b1, w1), Inr m1)" and "builder_knows d b" and "bu_cfg b = cfg" and "bu_registry b = Some a"
    and "\<And>k ep. em_entrypoints m k = Some ep \<Longrightarrow> entry_of d cfg a k ep"
  shows "(\<exists>n. grows w w1 n) \<and> dom (em_entrypoints m1) = dom (em_entrypoints m) \<union> {j \<in> set ks. cf_EntryPoints cfg j \<noteq> None}
     \<and> (\<forall>k ep. em_entrypoints m1 k = Some ep \<longrightarrow> entry_of d cfg a k ep)"
  using assms
proof (induction ks arbitrary: b w m)
  case (Cons k ks)
  show ?case
  proof (cases "cf_EntryPoints cfg k")
    case None
    then show ?thesis using Cons.IH [of b w m] Cons.prems by auto
  next
    case (Some p)
    with Cons.prems(1) obtain epCfg where c: "cf_EntryPoints cfg k = Some (Some epCfg)" by (cases p) auto
    obtain b2 w2 y where r: "ResolveMiddlewares (ep_Middlewares epCfg) d (b, w) = ((b2, w2), y)" by (metis surj_pair)
    with Cons.prems(1) c obtain mws where y: "y = Inr mws" by (cases y) auto
    from resolve_knows [OF r [unfolded y] Cons.prems(2)] Cons.prems(3,4)
    have b2: "builder_knows d b2" "bu_cfg b2 = cfg" "bu_registry b2 = Some a" "list_all2 (stands_for d cfg (Some a)) (ep_Middlewares epCfg) mws"
      by simp_all
    let ?ep = "entrypoint_New k epCfg (entry_handler k) mws" and ?m = "ep_Register (entrypoint_New k epCfg (entry_handler k) mws) m"
    have e: "entry_of d cfg a k ?ep" by (rule entry_of_New [OF b2(4) c])
    then have n: "ei_Name ?ep = k" by (simp add: entry_of_def)
    have rest: "entrypoints_start d ks cfg (b2, w2) ?m = ((b1, w1), Inr m1)"
      using Cons.prems(1) c r y by (simp add: entry_handler_def Let_def)
    have "entry_of d cfg a k' ep" if "em_entrypoints ?m k' = Some ep" for k' ep
      using that e Cons.prems(5) by (auto simp: ep_Register_def n split: if_splits)
    from Cons.IH [OF rest b2(1-3) this] obtain g where ih: "grows w2 w1 g"
      "dom (em_entrypoints m1) = dom (em_entrypoints ?m) \<union> {j \<in> set ks. cf_EntryPoints cfg j \<noteq> None}"
      "\<forall>k ep. em_entrypoints m1 k = Some ep \<longrightarrow> entry_of d cfg a k ep" by blast
    have "dom (em_entrypoints ?m) = insert k (dom (em_entrypoints m))" by (simp add: ep_Register_def n)
    with ih(2) c have "dom (em_entrypoints m1) = dom (em_entrypoints m) \<union> {j \<in> set (k # ks). cf_EntryPoints cfg j \<noteq> None}" by auto
    then show ?thesis using ih(3) grows_any [OF resolve_grows [OF r] ih(1)] by blast
  qed
qed auto

lemma StartAll_entrypoints [simp]: "em_entrypoints (StartAll ks serve m) = em_entrypoints m"
  by (induction ks serve m rule: StartAll.induct) (auto split: option.splits)

section \<open>The start\<close>

lemma InitFileLogger_frame [simp]:
  "wo_mgrs (snd (InitFileLogger opened w)) = wo_mgrs w" "wo_env (snd (InitFileLogger opened w)) = wo_env w"
  "wo_hub (snd (InitFileLogger opened w)) = wo_hub w"
  by (simp_all add: InitFileLogger_def)

lemma ensure_certs_frame:
  "wo_mgrs (fst (ensure_certs cy tls w)) = wo_mgrs w" "wo_env (fst (ensure_certs cy tls w)) = wo_env w" "wo_hub (fst (ensure_certs cy tls w)) = wo_hub w"
  by (simp_all add: ensure_certs_def case_prod_beta split: option.splits)

lemma draw_order_frame_disk [simp]: "wo_disk (snd (draw_order w)) = wo_disk w"
  by (simp add: draw_order_def)

lemma entry_world:
  assumes "ensure_certs cy tls w = (w1, x)" and "grows (snd (draw_order w1)) w2 n"
  shows "wo_mgrs w2 = wo_mgrs w" "wo_hub w2 = wo_hub w" "wo_disk w2 = wo_disk w1"
  using grows_frame [OF assms(2)] ensure_certs_frame [of cy tls w] assms(1) by simp_all

lemma NewManager_cfg: "NewManager ks now c = Inr m \<Longrightarrow> mg_cfg m = c"
proof -
  have "buildAll ks now c m0 = Inr m \<Longrightarrow> mg_cfg m = mg_cfg m0" for m0
    by (induction ks arbitrary: m0) (auto split: option.splits sum.splits)
  then show "NewManager ks now c = Inr m \<Longrightarrow> mg_cfg m = c" by (force simp: NewManager_def)
qed

lemma main_start_parts:
  assumes "main_start d srt serve cy opened decoded w = (w1, Inr (s, m))"
  obtains c w2 w3 w4 m1 b w5 where "loaded decoded w = Inr c" "as_cfg s = c" "wo_mgrs w2 = wo_mgrs w"
    "en_order (wo_env w2) = (\<lambda>n. en_order (wo_env w) (n + 3))"
    "initialize d srt c (\<lparr>as_cfg = c, as_svcMgr = 0, as_routerMgr = NewRouteManager\<rparr>, w2) = ((s, w3), Inr ())"
    "ensure_certs cy (cf_TLS c) (snd (draw_order (w3\<lparr>wo_hub := NewHub (as_svcMgr s) ''web/dashboard.html''\<rparr>))) = (w4, Inr ())"
    "entrypoints_start d (en_order (wo_env w) 6) c
       (NewBuilder c (Some (as_svcMgr s)), snd (draw_order w4)) ep_NewManager = ((b, w5), Inr m1)"
    "em_entrypoints m = em_entrypoints m1" "wo_mgrs w1 = wo_mgrs w5" "wo_hub w1 = wo_hub w5" "wo_disk w1 = wo_disk w5"
proof -
  note lc = load_config_parts [of decoded w]
  obtain c where c: "loaded decoded w = Inr c" using assms lc by (cases "loaded decoded w") (auto simp: main_start_def loaded_def case_prod_beta)
  obtain w0 where w0: "load_config decoded w = (w0, Inr c)" "wo_mgrs w0 = wo_mgrs w" "en_order (wo_env w0) = (\<lambda>n. en_order (wo_env w) (n + 3))"
    using lc c unfolding loaded_def by (metis prod.collapse)
  define w2 where "w2 = snd (InitFileLogger (opened (cf_AccessLogPath c)) w0)"
  let ?s0 = "\<lparr>as_cfg = c, as_svcMgr = 0, as_routerMgr = NewRouteManager\<rparr>"
  obtain s' w3 x where i: "initialize d srt c (?s0, w2) = ((s', w3), x)" by (metis surj_pair)
  with assms w0(1) have x: "x = Inr ()" by (cases x) (auto simp: main_start_def w2_def case_prod_beta)
  let ?w3 = "w3\<lparr>wo_hub := NewHub (as_svcMgr s') ''web/dashboard.html''\<rparr>"
  let ?w4 = "snd (draw_order ?w3)" and ?p = "start_reporter (fst (draw_order ?w3)) (cf_MetricsIntervalSec c) (Instances (wo_mgrs (snd (draw_order ?w3)) ! as_svcMgr s'))"
  have rp: "?p = Inr ()" using assms w0(1) i x by (cases ?p) (auto simp: main_start_def w2_def case_prod_beta)
  obtain w4 z where z: "ensure_certs cy (cf_TLS c) ?w4 = (w4, z)" by (metis surj_pair)
  with assms w0(1) i x rp have zr: "z = Inr ()" by (cases z) (auto simp: main_start_def w2_def case_prod_beta)
  obtain b w5 y where e: "entrypoints_start d (en_order (wo_env w4) 0) c (NewBuilder c (Some (as_svcMgr s')), snd (draw_order w4)) ep_NewManager = ((b, w5), y)"
    by (metis surj_pair)
  from assms w0(1) i x rp z zr e obtain m1 where y: "y = Inr m1" and m: "s = s'" "em_entrypoints m = em_entrypoints m1" "wo_mgrs w1 = wo_mgrs w5" "wo_hub w1 = wo_hub w5"
    "wo_disk w1 = wo_disk w5"
    by (cases y) (auto simp: main_start_def w2_def [symmetric] Let_def case_prod_beta split: sum.splits)
  have t: "as_cfg s' = c" "en_order (wo_env w3) = (\<lambda>n. en_order (wo_env w2) (n + 2))" using initialize_table [OF i [unfolded x]] by auto
  have "en_order (wo_env w4) 0 = en_order (wo_env w) 6" using ensure_certs_frame(2) [of cy "cf_TLS c" ?w4] by (simp add: z t(2) w2_def w0(3))
  with that [of c w2 w3 w4 b w5 m1] c t(1) w0(2,3) i x e y z zr m show thesis by (simp add: w2_def)
qed

text \<open>
  C2. A program that has started serves its configuration. Its entrypoints are exactly the configured ones; each listens at its configured address and serves the chain of the middlewares that it
  names, in their order, around the dashboard if it is called \<^verbatim>\<open>dashboard\<close>, and otherwise around the application in its current state; and the dashboard shows
  the manager that was made from the configuration of the file.
\<close>

theorem start_serves_configuration:
  assumes "main_start d srt serve cy opened decoded w = (w1, Inr (s, m))"
    and "range_order (cf_EntryPoints (as_cfg s)) (en_order (wo_env w) 6)"
  shows "loaded decoded w = Inr (as_cfg s) \<and> GetConfig (wo_mgrs w1 ! as_svcMgr s) = as_cfg s
     \<and> wo_hub w1 = NewHub (as_svcMgr s) ''web/dashboard.html''
     \<and> dom (em_entrypoints m) = dom (cf_EntryPoints (as_cfg s))
     \<and> (\<forall>k ep. ep_Get m k = Some ep \<longrightarrow>
          cf_EntryPoints (as_cfg s) k = Some (Some (ei_Config ep)) \<and> srv_Addr (ei_server ep) = ep_Address (ei_Config ep)
          \<and> (\<exists>mws. list_all2 (stands_for d (as_cfg s) (Some (as_svcMgr s))) (ep_Middlewares (ei_Config ep)) mws
               \<and> (\<forall>web s'. srv_Handler (ei_server ep) web s' = Chain mws (if k = ''dashboard'' then dashMux web s' else app_ServeHTTP s'))))"
proof (rule main_start_parts [OF assms(1)])
  fix c w2 w3 w4 m1 b w5
  assume p: "loaded decoded w = Inr c" "as_cfg s = c"
    "initialize d srt c (\<lparr>as_cfg = c, as_svcMgr = 0, as_routerMgr = NewRouteManager\<rparr>, w2) = ((s, w3), Inr ())"
    "ensure_certs cy (cf_TLS c) (snd (draw_order (w3\<lparr>wo_hub := NewHub (as_svcMgr s) ''web/dashboard.html''\<rparr>))) = (w4, Inr ())"
    "entrypoints_start d (en_order (wo_env w) 6) c
       (NewBuilder c (Some (as_svcMgr s)), snd (draw_order w4)) ep_NewManager = ((b, w5), Inr m1)"
    "em_entrypoints m = em_entrypoints m1" "wo_mgrs w1 = wo_mgrs w5" "wo_hub w1 = wo_hub w5" "wo_disk w1 = wo_disk w5"
  from initialize_table [OF p(3)] obtain mg where mg: "as_svcMgr s = length (wo_mgrs w2)" "wo_mgrs w3 = wo_mgrs w2 @ [mg]"
    "NewManager (en_order (wo_env w2) 0) (en_clocks (wo_env w2) 0) c = Inr mg" by blast
  from entrypoints_start_all [OF p(5), of "as_svcMgr s"] obtain n where e: "grows (snd (draw_order w4)) w5 n"
    "dom (em_entrypoints m1) = {k \<in> set (en_order (wo_env w) 6). cf_EntryPoints c k \<noteq> None}"
    "\<forall>k ep. em_entrypoints m1 k = Some ep \<longrightarrow> entry_of d c (as_svcMgr s) k ep" by (auto simp: ep_NewManager_def)
  have "dom (em_entrypoints m) = dom (cf_EntryPoints c)" using e(2) assms(2) unfolding p(2,6) range_order_def by auto
  moreover have "wo_mgrs w5 = wo_mgrs w3" "wo_hub w5 = NewHub (as_svcMgr s) ''web/dashboard.html''"
    using entry_world [OF p(4) e(1)] by simp_all
  moreover have "GetConfig mg = c" using NewManager_cfg [OF mg(3)] by (simp add: GetConfig_def)
  moreover have "cf_EntryPoints c k = Some (Some (ei_Config ep)) \<and> srv_Addr (ei_server ep) = ep_Address (ei_Config ep)
      \<and> (\<exists>mws. list_all2 (stands_for d c (Some (as_svcMgr s))) (ep_Middlewares (ei_Config ep)) mws
           \<and> (\<forall>web s'. srv_Handler (ei_server ep) web s' = Chain mws (if k = ''dashboard'' then dashMux web s' else app_ServeHTTP s')))"
    if "ep_Get m k = Some ep" for k ep
  proof -
    have "entry_of d c (as_svcMgr s) k ep" using e(3) that by (simp add: ep_Get_def p(6))
    then show ?thesis by (cases "k = ''dashboard''") (force simp: entry_of_def entry_handler_def)+
  qed
  ultimately show ?thesis using p(1,2,7,8) mg by simp
qed

section \<open>Steps of the running program\<close>

datatype sys_event = SysRequest | SysReload | SysProbe | SysReport | SysSweep | SysDisconnect | SysTick DashboardSnapshot

text \<open>One tick of the terminal report: it takes a snapshot of one service's collector and prints it.\<close>

definition report_tick :: "nat \<Rightarrow> string \<Rightarrow> time \<Rightarrow> url list \<Rightarrow> url list \<Rightarrow> string \<Rightarrow> 'l World \<Rightarrow> 'l World" where
  "report_tick a k now ks us clock = on_collector a k (\<lambda>c. fst (PrintReport now ks us clock c))"

lemma report_tick_snap: "report_tick a k now ks us clock = on_collector a k (\<lambda>c. fst (DashboardSnap now ks c))"
  by (simp add: report_tick_def PrintReport_def case_prod_beta)

inductive sys_step ::
  "'l Deps \<Rightarrow> 'l Handler slice_sorter \<Rightarrow> 'l EpManager \<Rightarrow> 'l appState \<times> 'l World \<Rightarrow> sys_event \<Rightarrow> 'l appState \<times> 'l World \<Rightarrow> bool"
  for d srt eps where
  request: "ep_Get eps k = Some ep \<Longrightarrow> web_ok web \<Longrightarrow> srv_Handler (ei_server ep) web s (w\<lparr>wo_env := e\<rparr>) rw r = (w1, x)
    \<Longrightarrow> sys_step d srt eps (s, w) SysRequest (s, w1)"
| reload: "reload d srt (decode_config file) (s, w\<lparr>wo_env := e\<rparr>) = ((s1, w1), x) \<Longrightarrow> orders_fit (en_order e) (decode_config file) (wo_mgrs w ! as_svcMgr s)
    \<Longrightarrow> (\<And>p. x \<noteq> Inl (GoPanic p)) \<Longrightarrow> sys_step d srt eps (s, w) SysReload (s1, w1)"
| probe: "a < length (wo_mgrs w) \<Longrightarrow> mgr_step (MgrProbe k e server) (wo_mgrs w ! a) = Inr m
    \<Longrightarrow> sys_step d srt eps (s, w) SysProbe (s, w\<lparr>wo_mgrs := (wo_mgrs w)[a := m]\<rparr>)"
| report: "sys_step d srt eps (s, w) SysReport (s, report_tick a k now ks us clock w)"
| sweep: "sys_step d srt eps (s, w) SysSweep (s, w\<lparr>wo_limiters := (wo_limiters w)[i := cleanup now (wo_limiters w ! i)]\<rparr>)"
| disconnect: "sys_step d srt eps (s, w) SysDisconnect (s, ws_disconnect conn w)"
| tick: "fst (snap_of (hu_provider (wo_hub w)) (w\<lparr>wo_env := e\<rparr>)) = snap
    \<Longrightarrow> sys_step d srt eps (s, w) (SysTick snap) (s, broadcast_tick web conns (w\<lparr>wo_env := e\<rparr>))"

inductive sys_run ::
  "'l Deps \<Rightarrow> 'l Handler slice_sorter \<Rightarrow> 'l EpManager \<Rightarrow> 'l appState \<times> 'l World \<Rightarrow> sys_event list \<Rightarrow> 'l appState \<times> 'l World \<Rightarrow> bool"
  for d srt eps x where
  start: "sys_run d srt eps x [] x"
| move: "sys_run d srt eps x tr y \<Longrightarrow> sys_step d srt eps y ev z \<Longrightarrow> sys_run d srt eps x (tr @ [ev]) z"

section \<open>The invariant\<close>

definition sys_ok :: "'l appState \<times> 'l World \<Rightarrow> bool" where
  "sys_ok = (\<lambda>(s, w). as_svcMgr s < length (wo_mgrs w) \<and> (\<forall>m \<in> set (wo_mgrs w). mgr_ok m)
     \<and> mg_cfg (wo_mgrs w ! as_svcMgr s) = as_cfg s \<and> config_ready (as_cfg s) \<and> urls_unique (as_cfg s)
     \<and> hu_provider (wo_hub w) < length (wo_mgrs w)
     \<and> (\<forall>j < length (wo_mgrs w). j \<noteq> as_svcMgr s \<longrightarrow> monitors_stopped (wo_mgrs w ! j))
     \<and> (\<forall>r \<in> set (rm_routes (as_routerMgr s)). keeps_related still_ok hub_kept (rt_Handler r)))"

definition eps_ok :: "'l EpManager \<Rightarrow> bool" where
  "eps_ok eps \<longleftrightarrow> (\<exists>d cfg a. \<forall>k ep. ep_Get eps k = Some ep \<longrightarrow> entry_of d cfg a k ep)"

lemma monitors_stopped_iff: "monitors_stopped m \<longleftrightarrow> (\<forall>k mon. monitors_of m k = Some (Some mon) \<longrightarrow> mo_stopChs mon = [])"
  by (auto simp: monitors_stopped_def monitors_of_def)

lemma monitors_stopped_cong: "monitors_of m1 = monitors_of m \<Longrightarrow> monitors_stopped m1 = monitors_stopped m"
  by (simp add: monitors_stopped_iff)

lemma sys_ok_env [simp]: "sys_ok (s, w\<lparr>wo_env := e\<rparr>) = sys_ok (s, w)"
  by (simp add: sys_ok_def)

lemma sys_ok_mgr: "sys_ok (s, w) \<Longrightarrow> j < length (wo_mgrs w) \<Longrightarrow> mgr_ok (wo_mgrs w ! j)"
  by (simp add: sys_ok_def)

lemma sys_ok_related:
  assumes "related still_ok hub_kept w w1" and "sys_ok (s, w)"
  shows "sys_ok (s, w1)"
proof -
  have r: "length (wo_mgrs w1) = length (wo_mgrs w)" "hu_provider (wo_hub w1) = hu_provider (wo_hub w)"
    "\<And>j. j < length (wo_mgrs w) \<Longrightarrow> still_ok j (wo_mgrs w ! j) (wo_mgrs w1 ! j)"
    using assms(1) by (simp_all add: related_def hub_kept_def)
  have m: "mgr_ok (wo_mgrs w1 ! j) \<and> mg_cfg (wo_mgrs w1 ! j) = mg_cfg (wo_mgrs w ! j)
      \<and> monitors_stopped (wo_mgrs w1 ! j) = monitors_stopped (wo_mgrs w ! j)" if "j < length (wo_mgrs w)" for j
  proof -
    have "still_ok j (wo_mgrs w ! j) (wo_mgrs w1 ! j)" "mgr_ok (wo_mgrs w ! j)" using r(3) [OF that] sys_ok_mgr [OF assms(2) that] by blast+
    then show ?thesis unfolding still_ok_def using monitors_stopped_cong by blast
  qed
  have "\<forall>m \<in> set (wo_mgrs w1). mgr_ok m" using m r(1) by (metis in_set_conv_nth)
  then show ?thesis using assms(2) m r(1,2) by (simp add: sys_ok_def)
qed

lemma entry_related:
  assumes "sys_ok (s, w)" and "eps_ok eps" and "ep_Get eps k = Some ep" and "web_ok web"
  shows "keeps_related still_ok hub_kept (srv_Handler (ei_server ep) web s)"
proof -
  obtain d cfg a where "entry_of d cfg a k ep" using assms(2,3) unfolding eps_ok_def by blast
  then obtain mws where h: "list_all2 (stands_for d cfg (Some a)) (ep_Middlewares (ei_Config ep)) mws"
    "srv_Handler (ei_server ep) = (\<lambda>web s. Chain mws (entry_handler k web s))"
    unfolding entry_of_def by blast
  have "keeps_related still_ok hub_kept (app_ServeHTTP s)" using assms(1) by (intro still_ok.app_table) (simp_all add: sys_ok_def)
  then have "keeps_related still_ok hub_kept (entry_handler k web s)" using dashMux_related [OF assms(4)] by (simp add: entry_handler_def)
  then show ?thesis using still_ok.chain [OF h(1)] by (simp add: h(2))
qed

text \<open>A reload keeps the invariant, whether it succeeds or not.\<close>

lemma reload_sys_ok:
  assumes "reload d srt decoded (s, w) = ((s1, w1), x)" and "orders_fit (en_order (wo_env w)) decoded (wo_mgrs w ! as_svcMgr s)"
    and "sys_ok (s, w)" and "slice_sort srt"
  shows "sys_ok (s1, w1) \<and> hu_history (wo_hub w1) = hu_history (wo_hub w)"
proof (cases "loaded decoded w")
  case (Inl e)
  then have "s1 = s" "wo_mgrs w1 = wo_mgrs w" "wo_hub w1 = wo_hub w" using reload_rejected [OF assms(1)] by blast+
  then show ?thesis using assms(3) by (simp add: sys_ok_def)
next
  case (Inr c)
  have cur: "as_svcMgr s < length (wo_mgrs w)" "mgr_ok (wo_mgrs w ! as_svcMgr s)" using assms(3) by (simp_all add: sys_ok_def)
  note st = reload_state [OF assms(1) cur Inr assms(2)]
  have tab: "\<forall>r \<in> set (rm_routes (as_routerMgr s1)). keeps_related still_ok hub_kept (rt_Handler r)"
    by (rule reload_accepted [OF assms(1) cur Inr assms(2)]) (rule still_ok.table [OF assms(4)], auto)
  let ?n = "length (wo_mgrs w)"
  have each: "mgr_ok (wo_mgrs w1 ! j) \<and> (j \<noteq> ?n \<longrightarrow> monitors_stopped (wo_mgrs w1 ! j))" if "j < Suc ?n" for j
  proof -
    note j = that
    consider "j = ?n" | "j = as_svcMgr s" | "j < ?n" "j \<noteq> as_svcMgr s" using j by linarith
    then show ?thesis
    proof cases
      case 3
      then have "wo_mgrs w1 ! j = wo_mgrs w ! j" using st by blast
      moreover have "monitors_stopped (wo_mgrs w ! j)" using assms(3) 3 by (simp add: sys_ok_def)
      ultimately show ?thesis using sys_ok_mgr [OF assms(3) 3(1)] by simp
    qed (use st in auto)
  qed
  have all: "\<forall>m \<in> set (wo_mgrs w1). mgr_ok m" using each st by (metis in_set_conv_nth)
  have "hu_provider (wo_hub w) < ?n" using assms(3) by (simp add: sys_ok_def)
  then have hub: "hu_provider (wo_hub w1) < Suc ?n" "hu_history (wo_hub w1) = hu_history (wo_hub w)" using st by (auto split: if_splits)
  have rdy: "config_ready c \<and> urls_unique c" by (rule loaded_ready [OF Inr assms(2)])
  have new: "as_cfg s1 = c" "as_svcMgr s1 = ?n" "length (wo_mgrs w1) = Suc ?n" "GetConfig (wo_mgrs w1 ! as_svcMgr s1) = c" using st by blast+
  show ?thesis using new all each hub rdy tab by (simp add: sys_ok_def GetConfig_def)
qed

lemma probe_monitors: "mgr_step (MgrProbe k e server) m = Inr m1 \<Longrightarrow> monitors_of m1 = monitors_of m"
  by (auto simp: on_instance_def probe_on_def monitors_of_set_instance set_breakers_def split: option.splits sum.splits if_splits prod.splits)

lemma report_related: "related still_ok hub_kept w (report_tick a k now ks us clock w)"
proof (cases "wo_instance a k w")
  case (Some inst)
  then have "mg_instances (wo_mgrs w ! a) k = Some inst" by (simp add: wo_instance_def split: if_splits)
  then have "still_ok a (wo_mgrs w ! a) (set_instance k (set_collector (fst (DashboardSnap now ks (is_Collector inst))) inst) (wo_mgrs w ! a))"
    by (rule still_ok_instance) auto
  from still_ok.put [OF this] Some show ?thesis by (simp add: report_tick_snap on_collector_def wo_put_def)
qed (simp add: report_tick_snap on_collector_def still_ok.same)

lemma send_all_frame [simp]:
  "hu_provider (send_all web t conns h) = hu_provider h" "hu_history (send_all web t conns h) = hu_history h"
  by (induction conns arbitrary: h) simp_all

lemma store_snapshot_history [simp]:
  "hu_provider (store_snapshot snap h) = hu_provider h"
  "hu_history (store_snapshot snap h) = last_n historySize (hu_history h @ [snap])"
  by (simp_all add: store_snapshot_def Let_def last_n_def)

lemma broadcast_parts:
  "wo_mgrs (broadcast_tick web conns w) = wo_mgrs (snd (snap_of (hu_provider (wo_hub w)) w))"
  "hu_provider (wo_hub (broadcast_tick web conns w)) = hu_provider (wo_hub w)"
  "hu_history (wo_hub (broadcast_tick web conns w)) = last_n historySize (hu_history (wo_hub w) @ [fst (snap_of (hu_provider (wo_hub w)) w)])"
  using snap_of_related [of w "hu_provider (wo_hub w)"]
  by (simp_all add: broadcast_tick_def Let_def case_prod_beta on_hub_def related_def hub_kept_def split: sum.splits)

lemma sys_step_ok:
  assumes "sys_step d srt eps x ev y" and "sys_ok x" and "eps_ok eps" and "slice_sort srt"
  shows "sys_ok y \<and> hu_history (wo_hub (snd y)) =
    (case ev of SysTick snap \<Rightarrow> last_n historySize (hu_history (wo_hub (snd x)) @ [snap]) | _ \<Rightarrow> hu_history (wo_hub (snd x)))"
  using assms(1,2)
proof (cases rule: sys_step.cases)
  case (request k ep web s e w rw r w1 z)
  have "related still_ok hub_kept (w\<lparr>wo_env := e\<rparr>) w1"
    using entry_related [OF _ assms(3) request(4,5), of s w] request assms(2) unfolding keeps_related_def by (metis fst_conv)
  then show ?thesis using sys_ok_related [of "w\<lparr>wo_env := e\<rparr>" w1 s] request assms(2) by (simp add: related_def hub_kept_def)
next
  case (reload j s e w s1 w1 z)
  then show ?thesis using reload_sys_ok [OF reload(4) _ _ assms(4)] assms(2) by simp
next
  case (probe a w k e server m s)
  have "still_ok a (wo_mgrs w ! a) m" by (rule still_ok_step [OF probe(5) probe_monitors [OF probe(5)]])
  from sys_ok_related [OF still_ok.put [OF this], of s] probe assms(2) show ?thesis by simp
next
  case (report s w a k now us)
  with report_related [of w a k now us] sys_ok_related [OF report_related, of s w a k now us] assms(2) show ?thesis
    by (simp add: related_def hub_kept_def)
next
  case (tick w e snap s web conns)
  let ?w = "w\<lparr>wo_env := e\<rparr>"
  have "sys_ok (s, snd (snap_of (hu_provider (wo_hub w)) ?w))" by (rule sys_ok_related [OF snap_of_related]) (use tick assms(2) in simp)
  moreover have "hu_provider (wo_hub (snd (snap_of (hu_provider (wo_hub w)) ?w))) = hu_provider (wo_hub w)"
    using snap_of_related [of ?w "hu_provider (wo_hub w)"] by (simp add: related_def hub_kept_def)
  ultimately show ?thesis using tick broadcast_parts [of web conns ?w] by (simp add: sys_ok_def)
qed (use assms(2) in \<open>simp_all add: sys_ok_def ws_disconnect_def on_hub_def\<close>)

lemma sys_run_ok:
  assumes "sys_run d srt eps x tr y" and "sys_ok x" and "eps_ok eps" and "slice_sort srt"
  shows "sys_ok y"
  using assms by (induction rule: sys_run.induct) (use sys_step_ok in blast)+

text \<open>A program that has started satisfies the invariant.\<close>

lemma started_ok:
  assumes "main_start d srt serve cy opened decoded w = (w1, Inr (s, m))" and "wo_mgrs w = []" and "slice_sort srt"
    and "\<And>c. decoded = Inr c \<Longrightarrow> range_order (cf_Services c) (en_order (wo_env w) 0) \<and> range_order (cf_EntryPoints c) (en_order (wo_env w) 1)"
    and "range_order (cf_Services (as_cfg s)) (en_order (wo_env w) 2)" and "range_order (cf_Services (as_cfg s)) (en_order (wo_env w) 3)"
  shows "sys_ok (s, w1) \<and> eps_ok m \<and> wo_hub w1 = NewHub (as_svcMgr s) ''web/dashboard.html''"
proof (rule main_start_parts [OF assms(1)])
  fix c w2 w3 w4 m1 b w5
  assume p: "loaded decoded w = Inr c" "as_cfg s = c" "wo_mgrs w2 = wo_mgrs w" "en_order (wo_env w2) = (\<lambda>n. en_order (wo_env w) (n + 3))"
    "initialize d srt c (\<lparr>as_cfg = c, as_svcMgr = 0, as_routerMgr = NewRouteManager\<rparr>, w2) = ((s, w3), Inr ())"
    "ensure_certs cy (cf_TLS c) (snd (draw_order (w3\<lparr>wo_hub := NewHub (as_svcMgr s) ''web/dashboard.html''\<rparr>))) = (w4, Inr ())"
    "entrypoints_start d (en_order (wo_env w) 6) c
       (NewBuilder c (Some (as_svcMgr s)), snd (draw_order w4)) ep_NewManager = ((b, w5), Inr m1)"
    "em_entrypoints m = em_entrypoints m1" "wo_mgrs w1 = wo_mgrs w5" "wo_hub w1 = wo_hub w5" "wo_disk w1 = wo_disk w5"
  obtain c0 where c0: "decoded = Inr c0" using p(1) by (cases decoded) (auto simp: loaded_def Load_def)
  have rdy: "config_ready c \<and> urls_unique c"
    by (rule load_ready [of c0]) (use assms(4-6) p(1,2) c0 in \<open>auto simp: loaded_def\<close>)
  have "range_order (cf_Services c) (en_order (wo_env w2) 0)" using assms(6) p(2,4) by simp
  from NewManager_ok [OF this] rdy obtain mg where mg: "NewManager (en_order (wo_env w2) 0) (en_clocks (wo_env w2) 0) c = Inr mg" "mgr_ok mg" "mg_cfg mg = c"
    by blast
  from initialize_table [OF p(5)] obtain specs where i: "as_svcMgr s = 0" "wo_mgrs w3 = [mg]" "add_routes srt specs NewRouteManager = Inr (as_routerMgr s)"
    "\<forall>spec \<in> set specs. router_entry d c 0 w3 spec" using mg(1) p(3) assms(2) by auto
  from entrypoints_start_all [OF p(7), of "as_svcMgr s"] obtain n where e: "grows (snd (draw_order w4)) w5 n"
    "\<forall>k ep. em_entrypoints m1 k = Some ep \<longrightarrow> entry_of d c (as_svcMgr s) k ep" by (auto simp: ep_NewManager_def)
  have w5: "wo_mgrs w5 = [mg]" "wo_hub w5 = NewHub (as_svcMgr s) ''web/dashboard.html''" using entry_world [OF p(6) e(1)] i(2) by simp_all
  have "\<forall>r \<in> set (rm_routes (as_routerMgr s)). keeps_related still_ok hub_kept (rt_Handler r)"
    by (rule still_ok.table [OF assms(3) i(3,4)]) simp
  then have "sys_ok (s, w1)" using w5 p(2,9,10) mg i(1) rdy by (simp add: sys_ok_def NewHub_def)
  moreover have "eps_ok m" using e(2) p(8) unfolding eps_ok_def ep_Get_def by auto
  ultimately show ?thesis using w5(2) p(10) by simp
qed

text \<open>
  C1. The program keeps its invariant. After its start with a file that was accepted, and after any sequence of requests at the entrypoints, successful and failed reloads, health checks, ticks and reports,
  every service manager that was ever made is well-formed; the current one was made from the current configuration, which is complete and has every backend once; the dashboard shows a manager that
  exists; and no manager but the current one has health checks running.
\<close>

theorem system_invariant:
  assumes "main_start d srt serve cy opened decoded w = (w0, Inr (s0, eps))" and "wo_mgrs w = []" and "slice_sort srt"
    and "\<And>c. decoded = Inr c \<Longrightarrow> range_order (cf_Services c) (en_order (wo_env w) 0) \<and> range_order (cf_EntryPoints c) (en_order (wo_env w) 1)"
    and "range_order (cf_Services (as_cfg s0)) (en_order (wo_env w) 2)" and "range_order (cf_Services (as_cfg s0)) (en_order (wo_env w) 3)"
    and "sys_run d srt eps (s0, w0) tr (s, w1)"
  shows "(\<forall>m \<in> set (wo_mgrs w1). mgr_ok m) \<and> as_svcMgr s < length (wo_mgrs w1) \<and> mgr_ok (wo_mgrs w1 ! as_svcMgr s) \<and> GetConfig (wo_mgrs w1 ! as_svcMgr s) = as_cfg s
     \<and> config_ready (as_cfg s) \<and> urls_unique (as_cfg s)
     \<and> hu_provider (wo_hub w1) < length (wo_mgrs w1) \<and> mgr_ok (wo_mgrs w1 ! hu_provider (wo_hub w1))
     \<and> (\<forall>j < length (wo_mgrs w1). j \<noteq> as_svcMgr s \<longrightarrow> monitors_stopped (wo_mgrs w1 ! j))"
proof -
  have "sys_ok (s0, w0)" "eps_ok eps" using started_ok [OF assms(1-6)] by blast+
  then have "sys_ok (s, w1)" using sys_run_ok [OF assms(7)] assms(3) by blast
  then show ?thesis by (simp add: sys_ok_def GetConfig_def)
qed

fun ticks :: "sys_event list \<Rightarrow> DashboardSnapshot list" where
  "ticks [] = []"
| "ticks (SysTick snap # tr) = snap # ticks tr"
| "ticks (ev # tr) = ticks tr"

lemma ticks_snoc: "ticks (tr @ [ev]) = ticks tr @ (case ev of SysTick snap \<Rightarrow> [snap] | _ \<Rightarrow> [])"
  by (induction tr rule: ticks.induct) (auto split: sys_event.splits)

lemma sys_run_history:
  assumes "sys_run d srt eps x tr y" and "sys_ok x" and "eps_ok eps" and "slice_sort srt" and "length (hu_history (wo_hub (snd x))) \<le> historySize"
  shows "hu_history (wo_hub (snd y)) = last_n historySize (hu_history (wo_hub (snd x)) @ ticks tr)"
  using assms
proof (induction rule: sys_run.induct)
  case (move tr y ev z)
  have y: "sys_ok y" by (rule sys_run_ok [OF move.hyps(1) move.prems(1-3)])
  show ?case using sys_step_ok [OF move.hyps(2) y move.prems(2,3)] move.IH [OF move.prems]
    by (cases ev) (simp_all add: ticks_snoc last_n_last_n_snoc historySize_def)
qed (simp add: last_n_def)

text \<open>
  C8. The dashboard's history is the last two minutes. Whatever else happens, reloads included, the history that new WebSocket clients and \<^verbatim>\<open>/api/history\<close> get is the list of the
  last 120 snapshots that the broadcast has taken since the start, in their order: the bounded buffer refines the log of all of them.
\<close>

theorem history_window:
  assumes "main_start d srt serve cy opened decoded w = (w0, Inr (s0, eps))" and "wo_mgrs w = []" and "slice_sort srt"
    and "\<And>c. decoded = Inr c \<Longrightarrow> range_order (cf_Services c) (en_order (wo_env w) 0) \<and> range_order (cf_EntryPoints c) (en_order (wo_env w) 1)"
    and "range_order (cf_Services (as_cfg s0)) (en_order (wo_env w) 2)" and "range_order (cf_Services (as_cfg s0)) (en_order (wo_env w) 3)"
    and "sys_run d srt eps (s0, w0) tr (s, w1)"
  shows "hu_history (wo_hub w1) = last_n 120 (ticks tr)"
proof -
  have o: "sys_ok (s0, w0)" "eps_ok eps" "wo_hub w0 = NewHub (as_svcMgr s0) ''web/dashboard.html''" using started_ok [OF assms(1-6)] by blast+
  show ?thesis using sys_run_history [OF assms(7) o(1,2) assms(3)] o(3) by (simp add: NewHub_def historySize_def)
qed

section \<open>An example\<close>

definition demo_web :: "unit Web" where
  "demo_web = \<lparr>we_float = (\<lambda>x. None), we_Upgrade = (\<lambda>w rw r. Inr (Inr (rw, r))), we_delivers = (\<lambda>conn. True),
     we_ServeFile = (\<lambda>p w rw r. (w, Inr (rw, r))), we_Redirect = (\<lambda>p w rw r. (w, Inr (rw, r)))\<rparr>"

definition demo_boot :: "unit World" where
  "demo_boot = app_world [] [[], [], [''default''], [''default''], [''r''], [''default''], [''web'', ''dashboard''], [''web'', ''dashboard'']]"

definition demo_main :: "unit World \<times> (unit appState \<times> unit EpManager) result" where
  "demo_main = main_start demo_deps insertionSort (\<lambda>l. None) demo_crypto (\<lambda>path. True) (Inr demo_config) demo_boot"

lemma demo_certs: "\<exists>disk. ensure_certs demo_crypto (cf_TLS demo_config) w = (w\<lparr>wo_disk := disk\<rparr>, Inr ())"
proof -
  obtain disk where "GenerateSelfSigned demo_crypto ''c.pem'' ''server.key'' (wo_disk w) = (disk, None)" using demo_generated by blast
  then show ?thesis by (intro exI [of _ disk]) (simp add: ensure_certs_def demo_config_def default_str_def)
qed

lemma demo_started:
  "\<exists>w0 s0 eps. demo_main = (w0, Inr (s0, eps)) \<and> range_order (cf_Services (as_cfg s0)) [''default'']
     \<and> range_order (cf_EntryPoints (as_cfg s0)) [''web'', ''dashboard'']"
proof -
  obtain c p q where c: "Load [] [] [''default''] (Inr demo_config) = Inr c" "range_order (cf_Services c) [''default'']"
    "cf_Routers c = cf_Routers demo_config" "cf_Middlewares c = Map.empty"
    "cf_EntryPoints c = [''web'' \<mapsto> Some p, ''dashboard'' \<mapsto> Some q]" "ep_Middlewares p = []" "ep_Middlewares q = []" "cf_TLS c = cf_TLS demo_config"
    "cf_MetricsIntervalSec c = 10" using demo_load by blast
  let ?s0 = "\<lparr>as_cfg = c, as_svcMgr = 0, as_routerMgr = NewRouteManager\<rparr>"
  have b: "en_order (wo_env demo_boot) = (\<lambda>n. if n < 8 then [[], [], [''default''], [''default''], [''r''], [''default''], [''web'', ''dashboard''], [''web'', ''dashboard'']] ! n else [])"
    by (simp add: demo_boot_def eval_nat_numeral)
  obtain w1 where l: "load_config (Inr demo_config) demo_boot = (w1, Inr c)" "en_order (wo_env w1) = (\<lambda>n. en_order (wo_env demo_boot) (n + 3))"
    using load_config_parts [of "Inr demo_config" demo_boot] c(1) by (simp add: b) (metis prod.collapse)
  let ?w2 = "snd (InitFileLogger True w1)"
  obtain s0 w3 where i: "initialize demo_deps insertionSort c (?s0, ?w2) = ((s0, w3), Inr ())"
    using demo_setup [OF c(1-4), of ?w2 ?s0] by (auto simp: l(2) b)
  have s0: "as_cfg s0 = c" "en_order (wo_env w3) = (\<lambda>n. en_order (wo_env demo_boot) (n + 5))"
    using initialize_table [OF i] by (simp_all add: l(2) add.commute)
  let ?w3 = "snd (draw_order (w3\<lparr>wo_hub := NewHub (as_svcMgr s0) ''web/dashboard.html''\<rparr>))"
  obtain disk where dk: "ensure_certs demo_crypto (cf_TLS c) ?w3 = (?w3\<lparr>wo_disk := disk\<rparr>, Inr ())" using demo_certs [of ?w3] c(8) by auto
  have rp: "start_reporter ks (cf_MetricsIntervalSec c) insts = Inr ()" for ks insts
    by (simp add: start_reporter_def StartReporter_def c(9) seconds_def i64_def split: list.splits)
  have "\<exists>w0 eps. demo_main = (w0, Inr (s0, eps))"
    unfolding demo_main_def main_start_def l(1)
    using i dk by (simp add: rp Let_def case_prod_beta c(5-7) s0(2) b ResolveMiddlewares_def)
  moreover have "range_order (cf_EntryPoints c) [''web'', ''dashboard'']" by (simp add: c(5) range_order_def insert_commute)
  ultimately show ?thesis using s0(1) c(2) by auto
qed

theorem start_serves_configuration_witness:
  "\<exists>w0 s0 eps ep. demo_main = (w0, Inr (s0, eps)) \<and> ep_Get eps ''web'' = Some ep
     \<and> srv_Addr (ei_server ep) = ep_Address (ei_Config ep)"
proof -
  obtain w0 s0 eps where s: "demo_main = (w0, Inr (s0, eps))" "range_order (cf_EntryPoints (as_cfg s0)) [''web'', ''dashboard'']"
    using demo_started by blast
  have "range_order (cf_EntryPoints (as_cfg s0)) (en_order (wo_env demo_boot) 6)" using s(2) by (simp add: demo_boot_def)
  note st = start_serves_configuration [OF s(1) [unfolded demo_main_def] this]
  have "''web'' \<in> dom (cf_EntryPoints (as_cfg s0))" using s(2) unfolding range_order_def by (metis list.set_intros(1))
  with st have "''web'' \<in> dom (em_entrypoints eps)" by (simp only:)
  then obtain ep where "ep_Get eps ''web'' = Some ep" by (auto simp: ep_Get_def)
  with st s(1) show ?thesis by blast
qed

lemma demo_run:
  "\<exists>w0 s0 eps snap w1. demo_main = (w0, Inr (s0, eps)) \<and> range_order (cf_Services (as_cfg s0)) [''default'']
     \<and> sys_run demo_deps insertionSort eps (s0, w0) [SysTick snap, SysReport] (s0, w1)"
proof -
  obtain w0 s0 eps where s: "demo_main = (w0, Inr (s0, eps))" "range_order (cf_Services (as_cfg s0)) [''default'']" using demo_started by blast
  define snap where "snap = fst (snap_of (hu_provider (wo_hub w0)) (w0\<lparr>wo_env := wo_env w0\<rparr>))"
  let ?w = "broadcast_tick demo_web [] (w0\<lparr>wo_env := wo_env w0\<rparr>)"
  have "sys_step demo_deps insertionSort eps (s0, w0) (SysTick snap) (s0, ?w)" by (rule sys_step.tick) (simp add: snap_def)
  from sys_run.move [OF sys_run.start this] have "sys_run demo_deps insertionSort eps (s0, w0) [SysTick snap] (s0, ?w)" by simp
  from sys_run.move [OF this sys_step.report [of _ _ _ s0 ?w 0 "''default''" 0 "[]"]]
  have "sys_run demo_deps insertionSort eps (s0, w0) [SysTick snap, SysReport] (s0, report_tick 0 ''default'' 0 [] [] [] ?w)" by simp
  with s show ?thesis by blast
qed

theorem system_invariant_witness:
  "\<exists>w0 s0 eps snap w1. demo_main = (w0, Inr (s0, eps)) \<and> sys_run demo_deps insertionSort eps (s0, w0) [SysTick snap, SysReport] (s0, w1)
     \<and> (\<forall>m \<in> set (wo_mgrs w1). mgr_ok m)"
proof -
  obtain w0 s0 eps snap w1 where s: "demo_main = (w0, Inr (s0, eps))" "range_order (cf_Services (as_cfg s0)) [''default'']"
    "sys_run demo_deps insertionSort eps (s0, w0) [SysTick snap, SysReport] (s0, w1)" using demo_run by blast
  have "\<forall>m \<in> set (wo_mgrs w1). mgr_ok m"
    using system_invariant [OF s(1) [unfolded demo_main_def] _ go_sort.slice_sort_axioms _ _ _ s(3)] s(2)
    by (simp add: demo_boot_def demo_config_def)
  with s show ?thesis by blast
qed

theorem history_window_witness:
  "\<exists>w0 s0 eps snap w1. demo_main = (w0, Inr (s0, eps)) \<and> sys_run demo_deps insertionSort eps (s0, w0) [SysTick snap, SysReport] (s0, w1)
     \<and> hu_history (wo_hub w1) = [snap]"
proof -
  obtain w0 s0 eps snap w1 where s: "demo_main = (w0, Inr (s0, eps))" "range_order (cf_Services (as_cfg s0)) [''default'']"
    "sys_run demo_deps insertionSort eps (s0, w0) [SysTick snap, SysReport] (s0, w1)" using demo_run by blast
  have "hu_history (wo_hub w1) = last_n 120 (ticks [SysTick snap, SysReport])"
    by (rule history_window [OF s(1) [unfolded demo_main_def] _ go_sort.slice_sort_axioms _ _ _ s(3)])
      (use s(2) in \<open>simp_all add: demo_boot_def demo_config_def\<close>)
  then have "hu_history (wo_hub w1) = [snap]" by (simp add: last_n_def)
  with s show ?thesis by blast
qed

end
