(* ===== verification/Api.thy ===== *)
theory Api
  imports System
begin

text \<open>
  What the dashboard's endpoints answer: the body of the health endpoint down to its text, and what it says of the backends.
\<close>

section \<open>The text of the health report\<close>

lemma escape_plain:
  "list_all (\<lambda>c. 0x20 \<le> byte c \<and> byte c < 0x80 \<and> byte c \<notin> {0x22, 0x5C} \<and> c \<notin> {CHR ''<'', CHR ''>'', CHR ''&''}) s \<Longrightarrow> escape s = s"
  by (induction s) (auto simp: escape_byte_def byte_def)

lemma json_string_plain:
  "list_all (\<lambda>c. 0x20 \<le> byte c \<and> byte c < 0x80 \<and> byte c \<notin> {0x22, 0x5C} \<and> c \<notin> {CHR ''<'', CHR ''>'', CHR ''&''}) s \<Longrightarrow> json_string s = dquoted s"
  by (simp add: json_string_def dquoted_def escape_plain)

text \<open>The body: \<open>healthy_count\<close>, \<open>status\<close> and \<open>total_count\<close>, and a line feed.\<close>

definition quoted_key :: "string \<Rightarrow> string" where
  "quoted_key k = CHR 0x22 # k @ [CHR 0x22, CHR '':'']"

definition health_text :: "bool \<Rightarrow> int \<Rightarrow> int \<Rightarrow> string" where
  "health_text up healthy backends =
     CHR ''{'' # quoted_key ''healthy_count'' @ Itoa healthy @ '','' @ quoted_key ''status''
       @ dquoted (if up then ''healthy'' else ''unhealthy'') @ '','' @ quoted_key ''total_count'' @ Itoa backends @ ''}'' @ [CHR 0x0A]"

lemma json_health_text:
  "json_text flt (health_body (if up then ''healthy'' else ''unhealthy'') n k) = Inr (butlast (health_text up n k))"
proof -
  have "json_string ''healthy_count'' = dquoted ''healthy_count''" "json_string ''status'' = dquoted ''status''"
    "json_string ''total_count'' = dquoted ''total_count''" "json_string ''healthy'' = dquoted ''healthy''" "json_string ''unhealthy'' = dquoted ''unhealthy''"
    by (rule json_string_plain, simp add: byte_def)+
  then show ?thesis by (cases up) (simp_all add: health_body_def health_text_def quoted_key_def dquoted_def butlast_append)
qed

lemmas json_health_texts = json_health_text [of _ True, simplified] json_health_text [of _ False, simplified]

lemma health_text_line: "butlast (health_text up n k) @ [CHR 0x0A] = health_text up n k"
  by (simp add: health_text_def butlast_append)

section \<open>The health endpoint\<close>

definition backends :: "Manager \<Rightarrow> url set" where
  "backends m = (\<Union>k \<in> dom (mg_instances m). set (service_urls (mg_cfg m) k))"

text \<open>What the handler answers, for a given snapshot.\<close>

lemma health_reply:
  assumes "snap_of (hu_provider (wo_hub w)) w = (snap, w1)"
  shows "\<exists>c. HandleAPIHealth web w (ConnW (new_Conn False)) r = (w1, Inr (ConnW c, r))
     \<and> cn_status c = Some (if ds_HealthyCount snap > 0 then 200 else 503)
     \<and> cn_body c = (if ds_HealthyCount snap > 0 then health_text True (ds_HealthyCount snap) (ds_TotalCount snap)
                   else health_text False 0 (ds_TotalCount snap))"
proof -
  have n: "butlast (health_text up n k) @ [CHR 0x0A] \<noteq> []" for up n k by simp
  show ?thesis
    by (auto simp: HandleAPIHealth_def assms Let_def api_headers_def new_Conn_def conn_WriteHeader_def encode_to_def json_health_texts reply_def
        conn_Write_def conn_implicit_def bodyAllowedForStatus_def health_text_line)
qed

text \<open>
  C37. The health endpoint tells the truth. If the dashboard's provider is a well-formed manager, \<^verbatim>\<open>/api/health\<close> answers 200 exactly when some service counts some of its
  backends as healthy, and 503 otherwise; the body gives the number of the healthy backends and of all, over all services, each backend once.
\<close>

theorem health_endpoint:
  assumes "mgr_ok m" and "wo_mgrs w ! hu_provider (wo_hub w) = m"
    and "range_order (mg_instances m) (en_order (wo_env w) 0)"
    and "range_order (ds_Servers (fst (snap_of (hu_provider (wo_hub w)) w))) (en_order (wo_env w) 1)"
  shows "\<exists>w1 c. HandleAPIHealth web w (ConnW (new_Conn False)) r = (w1, Inr (ConnW c, r))
     \<and> cn_status c = Some (if healthy_urls m = {} then 503 else 200)
     \<and> cn_body c = health_text (healthy_urls m \<noteq> {}) (int (card (healthy_urls m))) (int (card (backends m)))"
proof -
  let ?a = "hu_provider (wo_hub w)"
  obtain snap w1 where s: "snap_of ?a w = (snap, w1)" by (metis surj_pair)
  then obtain now ord m1 where d: "Manager_DashboardSnap (en_order (wo_env w) 0) now ord (en_order (wo_env w) 1) m = (m1, snap)"
    using assms(2) by (auto simp: snap_of_def Let_def case_prod_beta prod_eq_iff draw_orders_def)
  have o: "range_order (ds_Servers snap) (en_order (wo_env w) 1)" using assms(4) s by simp
  have h: "ds_HealthyCount snap = int (card (healthy_urls m))" by (rule snap_healthy [OF assms(1,3) d o])
  note sv = snap_servers [OF assms(1,3) d]
  have dom: "dom (ds_Servers snap) = backends m" using sv(1) by (simp add: backends_def)
  have t: "ds_TotalCount snap = int (card (backends m))" using sv(7) o dom by (metis distinct_card range_order_def)
  have "finite (backends m)" using o dom unfolding range_order_def by (metis List.finite_set)
  moreover have "healthy_urls m \<subseteq> backends m"
  proof
    fix u assume "u \<in> healthy_urls m"
    then obtain k st where k: "servers_of m k u = Some st" by (auto simp: healthy_urls_def)
    then have "u \<in> set (service_urls (mg_cfg m) k)" using servers_of_dom [OF assms(1)] by blast
    moreover have "k \<in> dom (mg_instances m)" using k by (auto simp: servers_of_def split: option.splits)
    ultimately show "u \<in> backends m" by (auto simp: backends_def)
  qed
  ultimately have "finite (healthy_urls m)" by (rule rev_finite_subset)
  then have "0 < ds_HealthyCount snap \<longleftrightarrow> healthy_urls m \<noteq> {}" by (simp add: h card_gt_0_iff)
  then show ?thesis using health_reply [OF s, of web r] h t by (cases "healthy_urls m = {}") auto
qed

theorem health_endpoint_witness:
  "\<exists>m w1 c. mgr_ok m \<and> HandleAPIHealth demo_web (app_world [m] [[''default''], [''http://a'', ''http://b'']]) (ConnW (new_Conn False)) demo_request
       = (w1, Inr (ConnW c, demo_request))
     \<and> cn_status c = Some (if healthy_urls m = {} then 503 else 200)"
proof -
  obtain c0 m inst where m: "mgr_ok m" "range_order (mg_instances m) [''default'']" "mg_instances m ''default'' = Some inst"
    "range_order (co_servers (is_Collector inst)) [''http://a'', ''http://b'']" using demo_manager by blast
  let ?w = "app_world [m] [[''default''], [''http://a'', ''http://b'']]"
  have p: "hu_provider (wo_hub ?w) = 0" by (simp add: app_world_def demo_world_def)
  have "ds_Servers (fst (snap_of 0 ?w)) = co_servers (is_Collector inst)"
    using m(3) by (simp add: snap_of_def Manager_DashboardSnap_def Let_def case_prod_beta DashboardSnap_parts)
  with m(4) have o: "range_order (ds_Servers (fst (snap_of (hu_provider (wo_hub ?w)) ?w))) (en_order (wo_env ?w) 1)" by (simp add: p)
  have "wo_mgrs ?w ! hu_provider (wo_hub ?w) = m" "range_order (mg_instances m) (en_order (wo_env ?w) 0)" using m(2) by (simp_all add: p)
  from health_endpoint [OF m(1) this o, of demo_web demo_request] m(1) show ?thesis by blast
qed

end
