(* ===== verification/Watch.thy ===== *)
theory Watch
  imports Prelude
begin

text \<open>
  The watcher of the configuration file, \<^verbatim>\<open>src/internal/hotreload/watcher.go\<close>: the loop over the events of package \<^verbatim>\<open>fsnotify\<close>, the timer by which it waits until
  300 milliseconds have passed without an event, and the timers that watch a file again which an editor has replaced. Times are in nanoseconds. A timer of Go can
  run late, so that time and timers are steps of their own.
\<close>

section \<open>State and operations\<close>

datatype fs_op = FsCreate | FsWrite | FsRemove | FsRename | FsChmod

text \<open>
  \<open>wa_timer\<close> is the time at which the pending timer is due, \<open>wa_waiting\<close> counts callbacks that wait for the lock, \<open>wa_running\<close> tells that one holds it,
  \<open>wa_readds\<close> has the times at which the file is to be watched again, and \<open>wa_done\<close> tells that \<^verbatim>\<open>Stop\<close> has closed the channel.
\<close>

record Watcher =
  wa_now :: int
  wa_timer :: "int option"
  wa_waiting :: nat
  wa_running :: bool
  wa_readds :: "int list"
  wa_done :: bool
  wa_returned :: bool

text \<open>\<open>created\<close> and \<open>added\<close> are the errors of \<^verbatim>\<open>fsnotify.NewWatcher\<close> and of its \<^verbatim>\<open>Add\<close>.\<close>

definition NewWatcher :: "int \<Rightarrow> string option \<Rightarrow> string option \<Rightarrow> Watcher result" where
  "NewWatcher now created added =
     (case created of
        Some err \<Rightarrow> Inl (GoError err)
      | None \<Rightarrow>
          (case added of
             Some err \<Rightarrow> Inl (GoError err)
           | None \<Rightarrow> Inr \<lparr>wa_now = now, wa_timer = None, wa_waiting = 0, wa_running = False, wa_readds = [], wa_done = False, wa_returned = False\<rparr>))"

text \<open>\<^verbatim>\<open>resetTimer\<close>: a timer that has not fired is stopped, and a new one is started.\<close>

definition resetTimer :: "Watcher \<Rightarrow> Watcher" where
  "resetTimer w = w\<lparr>wa_timer := Some (wa_now w + 300000000)\<rparr>"

definition on_event :: "fs_op list \<Rightarrow> Watcher \<Rightarrow> Watcher" where
  "on_event ops w =
     (let w1 = (if FsWrite \<in> set ops \<or> FsCreate \<in> set ops then resetTimer w else w)
      in if FsRemove \<in> set ops \<or> FsRename \<in> set ops
         then resetTimer (w1\<lparr>wa_readds := wa_readds w1 @ [wa_now w1 + 100000000]\<rparr>)
         else w1)"

text \<open>\<^verbatim>\<open>Stop\<close>; a second call closes a closed channel.\<close>

definition watcher_Stop :: "Watcher \<Rightarrow> Watcher result" where
  "watcher_Stop w = (if wa_done w then Inl (GoPanic ''close of closed channel'') else Inr (w\<lparr>wa_done := True\<rparr>))"

section \<open>Steps\<close>

text \<open>What can be seen of a step: an event that the loop received, a timer that fired, a reload that started, or nothing.\<close>

datatype watch_label = Seen int "fs_op list" | Fired int | Reloading int | Silent

inductive watch_step :: "Watcher \<Rightarrow> watch_label \<Rightarrow> Watcher \<Rightarrow> bool" where
  elapse: "wa_now w \<le> t \<Longrightarrow> watch_step w Silent (w\<lparr>wa_now := t\<rparr>)"
| event: "\<not> wa_returned w \<Longrightarrow> watch_step w (Seen (wa_now w) ops) (on_event ops w)"
| error: "\<not> wa_returned w \<Longrightarrow> watch_step w Silent w"
| fire: "wa_timer w = Some due \<Longrightarrow> due \<le> wa_now w
    \<Longrightarrow> watch_step w (Fired (wa_now w)) (w\<lparr>wa_timer := None, wa_waiting := Suc (wa_waiting w)\<rparr>)"
| reload: "wa_waiting w > 0 \<Longrightarrow> \<not> wa_running w
    \<Longrightarrow> watch_step w (Reloading (wa_now w)) (w\<lparr>wa_waiting := wa_waiting w - 1, wa_running := True\<rparr>)"
| reloaded: "wa_running w \<Longrightarrow> watch_step w Silent (w\<lparr>wa_running := False\<rparr>)"
| readd: "due \<in> set (wa_readds w) \<Longrightarrow> due \<le> wa_now w \<Longrightarrow> watch_step w Silent (w\<lparr>wa_readds := remove1 due (wa_readds w)\<rparr>)"
| stop: "watcher_Stop w = Inr w1 \<Longrightarrow> watch_step w Silent w1"
| return: "wa_done w \<Longrightarrow> watch_step w Silent (w\<lparr>wa_returned := True\<rparr>)"

inductive_cases watch_stepE: "watch_step w l w1"

inductive watch_run :: "Watcher \<Rightarrow> watch_label list \<Rightarrow> Watcher \<Rightarrow> bool" for w0 where
  idle: "watch_run w0 [] w0"
| more: "watch_run w0 tr w \<Longrightarrow> watch_step w l w1 \<Longrightarrow> watch_run w0 (tr @ [l]) w1"

section \<open>Debouncing\<close>

definition relevant :: "fs_op list \<Rightarrow> bool" where
  "relevant ops \<longleftrightarrow> set ops \<inter> {FsWrite, FsCreate, FsRemove, FsRename} \<noteq> {}"

text \<open>A label that ends the wait of an earlier event: a later event, or the timer.\<close>

fun ends_wait :: "watch_label \<Rightarrow> bool" where
  "ends_wait (Seen t ops) = relevant ops"
| "ends_wait (Fired t) = True"
| "ends_wait l = False"

text \<open>The event that the timer of a state waits for.\<close>

definition waits_for :: "watch_label list \<Rightarrow> int \<Rightarrow> bool" where
  "waits_for tr t \<longleftrightarrow> (\<exists>tr1 ops tr2. tr = tr1 @ Seen t ops # tr2 \<and> relevant ops \<and> (\<forall>l \<in> set tr2. \<not> ends_wait l))"

lemma waits_for_snoc:
  "waits_for (tr @ [l]) t \<longleftrightarrow> (if ends_wait l then \<exists>ops. l = Seen t ops else waits_for tr t)"
proof (cases "ends_wait l")
  case True
  have "waits_for (tr @ [l]) t \<longleftrightarrow> (\<exists>ops. l = Seen t ops)"
  proof
    assume "waits_for (tr @ [l]) t"
    then obtain tr1 ops tr2 where s: "tr @ [l] = tr1 @ Seen t ops # tr2" "\<forall>l \<in> set tr2. \<not> ends_wait l" by (auto simp: waits_for_def)
    with True show "\<exists>ops. l = Seen t ops" by (cases tr2 rule: rev_cases) auto
  next
    assume "\<exists>ops. l = Seen t ops"
    with True show "waits_for (tr @ [l]) t" unfolding waits_for_def by (intro exI [of _ tr]) auto
  qed
  with True show ?thesis by simp
next
  case False
  have "waits_for (tr @ [l]) t \<longleftrightarrow> waits_for tr t"
  proof
    assume "waits_for (tr @ [l]) t"
    then obtain tr1 ops tr2 where s: "tr @ [l] = tr1 @ Seen t ops # tr2" "relevant ops" "\<forall>l \<in> set tr2. \<not> ends_wait l" by (auto simp: waits_for_def)
    show "waits_for tr t"
    proof (cases tr2 rule: rev_cases)
      case Nil
      then show ?thesis using s False by auto
    next
      case (snoc tr3 x)
      then show ?thesis using s unfolding waits_for_def by (intro exI [of _ tr1]) auto
    qed
  next
    assume "waits_for tr t"
    then obtain tr1 ops tr2 where "tr = tr1 @ Seen t ops # tr2" "relevant ops" "\<forall>l \<in> set tr2. \<not> ends_wait l" by (auto simp: waits_for_def)
    with False show "waits_for (tr @ [l]) t" unfolding waits_for_def by (intro exI [of _ tr1] exI [of _ ops] exI [of _ "tr2 @ [l]"]) auto
  qed
  with False show ?thesis by simp
qed

lemma timer_on_event: "wa_timer (on_event ops w) = (if relevant ops then Some (wa_now w + 300000000) else wa_timer w)"
  by (auto simp: on_event_def resetTimer_def relevant_def Let_def)

lemma timer_waits:
  assumes "watch_run w0 tr w" and "wa_timer w0 = None"
  shows "wa_timer w = Some due \<longleftrightarrow> waits_for tr (due - 300000000)"
  using assms
proof (induction arbitrary: due rule: watch_run.induct)
  case idle
  then show ?case by (simp add: waits_for_def)
next
  case (more tr w l w1)
  have ih: "wa_timer w = Some due \<longleftrightarrow> waits_for tr (due - 300000000)" by (rule more.IH [OF more.prems])
  from more.hyps(2) show ?case
  proof cases
    case (event ops)
    have "wa_now w + 300000000 = due \<longleftrightarrow> wa_now w = due - 300000000" by linarith
    then show ?thesis using event ih by (simp add: waits_for_snoc timer_on_event)
  next
    case stop
    then show ?thesis using ih by (auto simp: waits_for_snoc watcher_Stop_def split: if_splits)
  qed (simp_all add: waits_for_snoc ih)
qed

text \<open>
  C16. Reloads are debounced. In every run of the watcher, the timer fires only when at least 300 milliseconds have passed since some write, creation, removal or renaming of the file, with no
  other such event and no other firing after it; so each firing has an event of its own, and a burst of events causes one. And no event is lost: as long as neither a later event nor the timer has
  followed an event, the timer is set to 300 milliseconds after it, and can fire from then on, even if the watcher was stopped meanwhile.
\<close>

theorem reload_debounced:
  assumes "watch_run w0 tr w" and "wa_timer w0 = None"
  shows "(\<forall>w1 t. watch_step w (Fired t) w1 \<longrightarrow>
      (\<exists>tr1 t0 ops tr2. tr = tr1 @ Seen t0 ops # tr2 \<and> relevant ops \<and> (\<forall>l \<in> set tr2. \<not> ends_wait l) \<and> t0 + 300000000 \<le> t))
    \<and> (\<forall>tr1 t0 ops tr2. tr = tr1 @ Seen t0 ops # tr2 \<and> relevant ops \<and> (\<forall>l \<in> set tr2. \<not> ends_wait l) \<longrightarrow>
      wa_timer w = Some (t0 + 300000000) \<and> (t0 + 300000000 \<le> wa_now w \<longrightarrow> (\<exists>w1. watch_step w (Fired (wa_now w)) w1)))"
proof (intro conjI allI impI)
  fix w1 t assume "watch_step w (Fired t) w1"
  then obtain due where d: "wa_timer w = Some due" "due \<le> t" by cases auto
  with timer_waits [OF assms, of due] have "waits_for tr (due - 300000000)" by simp
  with d(2) show "\<exists>tr1 t0 ops tr2. tr = tr1 @ Seen t0 ops # tr2 \<and> relevant ops \<and> (\<forall>l \<in> set tr2. \<not> ends_wait l) \<and> t0 + 300000000 \<le> t"
    unfolding waits_for_def by force
next
  fix tr1 t0 ops tr2
  assume "tr = tr1 @ Seen t0 ops # tr2 \<and> relevant ops \<and> (\<forall>l \<in> set tr2. \<not> ends_wait l)"
  then have "waits_for tr (t0 + 300000000 - 300000000)" unfolding waits_for_def by auto
  then show t: "wa_timer w = Some (t0 + 300000000)" using timer_waits [OF assms, of "t0 + 300000000"] by simp
  show "\<exists>w1. watch_step w (Fired (wa_now w)) w1" if "t0 + 300000000 \<le> wa_now w" using watch_step.fire [OF t that] by blast
qed

theorem reload_debounced_witness:
  "\<exists>w0 w. NewWatcher 0 None None = Inr w0 \<and> watch_run w0 [Seen 0 [FsWrite], Silent, Seen 7 [FsWrite]] w \<and> wa_timer w = Some 300000007"
proof -
  obtain w0 where w0: "NewWatcher 0 None None = Inr w0" "wa_now w0 = 0" "wa_timer w0 = None" "\<not> wa_returned w0" by (simp add: NewWatcher_def)
  let ?w1 = "on_event [FsWrite] w0" and ?w2 = "on_event [FsWrite] w0\<lparr>wa_now := 7\<rparr>"
  have keep: "wa_now (on_event [FsWrite] w) = wa_now w" "wa_returned (on_event [FsWrite] w) = wa_returned w" for w
    by (simp_all add: on_event_def resetTimer_def)
  have "watch_run w0 [Seen 0 [FsWrite]] ?w1" using watch_run.more [OF watch_run.idle watch_step.event, of w0 "[FsWrite]"] w0 by simp
  from watch_run.more [OF this watch_step.elapse [of ?w1 7]] have "watch_run w0 [Seen 0 [FsWrite], Silent] ?w2" by (simp add: keep w0(2))
  from watch_run.more [OF this watch_step.event [of ?w2 "[FsWrite]"]]
  have r: "watch_run w0 [Seen 0 [FsWrite], Silent, Seen 7 [FsWrite]] (on_event [FsWrite] ?w2)" by (simp add: keep w0(4))
  have "wa_timer (on_event [FsWrite] ?w2) = Some (7 + 300000000)"
    using reload_debounced [OF r w0(3), THEN conjunct2, rule_format, of "[Seen 0 [FsWrite], Silent]" 7 "[FsWrite]" "[]"]
    by (simp add: relevant_def)
  with r w0(1) show ?thesis by auto
qed

end
