(* ===== verification/Tls.thy ===== *)
theory Tls
  imports System
begin

text \<open>
  The entrypoints and the certificate together: the files that \<^verbatim>\<open>main\<close> has written are those that the entrypoint \<^verbatim>\<open>web\<close> listens with.
\<close>

lemma ensured_files:
  assumes "ensure_certs cy tls w = (w1, Inr ())" and "tl_Enabled tls" and "tl_AutoGenerate tls"
  shows "fileExists (wo_disk w1) (default_str ''server.crt'' (tl_CertFile tls)) \<and> fileExists (wo_disk w1) (default_str ''server.key'' (tl_KeyFile tls))"
  using assms generated_exist [of cy "default_str ''server.crt'' (tl_CertFile tls)" "default_str ''server.key'' (tl_KeyFile tls)" "wo_disk w"]
  by (auto simp: ensure_certs_def split: prod.splits option.splits)

lemma started_disk:
  assumes "main_start d srt serve cy opened decoded w = (w1, Inr (s, m))"
    and "tl_Enabled (cf_TLS (as_cfg s))" and "tl_AutoGenerate (cf_TLS (as_cfg s))"
  shows "fileExists (wo_disk w1) (default_str ''server.crt'' (tl_CertFile (cf_TLS (as_cfg s))))
     \<and> fileExists (wo_disk w1) (default_str ''server.key'' (tl_KeyFile (cf_TLS (as_cfg s))))"
proof (rule main_start_parts [OF assms(1)])
  fix c w2 w3 w4 m1 b w5
  assume p: "as_cfg s = c" "ensure_certs cy (cf_TLS c) (snd (draw_order (w3\<lparr>wo_hub := NewHub (as_svcMgr s) ''web/dashboard.html''\<rparr>))) = (w4, Inr ())"
    "entrypoints_start d (en_order (wo_env w) 6) c (NewBuilder c (Some (as_svcMgr s)), snd (draw_order w4)) ep_NewManager = ((b, w5), Inr m1)"
    "wo_disk w1 = wo_disk w5"
  from entrypoints_start_all [OF p(3), of "as_svcMgr s"] obtain n where "grows (snd (draw_order w4)) w5 n" by (auto simp: ep_NewManager_def)
  then have "wo_disk w1 = wo_disk w4" using entry_world(3) [OF p(2)] p(4) by simp
  then show ?thesis using ensured_files [OF p(2)] assms(2,3) p(1) by simp
qed

text \<open>The entrypoints of a program that has started, by their configuration.\<close>

lemma started_entry:
  assumes "main_start d srt serve cy opened decoded w = (w1, Inr (s, m))"
    and "range_order (cf_EntryPoints (as_cfg s)) (en_order (wo_env w) 6)" and "cf_EntryPoints (as_cfg s) k = Some (Some epCfg)"
  shows "\<exists>ep. ep_Get m k = Some ep \<and> ei_Config ep = epCfg \<and> srv_Addr (ei_server ep) = ep_Address epCfg"
proof (rule main_start_parts [OF assms(1)])
  fix c w2 w3 w4 m1 b w5
  assume p: "as_cfg s = c" "em_entrypoints m = em_entrypoints m1"
    "entrypoints_start d (en_order (wo_env w) 6) c (NewBuilder c (Some (as_svcMgr s)), snd (draw_order w4)) ep_NewManager = ((b, w5), Inr m1)"
  from entrypoints_start_all [OF p(3), of "as_svcMgr s"] have e: "dom (em_entrypoints m1) = {k \<in> set (en_order (wo_env w) 6). cf_EntryPoints c k \<noteq> None}"
    "\<forall>k ep. em_entrypoints m1 k = Some ep \<longrightarrow> entry_of d c (as_svcMgr s) k ep" by (auto simp: ep_NewManager_def)
  have "k \<in> dom (em_entrypoints m1)" using e(1) assms(2,3) unfolding p(1) range_order_def by auto
  then obtain ep where ep: "em_entrypoints m1 k = Some ep" by blast
  with e(2) have "entry_of d c (as_svcMgr s) k ep" by blast
  then show ?thesis using ep assms(3) p(1,2) by (simp add: entry_of_def ep_Get_def)
qed

text \<open>
  C39. TLS works out of the box. If the file configures no entrypoints but turns TLS on with a generated certificate, then a program that has started serves the entrypoint
  \<^verbatim>\<open>web\<close> at the configured port over TLS, with a certificate and a key file that both exist.
\<close>

theorem tls_files_exist:
  assumes "main_start d srt serve cy opened (Inr c0) w = (w1, Inr (s, m))"
    and "cf_EntryPoints c0 = Map.empty" and "range_order (cf_EntryPoints c0) (en_order (wo_env w) 1)"
    and "tl_Enabled (cf_TLS c0)" and "tl_AutoGenerate (cf_TLS c0)"
    and "range_order (cf_EntryPoints (as_cfg s)) (en_order (wo_env w) 6)"
  shows "\<exists>ep cert key. ep_Get m ''web'' = Some ep
     \<and> start_listener ep = ListenAndServeTLS ('':'' @ Itoa (cf_ListenPort (as_cfg s))) cert key
     \<and> fileExists (wo_disk w1) cert \<and> fileExists (wo_disk w1) key"
proof (rule main_start_parts [OF assms(1)])
  fix c
  assume p: "loaded (Inr c0) w = Inr c" "as_cfg s = c"
  have "en_order (wo_env w) 1 = []" using assms(2,3) by (simp add: range_order_def)
  with p(1) have "setDefaults (en_order (wo_env w) 0) [] c0 = Inr c" by (auto simp: loaded_def Load_def split: sum.splits)
  note l = legacy_listens [OF this]
  then obtain web where web: "cf_EntryPoints c ''web'' = Some (Some web)" "ep_Address web = '':'' @ Itoa (cf_ListenPort c)" "ep_Protocol web = ''https''"
    "ep_TLS web = Some (cf_TLS c)" using assms(4) by auto
  from started_entry [OF assms(1,6), of "''web''" web] web p(2) obtain ep where ep: "ep_Get m ''web'' = Some ep" "ei_Config ep = web" "srv_Addr (ei_server ep) = ep_Address web"
    by blast
  then have "start_listener ep = ListenAndServeTLS ('':'' @ Itoa (cf_ListenPort c)) (default_str ''server.crt'' (tl_CertFile (cf_TLS c))) (default_str ''server.key'' (tl_KeyFile (cf_TLS c)))"
    by (simp add: start_listener_def web)
  with ep(1) started_disk [OF assms(1)] assms(4,5) l(1) p(2) show ?thesis by auto
qed

theorem tls_files_exist_witness:
  "\<exists>w0 s0 eps ep cert key. demo_main = (w0, Inr (s0, eps)) \<and> ep_Get eps ''web'' = Some ep
     \<and> start_listener ep = ListenAndServeTLS ('':'' @ Itoa (cf_ListenPort (as_cfg s0))) cert key \<and> fileExists (wo_disk w0) cert \<and> fileExists (wo_disk w0) key"
proof -
  obtain w0 s0 eps where s: "demo_main = (w0, Inr (s0, eps))" "range_order (cf_EntryPoints (as_cfg s0)) [''web'', ''dashboard'']"
    using demo_started by blast
  have "range_order (cf_EntryPoints (as_cfg s0)) (en_order (wo_env demo_boot) 6)" using s(2) by (simp add: demo_boot_def)
  from tls_files_exist [OF s(1) [unfolded demo_main_def] _ _ _ _ this] s(1) show ?thesis by (force simp: demo_boot_def demo_config_def)
qed

end
