(* ===== verification/ConfigText.thy ===== *)
theory ConfigText
  imports ConfigJson
begin

text \<open>
  The configuration survives its way through JSON: what the dashboard shows of it can be saved and loaded again.
\<close>

section \<open>Reading what was written\<close>

definition distinct_keys :: "'a fields \<Rightarrow> bool" where
  "distinct_keys fs \<longleftrightarrow> distinct (map (fold_name \<circ> fst) fs)"

definition reads :: "'a fields \<Rightarrow> 'a \<Rightarrow> (string \<times> json) list \<Rightarrow> 'a \<Rightarrow> bool" where
  "reads fs x ms y \<longleftrightarrow> read_members fs ms x = Inr y"

lemma read_field_key: "distinct_keys fs \<Longrightarrow> (k, rd) \<in> set fs \<Longrightarrow> read_field fs k = rd"
proof (induction fs)
  case (Cons f fs)
  obtain n r where f: "f = (n, r)" by (cases f)
  show ?case
  proof (cases "f = (k, rd)")
    case False
    then have "(k, rd) \<in> set fs" using Cons.prems(2) by simp
    moreover from this have "fold_name k \<noteq> fold_name n" using Cons.prems(1) by (force simp: distinct_keys_def f)
    ultimately show ?thesis using Cons by (auto simp: f same_key_def distinct_keys_def fun_eq_iff)
  qed (simp add: same_key_def fun_eq_iff)
qed simp

lemma field_in: "distinct_keys fs \<Longrightarrow> field k get put read \<in> set fs \<Longrightarrow> read j (get x) = Inr v \<Longrightarrow> read_field fs k j x = Inr (put v x)"
  using read_field_key [of fs k] by (auto simp: field_def)

lemma reads_member:
  assumes "distinct_keys fs" and "field k get put read \<in> set fs" and "read j (get x) = Inr v" and "reads fs (put v x) ms y"
  shows "reads fs x (member k j @ ms) y"
  using field_in [OF assms(1,2,3)] assms(4) by (simp add: reads_def member_def)

lemma reads_optional:
  assumes "distinct_keys fs" and "field k get put read \<in> set fs" and "\<not> z \<Longrightarrow> read j (get x) = Inr v" and "z \<Longrightarrow> put v x = x" and "reads fs (put v x) ms y"
  shows "reads fs x (optional k z j @ ms) y"
  using field_in [OF assms(1,2), of j x v] assms(3-5) by (cases z) (simp_all add: reads_def optional_def)

lemma reads_done: "x = y \<Longrightarrow> reads fs x [] y"
  by (simp add: reads_def)

lemma read_struct_reads: "reads fs x (ms @ []) y \<Longrightarrow> read_struct fs (JObj ms) x = Inr y"
  by (simp add: reads_def)

lemma read_values:
  "read_string (JStr s) old = Inr s" "read_bool (JBool b) flag = Inr b" "in_i64 n \<Longrightarrow> read_int (JInt n) num = Inr n"
  by simp_all

lemma read_raw_pointer: "m \<noteq> None \<Longrightarrow> read_raw (json_pointer id m) old = Inr m"
  by (cases m) (simp_all add: read_raw_def)

lemma read_json_float: "fl x = x \<Longrightarrow> \<bar>x\<bar> < 2 ^ 1024 \<Longrightarrow> read_float (json_float x) old = Inr x"
  by (auto simp: json_float_def f64_of_int_def)

lemma read_string_list: "read_strings (json_list JStr ss) old = Inr ss"
proof -
  have "read_elements (map JStr ss) old = Inr ss" for old by (induction ss arbitrary: old) auto
  then show ?thesis by (simp add: json_list_def)
qed

lemma read_json_pointer:
  assumes "old = None" and "\<And>v. p = Some v \<Longrightarrow> read (f v) zero = Inr v" and "\<And>v. f v \<noteq> JNull"
  shows "read_pointer zero read (json_pointer f p) old = Inr p"
proof (cases p)
  case (Some v)
  then show ?thesis using assms(1) assms(2) [of v] assms(3) [of v] by (cases "f v") auto
qed simp

lemma read_json_list:
  assumes "old = []" and "\<And>v. v \<in> set vs \<Longrightarrow> read (f v) zero = Inr v"
  shows "read_slice zero read (json_list f vs) old = Inr vs"
proof -
  have "\<forall>v \<in> set vs. read (f v) zero = Inr v \<Longrightarrow> read_items zero read (map f vs) [] = Inr vs" by (induction vs) auto
  then show ?thesis using assms by (simp add: json_list_def)
qed

lemma read_entries_all:
  assumes "distinct ks" and "\<And>k. k \<in> set ks \<Longrightarrow> read_pointer zero read (f (the (m k))) None = Inr (the (m k))"
  shows "read_entries zero read (map (\<lambda>k. (k, f (the (m k)))) ks) old = Inr (\<lambda>k. if k \<in> set ks then Some (the (m k)) else old k)"
  using assms by (induction ks arbitrary: old) (auto simp: fun_eq_iff)

lemma read_json_map:
  assumes "old = Map.empty" and "finite (dom m)" and "\<And>k v. m k = Some (Some v) \<Longrightarrow> read (f v) zero = Inr v" and "\<And>v. f v \<noteq> JNull"
  shows "read_map zero read (json_map (json_pointer f) m) old = Inr m"
proof -
  have "read_pointer zero read (json_pointer f (the (m k))) None = Inr (the (m k))" if "k \<in> set (sorted_list_of_set (dom m))" for k
    using that assms(2) by (intro read_json_pointer) (auto intro!: assms(3,4))
  then have "read_entries zero read (map (\<lambda>k. (k, json_pointer f (the (m k)))) (sorted_list_of_set (dom m))) Map.empty
      = Inr (\<lambda>k. if k \<in> set (sorted_list_of_set (dom m)) then Some (the (m k)) else None)"
    by (intro read_entries_all) simp_all
  moreover have "(\<lambda>k. if k \<in> set (sorted_list_of_set (dom m)) then Some (the (m k)) else None) = m"
  proof
    fix k show "(if k \<in> set (sorted_list_of_set (dom m)) then Some (the (m k)) else None) = m k" using assms(2) by (cases "m k") auto
  qed
  ultimately show ?thesis using assms(1) by (simp add: json_map_def)
qed

lemmas readers = read_values read_raw_pointer read_json_float read_string_list read_json_pointer read_json_list read_json_map

section \<open>Structs\<close>

text \<open>The names of all fields are of small letters and underscores, so that different ones stay different when case is folded.\<close>

definition plain_name :: "string \<Rightarrow> bool" where
  "plain_name = list_all (\<lambda>c. 97 \<le> byte c \<and> byte c \<le> 122 \<or> byte c = 95)"

lemma fold_plain: "plain_name s \<Longrightarrow> fold_name s = map upper_byte s"
  by (induction s) (auto simp: plain_name_def)

lemma upper_byte_inj: "plain_name s \<Longrightarrow> plain_name t \<Longrightarrow> map upper_byte s = map upper_byte t \<Longrightarrow> s = t"
proof (induction s t rule: list_induct2')
  case (4 c cs d ds)
  have "c = d"
  proof -
    have b: "byte (upper_byte c) = byte (upper_byte d)" using 4 by simp
    have "byte (upper_byte e) = (if 97 \<le> byte e \<and> byte e \<le> 122 then byte e - 32 else byte e)" for e
      by (auto simp: upper_byte_def Let_def byte_def)
    with b 4(2,3) have "byte c = byte d" by (auto simp: plain_name_def split: if_splits)
    then show ?thesis by (simp add: byte_def)
  qed
  with 4 show ?case by (simp add: plain_name_def)
qed simp_all

lemma plain_keys: "list_all plain_name (map fst fs) \<Longrightarrow> distinct (map fst fs) \<Longrightarrow> distinct_keys fs"
proof -
  assume p: "list_all plain_name (map fst fs)" and d: "distinct (map fst fs)"
  have "map (fold_name \<circ> fst) fs = map (map upper_byte) (map fst fs)" using p by (simp add: list_all_iff fold_plain)
  moreover have "inj_on (map upper_byte) (set (map fst fs))" 
    by (rule inj_onI, rule upper_byte_inj) (use p in \<open>auto simp: list_all_iff\<close>)
  ultimately show "distinct_keys fs" using d by (simp only: distinct_keys_def distinct_map)
qed

definition health_fits :: "HealthCheckConfig \<Rightarrow> bool" where
  "health_fits h \<longleftrightarrow> in_i64 (hc_IntervalSec h) \<and> in_i64 (hc_TimeoutSec h) \<and> in_i64 (hc_ExpectedStatus h)"

lemma health_in:
  "field ''path'' hc_Path (\<lambda>v. hc_Path_update (\<lambda>_. v)) read_string \<in> set health_fields"
  "field ''interval_sec'' hc_IntervalSec (\<lambda>v. hc_IntervalSec_update (\<lambda>_. v)) read_int \<in> set health_fields"
  "field ''timeout_sec'' hc_TimeoutSec (\<lambda>v. hc_TimeoutSec_update (\<lambda>_. v)) read_int \<in> set health_fields"
  "field ''expected_status'' hc_ExpectedStatus (\<lambda>v. hc_ExpectedStatus_update (\<lambda>_. v)) read_int \<in> set health_fields"
  by (simp_all add: health_fields_def)

lemma health_keys: "distinct_keys health_fields"
  by (rule plain_keys) (simp_all add: health_fields_def field_def plain_name_def byte_def)

lemmas health_steps = health_in [THEN reads_member [OF health_keys]] health_in [THEN reads_optional [OF health_keys]]

lemma health_reads:
  assumes "health_fits h" and "x = zero_health"
  shows "read_struct health_fields (health_json h) x = Inr h"
  unfolding health_json_def append_assoc
  by (rule read_struct_reads, unfold append_assoc)
    ((rule health_steps reads_done readers ) | (insert assms, simp add: zero_health_def health_fits_def; fail) | (rule HealthCheckConfig.equality; insert assms; simp add: zero_health_def health_fits_def; fail))+

definition breaker_fits :: "CircuitBreakerConfig \<Rightarrow> bool" where
  "breaker_fits b \<longleftrightarrow> in_i64 (cb_Threshold b) \<and> in_i64 (cb_RecoveryTimeoutSec b)"

lemma breaker_in:
  "field ''threshold'' cb_Threshold (\<lambda>v. cb_Threshold_update (\<lambda>_. v)) read_int \<in> set breaker_fields"
  "field ''recovery_timeout_sec'' cb_RecoveryTimeoutSec (\<lambda>v. cb_RecoveryTimeoutSec_update (\<lambda>_. v)) read_int \<in> set breaker_fields"
  by (simp_all add: breaker_fields_def)

lemma breaker_keys: "distinct_keys breaker_fields"
  by (rule plain_keys) (simp_all add: breaker_fields_def field_def plain_name_def byte_def)

lemmas breaker_steps = breaker_in [THEN reads_member [OF breaker_keys]] breaker_in [THEN reads_optional [OF breaker_keys]]

lemma breaker_reads:
  assumes "breaker_fits b" and "x = zero_breaker"
  shows "read_struct breaker_fields (breaker_json b) x = Inr b"
  unfolding breaker_json_def append_assoc
  by (rule read_struct_reads, unfold append_assoc)
    ((rule breaker_steps reads_done readers ) | (insert assms, simp add: zero_breaker_def breaker_fits_def; fail) | (rule CircuitBreakerConfig.equality; insert assms; simp add: zero_breaker_def breaker_fits_def; fail))+

lemma balancer_in:
  "field ''algorithm'' lb_Algorithm (\<lambda>v. lb_Algorithm_update (\<lambda>_. v)) read_string \<in> set balancer_fields"
  "field ''sticky'' lb_Sticky (\<lambda>v. lb_Sticky_update (\<lambda>_. v)) read_bool \<in> set balancer_fields"
  by (simp_all add: balancer_fields_def)

lemma balancer_keys: "distinct_keys balancer_fields"
  by (rule plain_keys) (simp_all add: balancer_fields_def field_def plain_name_def byte_def)

lemmas balancer_steps = balancer_in [THEN reads_member [OF balancer_keys]] balancer_in [THEN reads_optional [OF balancer_keys]]

lemma balancer_reads:
  assumes "x = zero_balancer"
  shows "read_struct balancer_fields (balancer_json l) x = Inr l"
  unfolding balancer_json_def append_assoc
  by (rule read_struct_reads, unfold append_assoc)
    ((rule balancer_steps reads_done readers ) | (insert assms, simp add: zero_balancer_def; fail) | (rule LoadBalancerConfig.equality; insert assms; simp add: zero_balancer_def; fail))+

definition server_fits :: "ServerConfig \<Rightarrow> bool" where
  "server_fits s \<longleftrightarrow> in_i64 (sv_Weight s) \<and> in_i64 (sv_DelayMs s) \<and> health_fits (sv_HealthCheck s)"

lemma server_in:
  "field ''url'' sv_URL (\<lambda>v. sv_URL_update (\<lambda>_. v)) read_string \<in> set server_fields"
  "field ''name'' sv_Name (\<lambda>v. sv_Name_update (\<lambda>_. v)) read_string \<in> set server_fields"
  "field ''weight'' sv_Weight (\<lambda>v. sv_Weight_update (\<lambda>_. v)) read_int \<in> set server_fields"
  "field ''delay_ms'' sv_DelayMs (\<lambda>v. sv_DelayMs_update (\<lambda>_. v)) read_int \<in> set server_fields"
  "field ''health_check'' sv_HealthCheck (\<lambda>v. sv_HealthCheck_update (\<lambda>_. v)) (read_struct health_fields) \<in> set server_fields"
  by (simp_all add: server_fields_def)

lemma server_keys: "distinct_keys server_fields"
  by (rule plain_keys) (simp_all add: server_fields_def field_def plain_name_def byte_def)

lemmas server_steps = server_in [THEN reads_member [OF server_keys]] server_in [THEN reads_optional [OF server_keys]]

lemma server_reads:
  assumes "server_fits s" and "x = zero_server"
  shows "read_struct server_fields (server_json s) x = Inr s"
  unfolding server_json_def append_assoc
  by (rule read_struct_reads, unfold append_assoc)
    ((rule server_steps reads_done readers health_reads) | (insert assms, simp add: zero_server_def server_fits_def health_json_def; fail) | (rule ServerConfig.equality; insert assms; simp add: zero_server_def server_fits_def health_json_def; fail))+

definition router_fits :: "RouterConfig \<Rightarrow> bool" where
  "router_fits r \<longleftrightarrow> in_i64 (rc_Priority r)"

lemma router_in:
  "field ''rule'' rc_Rule (\<lambda>v. rc_Rule_update (\<lambda>_. v)) read_string \<in> set router_fields"
  "field ''priority'' rc_Priority (\<lambda>v. rc_Priority_update (\<lambda>_. v)) read_int \<in> set router_fields"
  "field ''middlewares'' rc_Middlewares (\<lambda>v. rc_Middlewares_update (\<lambda>_. v)) read_strings \<in> set router_fields"
  "field ''service'' rc_Service (\<lambda>v. rc_Service_update (\<lambda>_. v)) read_string \<in> set router_fields"
  by (simp_all add: router_fields_def)

lemma router_keys: "distinct_keys router_fields"
  by (rule plain_keys) (simp_all add: router_fields_def field_def plain_name_def byte_def)

lemmas router_steps = router_in [THEN reads_member [OF router_keys]] router_in [THEN reads_optional [OF router_keys]]

lemma router_reads:
  assumes "router_fits r" and "x = zero_router"
  shows "read_struct router_fields (router_json r) x = Inr r"
  unfolding router_json_def append_assoc
  by (rule read_struct_reads, unfold append_assoc)
    ((rule router_steps reads_done readers ) | (insert assms, simp add: zero_router_def router_fits_def; fail) | (rule RouterConfig.equality; insert assms; simp add: zero_router_def router_fits_def; fail))+

definition service_fits :: "ServiceConfig \<Rightarrow> bool" where
  "service_fits s \<longleftrightarrow> (\<forall>v. sc_HealthCheck s = Some v \<longrightarrow> health_fits v)
     \<and> (\<forall>v. sc_CircuitBreaker s = Some v \<longrightarrow> breaker_fits v) \<and> (\<forall>v \<in> set (sc_Servers s). server_fits v)"

lemma service_in:
  "field ''load_balancer'' sc_LoadBalancer (\<lambda>v. sc_LoadBalancer_update (\<lambda>_. v)) (read_pointer zero_balancer (read_struct balancer_fields)) \<in> set service_fields"
  "field ''health_check'' sc_HealthCheck (\<lambda>v. sc_HealthCheck_update (\<lambda>_. v)) (read_pointer zero_health (read_struct health_fields)) \<in> set service_fields"
  "field ''circuit_breaker'' sc_CircuitBreaker (\<lambda>v. sc_CircuitBreaker_update (\<lambda>_. v)) (read_pointer zero_breaker (read_struct breaker_fields)) \<in> set service_fields"
  "field ''canary'' sc_Canary (\<lambda>v. sc_Canary_update (\<lambda>_. v)) read_bool \<in> set service_fields"
  "field ''servers'' sc_Servers (\<lambda>v. sc_Servers_update (\<lambda>_. v)) (read_slice zero_server (read_struct server_fields)) \<in> set service_fields"
  by (simp_all add: service_fields_def)

lemma service_keys: "distinct_keys service_fields"
  by (rule plain_keys) (simp_all add: service_fields_def field_def plain_name_def byte_def)

lemmas service_steps = service_in [THEN reads_member [OF service_keys]] service_in [THEN reads_optional [OF service_keys]]

lemma service_reads:
  assumes "service_fits s" and "x = zero_service"
  shows "read_struct service_fields (service_json s) x = Inr s"
  unfolding service_json_def append_assoc
  by (rule read_struct_reads, unfold append_assoc)
    ((rule service_steps reads_done readers balancer_reads health_reads breaker_reads server_reads) | (insert assms, simp add: zero_service_def service_fits_def balancer_json_def health_json_def breaker_json_def server_json_def; fail) | (rule ServiceConfig.equality; insert assms; simp add: zero_service_def service_fits_def balancer_json_def health_json_def breaker_json_def server_json_def; fail))+

lemma auth_in:
  "field ''username'' da_Username (\<lambda>v. da_Username_update (\<lambda>_. v)) read_string \<in> set auth_fields"
  "field ''password'' da_Password (\<lambda>v. da_Password_update (\<lambda>_. v)) read_string \<in> set auth_fields"
  by (simp_all add: auth_fields_def)

lemma auth_keys: "distinct_keys auth_fields"
  by (rule plain_keys) (simp_all add: auth_fields_def field_def plain_name_def byte_def)

lemmas auth_steps = auth_in [THEN reads_member [OF auth_keys]] auth_in [THEN reads_optional [OF auth_keys]]

lemma auth_reads:
  assumes "x = zero_auth"
  shows "read_struct auth_fields (auth_json a) x = Inr a"
  unfolding auth_json_def append_assoc
  by (rule read_struct_reads, unfold append_assoc)
    ((rule auth_steps reads_done readers ) | (insert assms, simp add: zero_auth_def; fail) | (rule DashboardAuth.equality; insert assms; simp add: zero_auth_def; fail))+

lemma middleware_in:
  "field ''type'' mc_Type (\<lambda>v. mc_Type_update (\<lambda>_. v)) read_string \<in> set middleware_fields"
  "field ''config'' mc_Config (\<lambda>v. mc_Config_update (\<lambda>_. v)) read_raw \<in> set middleware_fields"
  by (simp_all add: middleware_fields_def)

lemma middleware_keys: "distinct_keys middleware_fields"
  by (rule plain_keys) (simp_all add: middleware_fields_def field_def plain_name_def byte_def)

lemmas middleware_steps = middleware_in [THEN reads_member [OF middleware_keys]] middleware_in [THEN reads_optional [OF middleware_keys]]

lemma middleware_reads:
  assumes "x = zero_middleware"
  shows "read_struct middleware_fields (middleware_json m) x = Inr m"
  unfolding middleware_json_def append_assoc
  by (rule read_struct_reads, unfold append_assoc)
    ((rule middleware_steps reads_done readers ) | (insert assms, simp add: zero_middleware_def; fail) | (rule MiddlewareConfig.equality; insert assms; simp add: zero_middleware_def; fail))+

definition timeouts_fits :: "TimeoutConfig \<Rightarrow> bool" where
  "timeouts_fits t \<longleftrightarrow> in_i64 (tc_HighSec t) \<and> in_i64 (tc_MediumSec t) \<and> in_i64 (tc_LowSec t)"

lemma timeouts_in:
  "field ''high_sec'' tc_HighSec (\<lambda>v. tc_HighSec_update (\<lambda>_. v)) read_int \<in> set timeouts_fields"
  "field ''medium_sec'' tc_MediumSec (\<lambda>v. tc_MediumSec_update (\<lambda>_. v)) read_int \<in> set timeouts_fields"
  "field ''low_sec'' tc_LowSec (\<lambda>v. tc_LowSec_update (\<lambda>_. v)) read_int \<in> set timeouts_fields"
  by (simp_all add: timeouts_fields_def)

lemma timeouts_keys: "distinct_keys timeouts_fields"
  by (rule plain_keys) (simp_all add: timeouts_fields_def field_def plain_name_def byte_def)

lemmas timeouts_steps = timeouts_in [THEN reads_member [OF timeouts_keys]] timeouts_in [THEN reads_optional [OF timeouts_keys]]

lemma timeouts_reads:
  assumes "timeouts_fits t" and "x = zero_timeouts"
  shows "read_struct timeouts_fields (timeouts_json t) x = Inr t"
  unfolding timeouts_json_def append_assoc
  by (rule read_struct_reads, unfold append_assoc)
    ((rule timeouts_steps reads_done readers ) | (insert assms, simp add: zero_timeouts_def timeouts_fits_def; fail) | (rule TimeoutConfig.equality; insert assms; simp add: zero_timeouts_def timeouts_fits_def; fail))+

lemma tls_in:
  "field ''enabled'' tl_Enabled (\<lambda>v. tl_Enabled_update (\<lambda>_. v)) read_bool \<in> set tls_fields"
  "field ''cert_file'' tl_CertFile (\<lambda>v. tl_CertFile_update (\<lambda>_. v)) read_string \<in> set tls_fields"
  "field ''key_file'' tl_KeyFile (\<lambda>v. tl_KeyFile_update (\<lambda>_. v)) read_string \<in> set tls_fields"
  "field ''auto_generate'' tl_AutoGenerate (\<lambda>v. tl_AutoGenerate_update (\<lambda>_. v)) read_bool \<in> set tls_fields"
  by (simp_all add: tls_fields_def)

lemma tls_keys: "distinct_keys tls_fields"
  by (rule plain_keys) (simp_all add: tls_fields_def field_def plain_name_def byte_def)

lemmas tls_steps = tls_in [THEN reads_member [OF tls_keys]] tls_in [THEN reads_optional [OF tls_keys]]

lemma tls_reads:
  assumes "x = zero_tls"
  shows "read_struct tls_fields (tls_json t) x = Inr t"
  unfolding tls_json_def append_assoc
  by (rule read_struct_reads, unfold append_assoc)
    ((rule tls_steps reads_done readers ) | (insert assms, simp add: zero_tls_def; fail) | (rule TLSConfig.equality; insert assms; simp add: zero_tls_def; fail))+

lemma entrypoint_in:
  "field ''address'' ep_Address (\<lambda>v. ep_Address_update (\<lambda>_. v)) read_string \<in> set entrypoint_fields"
  "field ''protocol'' ep_Protocol (\<lambda>v. ep_Protocol_update (\<lambda>_. v)) read_string \<in> set entrypoint_fields"
  "field ''middlewares'' ep_Middlewares (\<lambda>v. ep_Middlewares_update (\<lambda>_. v)) read_strings \<in> set entrypoint_fields"
  "field ''tls'' ep_TLS (\<lambda>v. ep_TLS_update (\<lambda>_. v)) (read_pointer zero_tls (read_struct tls_fields)) \<in> set entrypoint_fields"
  by (simp_all add: entrypoint_fields_def)

lemma entrypoint_keys: "distinct_keys entrypoint_fields"
  by (rule plain_keys) (simp_all add: entrypoint_fields_def field_def plain_name_def byte_def)

lemmas entrypoint_steps = entrypoint_in [THEN reads_member [OF entrypoint_keys]] entrypoint_in [THEN reads_optional [OF entrypoint_keys]]

lemma entrypoint_reads:
  assumes "x = zero_entrypoint"
  shows "read_struct entrypoint_fields (entrypoint_json e) x = Inr e"
  unfolding entrypoint_json_def append_assoc
  by (rule read_struct_reads, unfold append_assoc)
    ((rule entrypoint_steps reads_done readers tls_reads) | (insert assms, simp add: zero_entrypoint_def tls_json_def; fail) | (rule EntryPointConfig.equality; insert assms; simp add: zero_entrypoint_def tls_json_def; fail))+

lemma config_cors_in:
  "field ''allowed_origins'' cc_AllowedOrigins (\<lambda>v. cc_AllowedOrigins_update (\<lambda>_. v)) read_strings \<in> set config_cors_fields"
  "field ''allowed_methods'' cc_AllowedMethods (\<lambda>v. cc_AllowedMethods_update (\<lambda>_. v)) read_strings \<in> set config_cors_fields"
  "field ''allowed_headers'' cc_AllowedHeaders (\<lambda>v. cc_AllowedHeaders_update (\<lambda>_. v)) read_strings \<in> set config_cors_fields"
  by (simp_all add: config_cors_fields_def)

lemma config_cors_keys: "distinct_keys config_cors_fields"
  by (rule plain_keys) (simp_all add: config_cors_fields_def field_def plain_name_def byte_def)

lemmas config_cors_steps = config_cors_in [THEN reads_member [OF config_cors_keys]] config_cors_in [THEN reads_optional [OF config_cors_keys]]

lemma config_cors_reads:
  assumes "x = zero_cors"
  shows "read_struct config_cors_fields (cors_json c) x = Inr c"
  unfolding cors_json_def append_assoc
  by (rule read_struct_reads, unfold append_assoc)
    ((rule config_cors_steps reads_done readers ) | (insert assms, simp add: zero_cors_def; fail) | (rule ConfigCORS.equality; insert assms; simp add: zero_cors_def; fail))+

definition config_fits :: "Config \<Rightarrow> bool" where
  "config_fits c \<longleftrightarrow> in_i64 (cf_ListenPort c) \<and> in_i64 (cf_DashboardPort c) \<and> (\<forall>v \<in> set (cf_Servers c). server_fits v)
     \<and> in_i64 (cf_HealthInterval c) \<and> in_i64 (cf_BreakerThreshold c) \<and> in_i64 (cf_BreakerTimeoutSec c)
     \<and> in_i64 (cf_MetricsIntervalSec c) \<and> in_i64 (cf_MaxRetries c) \<and> in_i64 (cf_ShutdownTimeoutSec c)
     \<and> fl (cf_RateLimitRPS c) = cf_RateLimitRPS c \<and> \<bar>cf_RateLimitRPS c\<bar> < 2 ^ 1024 \<and> in_i64 (cf_RateLimitBurst c)
     \<and> in_i64 (cf_PerAttemptTimeoutSec c) \<and> in_i64 (cf_RetryBackoffMs c) \<and> in_i64 (cf_RetryBackoffMaxMs c)
     \<and> finite (dom (cf_Middlewares c)) \<and> timeouts_fits (cf_Timeouts c) \<and> finite (dom (cf_EntryPoints c))
     \<and> finite (dom (cf_Routers c)) \<and> (\<forall>k v. cf_Routers c k = Some (Some v) \<longrightarrow> router_fits v)
     \<and> finite (dom (cf_Services c)) \<and> (\<forall>k v. cf_Services c k = Some (Some v) \<longrightarrow> service_fits v)"

lemma config_in:
  "field ''listen_port'' cf_ListenPort (\<lambda>v. cf_ListenPort_update (\<lambda>_. v)) read_int \<in> set config_fields"
  "field ''dashboard_port'' cf_DashboardPort (\<lambda>v. cf_DashboardPort_update (\<lambda>_. v)) read_int \<in> set config_fields"
  "field ''servers'' cf_Servers (\<lambda>v. cf_Servers_update (\<lambda>_. v)) (read_slice zero_server (read_struct server_fields)) \<in> set config_fields"
  "field ''algorithm'' cf_Algorithm (\<lambda>v. cf_Algorithm_update (\<lambda>_. v)) read_string \<in> set config_fields"
  "field ''health_interval_sec'' cf_HealthInterval (\<lambda>v. cf_HealthInterval_update (\<lambda>_. v)) read_int \<in> set config_fields"
  "field ''breaker_threshold'' cf_BreakerThreshold (\<lambda>v. cf_BreakerThreshold_update (\<lambda>_. v)) read_int \<in> set config_fields"
  "field ''breaker_timeout_sec'' cf_BreakerTimeoutSec (\<lambda>v. cf_BreakerTimeoutSec_update (\<lambda>_. v)) read_int \<in> set config_fields"
  "field ''metrics_interval_sec'' cf_MetricsIntervalSec (\<lambda>v. cf_MetricsIntervalSec_update (\<lambda>_. v)) read_int \<in> set config_fields"
  "field ''max_retries'' cf_MaxRetries (\<lambda>v. cf_MaxRetries_update (\<lambda>_. v)) read_int \<in> set config_fields"
  "field ''shutdown_timeout_sec'' cf_ShutdownTimeoutSec (\<lambda>v. cf_ShutdownTimeoutSec_update (\<lambda>_. v)) read_int \<in> set config_fields"
  "field ''rate_limit_rps'' cf_RateLimitRPS (\<lambda>v. cf_RateLimitRPS_update (\<lambda>_. v)) read_float \<in> set config_fields"
  "field ''rate_limit_burst'' cf_RateLimitBurst (\<lambda>v. cf_RateLimitBurst_update (\<lambda>_. v)) read_int \<in> set config_fields"
  "field ''per_attempt_timeout_sec'' cf_PerAttemptTimeoutSec (\<lambda>v. cf_PerAttemptTimeoutSec_update (\<lambda>_. v)) read_int \<in> set config_fields"
  "field ''retry_backoff_ms'' cf_RetryBackoffMs (\<lambda>v. cf_RetryBackoffMs_update (\<lambda>_. v)) read_int \<in> set config_fields"
  "field ''retry_backoff_max_ms'' cf_RetryBackoffMaxMs (\<lambda>v. cf_RetryBackoffMaxMs_update (\<lambda>_. v)) read_int \<in> set config_fields"
  "field ''access_log_path'' cf_AccessLogPath (\<lambda>v. cf_AccessLogPath_update (\<lambda>_. v)) read_string \<in> set config_fields"
  "field ''dashboard_auth'' cf_DashboardAuth (\<lambda>v. cf_DashboardAuth_update (\<lambda>_. v)) (read_struct auth_fields) \<in> set config_fields"
  "field ''tls'' cf_TLS (\<lambda>v. cf_TLS_update (\<lambda>_. v)) (read_struct tls_fields) \<in> set config_fields"
  "field ''cors'' cf_CORS (\<lambda>v. cf_CORS_update (\<lambda>_. v)) (read_struct config_cors_fields) \<in> set config_fields"
  "field ''hot_reload'' cf_HotReload (\<lambda>v. cf_HotReload_update (\<lambda>_. v)) read_bool \<in> set config_fields"
  "field ''middlewares'' cf_Middlewares (\<lambda>v. cf_Middlewares_update (\<lambda>_. v)) (read_map zero_middleware (read_struct middleware_fields)) \<in> set config_fields"
  "field ''timeouts'' cf_Timeouts (\<lambda>v. cf_Timeouts_update (\<lambda>_. v)) (read_struct timeouts_fields) \<in> set config_fields"
  "field ''entrypoints'' cf_EntryPoints (\<lambda>v. cf_EntryPoints_update (\<lambda>_. v)) (read_map zero_entrypoint (read_struct entrypoint_fields)) \<in> set config_fields"
  "field ''routers'' cf_Routers (\<lambda>v. cf_Routers_update (\<lambda>_. v)) (read_map zero_router (read_struct router_fields)) \<in> set config_fields"
  "field ''services'' cf_Services (\<lambda>v. cf_Services_update (\<lambda>_. v)) (read_map zero_service (read_struct service_fields)) \<in> set config_fields"
  by (simp_all add: config_fields_def)

lemma config_keys: "distinct_keys config_fields"
  by (rule plain_keys) (simp_all add: config_fields_def field_def plain_name_def byte_def)

lemmas config_steps = config_in [THEN reads_member [OF config_keys]] config_in [THEN reads_optional [OF config_keys]]

lemma config_reads:
  assumes "config_fits c" and "x = zero_config"
  shows "read_struct config_fields (config_json c) x = Inr c"
  unfolding config_json_def append_assoc
  by (rule read_struct_reads, unfold append_assoc)
    ((rule config_steps reads_done readers server_reads auth_reads tls_reads config_cors_reads middleware_reads timeouts_reads entrypoint_reads router_reads service_reads) | (insert assms, simp add: zero_config_def config_fits_def server_json_def auth_json_def tls_json_def cors_json_def middleware_json_def timeouts_json_def entrypoint_json_def router_json_def service_json_def; fail) | (rule Config.equality; insert assms; simp add: zero_config_def config_fits_def server_json_def auth_json_def tls_json_def cors_json_def middleware_json_def timeouts_json_def entrypoint_json_def router_json_def service_json_def; fail))+

section \<open>The configuration\<close>

text \<open>
  C17. The configuration survives its way through JSON. For every configuration whose numbers are values of Go's types and whose maps are finite, decoding what \<^verbatim>\<open>/api/config\<close> encodes gives
  the configuration back; and if it is one that \<^verbatim>\<open>Load\<close> returns, then loading a file with that content, whatever the orders of its maps, returns the same configuration.
\<close>

theorem config_json_roundtrip:
  assumes "config_fits c"
  shows "decode_config (Inr (config_json c)) = Inr c
     \<and> (config_ready c \<and> urls_unique c \<longrightarrow>
         (\<forall>ks es vs. range_order (cf_Services c) ks \<and> range_order (cf_EntryPoints c) es \<and> range_order (cf_Services c) vs \<longrightarrow>
            Load ks es vs (decode_config (Inr (config_json c))) = Inr c))"
proof (intro conjI impI allI)
  show d: "decode_config (Inr (config_json c)) = Inr c" using config_reads [OF assms refl] by (simp add: decode_config_def)
  fix ks es vs
  assume r: "config_ready c \<and> urls_unique c" and o: "range_order (cf_Services c) ks \<and> range_order (cf_EntryPoints c) es \<and> range_order (cf_Services c) vs"
  have "setDefaults ks es c = Inr c" using setDefaults_id [of c ks es] r o by simp
  moreover have "\<forall>k. cf_Services c k \<noteq> Some None" using r unfolding config_ready_def by blast
  then have "validate vs c = Inr ()" using validate_iff [of c vs] r o by simp
  ultimately show "Load ks es vs (decode_config (Inr (config_json c))) = Inr c" by (simp add: d Load_def)
qed

lemma demo_config_fits: "config_fits demo_config"
  by (simp add: config_fits_def demo_config_def demo_server_def no_health_def server_fits_def health_fits_def router_fits_def service_fits_def timeouts_fits_def in_i64_def)

theorem config_json_roundtrip_witness: "config_fits demo_config \<and> decode_config (Inr (config_json demo_config)) = Inr demo_config"
  using config_json_roundtrip [OF demo_config_fits] demo_config_fits by blast

end
