(* ===== verification/Backend.thy ===== *)
theory Backend
  imports Entry
begin

text \<open>
  The backend that comes with the repository, \<^verbatim>\<open>src/backend/server.go\<close>: it counts the requests it serves, can be switched to fail, and tells the health checks which of both it does.
\<close>

section \<open>State and arguments\<close>

record Backend =
  be_port :: int
  be_delayMs :: int
  be_serverName :: string
  be_reqCount :: int
  be_isFailing :: bool

text \<open>The number that \<^verbatim>\<open>strconv.Atoi\<close> returns, also beside an error: zero for a wrong syntax, the nearest bound for a number out of range.\<close>

fun atoi_loop :: "string \<Rightarrow> int \<Rightarrow> int option" where
  "atoi_loop [] n = Some n"
| "atoi_loop (c # cs) n =
     (if \<not> digit_byte c then None
      else let n1 = n * 10 + (int (byte c) - 48)
           in if n1 > 2 ^ 64 - 1 then Some (2 ^ 64 - 1) else atoi_loop cs n1)"

definition atoi_unsigned :: "string \<Rightarrow> int option" where
  "atoi_unsigned s = (if s = [] then None else atoi_loop s 0)"

definition Atoi :: "string \<Rightarrow> int" where
  "Atoi s =
     (let neg = (s \<noteq> [] \<and> hd s = CHR ''-''); s1 = (if s \<noteq> [] \<and> hd s \<in> {CHR ''-'', CHR ''+''} then tl s else s)
      in case atoi_unsigned s1 of
           None \<Rightarrow> 0
         | Some un \<Rightarrow> if neg then - min un (2 ^ 63) else min un (2 ^ 63 - 1))"

text \<open>\<^verbatim>\<open>main\<close> up to the start of the server; the first argument is the name of the program.\<close>

definition backend_main :: "string list \<Rightarrow> Backend" where
  "backend_main args =
     \<lparr>be_port = (if length args > 1 then Atoi (args ! 1) else 8001),
      be_delayMs = (if length args > 2 then Atoi (args ! 2) else 10),
      be_serverName = (if length args > 3 then args ! 3 else ''Server''),
      be_reqCount = 0, be_isFailing = False\<rparr>"

section \<open>Handlers\<close>

definition toggleHandler :: "Backend \<Rightarrow> Writer \<Rightarrow> Backend \<times> Writer result" where
  "toggleHandler b w =
     (let newState = (\<not> be_isFailing b); stateStr = (if newState then ''FAILING'' else ''HEALTHY'')
      in (b\<lparr>be_isFailing := newState\<rparr>,
          case WriteHeader 200 w of
            Inl e \<Rightarrow> Inl e
          | Inr w1 \<Rightarrow> Inr (fst (Write (''Server toggled to '' @ stateStr @ [CHR 0x0A]) w1))))"

text \<open>The bodies have no floating-point numbers, so that their text never fails.\<close>

definition write_json :: "json \<Rightarrow> Writer \<Rightarrow> Writer" where
  "write_json j w = (case json_text (\<lambda>x. None) j of Inl err \<Rightarrow> w | Inr t \<Rightarrow> fst (Write (t @ [CHR 0x0A]) w))"

definition healthHandler :: "Backend \<Rightarrow> Writer \<Rightarrow> Backend \<times> Writer result" where
  "healthHandler b w =
     (if be_isFailing b then (b, http_Error ''Simulated Chaos Failure'' 500 w)
      else (b, Inr (write_json
             (JObj [(''name'', JStr (be_serverName b)), (''port'', JInt (be_port b)), (''requests_served'', JInt (be_reqCount b)), (''status'', JStr ''UP'')])
             (on_Header (Header_Set ''Content-Type'' ''application/json'') w))))"

text \<open>
  \<open>jitter\<close> is what \<^verbatim>\<open>rand.Intn(delayMs/2+1)\<close> gives; the handler sleeps first and then looks at the state.
\<close>

definition api_body :: "Backend \<Rightarrow> int \<Rightarrow> int \<Rightarrow> string \<Rightarrow> json" where
  "api_body b jitter served path =
     JObj [(''delay_ms'', JInt (i64 (be_delayMs b + jitter))), (''handled_by'', JStr (be_serverName b)), (''path'', JStr path), (''port'', JInt (be_port b)),
           (''request_count'', JInt served)]"

definition apiHandler :: "int \<Rightarrow> string \<Rightarrow> Backend \<Rightarrow> Writer \<Rightarrow> Backend \<times> Writer result" where
  "apiHandler intn path b w =
     (let jitter = (if be_delayMs b > 0 then intn else 0)
      in if be_isFailing b then (b, http_Error ''Simulated Chaos Failure'' 500 w)
         else let served = i64 (be_reqCount b + 1)
              in (b\<lparr>be_reqCount := served\<rparr>,
                  Inr (write_json (api_body b jitter served path)
                    (on_Header (\<lambda>h. Header_Set ''X-Server-Name'' (be_serverName b) (Header_Set ''Content-Type'' ''application/json'' h)) w))))"

text \<open>The default mux of \<^verbatim>\<open>net/http\<close> with the three patterns; \<open>redirect\<close> is its answer to a path that is not clean.\<close>

definition backend_ServeHTTP :: "(string \<Rightarrow> Writer \<Rightarrow> Writer result) \<Rightarrow> int \<Rightarrow> Request \<Rightarrow> Backend \<Rightarrow> Writer \<Rightarrow> Backend \<times> Writer result" where
  "backend_ServeHTTP redirect intn r b w =
     (if rq_RequestURI r = ''*'' then (b, WriteHeader 400 (on_Header (Header_Set ''Connection'' ''close'') w))
      else if rq_Method r \<noteq> ''CONNECT'' \<and> cleanPath (rq_Path r) \<noteq> rq_Path r then (b, redirect (cleanPath (rq_Path r)) w)
      else if rq_Path r = ''/health'' then healthHandler b w
      else if rq_Path r = ''/toggle'' then toggleHandler b w
      else apiHandler intn (rq_Path r) b w)"

section \<open>Runs\<close>

text \<open>A request comes with what the random generator will give for it; the answers are those of fresh connections.\<close>

fun backend_run :: "(string \<Rightarrow> Writer \<Rightarrow> Writer result) \<Rightarrow> (int \<times> Request) list \<Rightarrow> Backend \<Rightarrow> Backend \<times> Writer result list" where
  "backend_run redirect [] b = (b, [])"
| "backend_run redirect ((n, r) # rs) b =
     (let (b1, ans) = backend_ServeHTTP redirect n r b (ConnW (new_Conn (rq_Method r = ''HEAD''))); (b2, anss) = backend_run redirect rs b1
      in (b2, ans # anss))"

text \<open>The requests that reach a handler, by handler.\<close>

definition reaches :: "Request \<Rightarrow> bool" where
  "reaches r \<longleftrightarrow> rq_RequestURI r \<noteq> ''*'' \<and> (rq_Method r = ''CONNECT'' \<or> cleanPath (rq_Path r) = rq_Path r)"

definition is_toggle :: "int \<times> Request \<Rightarrow> bool" where
  "is_toggle = (\<lambda>(n, r). reaches r \<and> rq_Path r = ''/toggle'')"

definition is_api :: "int \<times> Request \<Rightarrow> bool" where
  "is_api = (\<lambda>(n, r). reaches r \<and> rq_Path r \<noteq> ''/health'' \<and> rq_Path r \<noteq> ''/toggle'')"

text \<open>Whether the backend fails after some requests, and how many it has served.\<close>

definition fails_after :: "bool \<Rightarrow> (int \<times> Request) list \<Rightarrow> bool" where
  "fails_after f rs \<longleftrightarrow> f \<noteq> odd (length (filter is_toggle rs))"

fun served_in :: "bool \<Rightarrow> (int \<times> Request) list \<Rightarrow> nat" where
  "served_in f [] = 0"
| "served_in f (r # rs) = (if is_api r \<and> \<not> f then Suc (served_in f rs) else served_in (f \<noteq> is_toggle r) rs)"

lemma backend_step_state:
  assumes "backend_ServeHTTP redirect n r b w = (b1, ans)"
  shows "be_isFailing b1 = (be_isFailing b \<noteq> is_toggle (n, r))"
    and "be_reqCount b1 = (if is_api (n, r) \<and> \<not> be_isFailing b then i64 (be_reqCount b + 1) else be_reqCount b)"
    and "be_port b1 = be_port b \<and> be_delayMs b1 = be_delayMs b \<and> be_serverName b1 = be_serverName b"
  using assms
  by (auto simp: backend_ServeHTTP_def healthHandler_def toggleHandler_def apiHandler_def is_toggle_def is_api_def reaches_def Let_def split: if_splits)

lemma backend_run_all:
  assumes "backend_run redirect rs b = (b1, anss)"
  shows "be_isFailing b1 = fails_after (be_isFailing b) rs \<and> length anss = length rs
     \<and> i64 (be_reqCount b1) = i64 (be_reqCount b + int (served_in (be_isFailing b) rs))
     \<and> be_port b1 = be_port b \<and> be_delayMs b1 = be_delayMs b \<and> be_serverName b1 = be_serverName b"
  using assms
proof (induction rs arbitrary: b b1 anss)
  case (Cons nr rs)
  obtain n r where nr: "nr = (n, r)" by (cases nr)
  obtain b2 ans where st: "backend_ServeHTTP redirect n r b (ConnW (new_Conn (rq_Method r = ''HEAD''))) = (b2, ans)" by (metis surj_pair)
  obtain anss1 where run: "backend_run redirect rs b2 = (b1, anss1)" "anss = ans # anss1" using Cons.prems st nr by (auto simp: case_prod_beta prod_eq_iff)
  note f = backend_step_state [OF st] and ih = Cons.IH [OF run(1)]
  have "\<not> (is_api nr \<and> is_toggle nr)" by (auto simp: is_api_def is_toggle_def)
  have "i64 (be_reqCount b1) = i64 (be_reqCount b + int (served_in (be_isFailing b) (nr # rs)))"
  proof (cases "is_api nr \<and> \<not> be_isFailing b")
    case True
    then have "\<not> be_isFailing b2" using f(1) \<open>\<not> (is_api nr \<and> is_toggle nr)\<close> by (simp add: nr)
    then show ?thesis using ih f(2) True by (simp add: nr add_ac)
  next
    case False
    then show ?thesis using ih f(1,2) by (auto simp: nr)
  qed
  moreover have "be_isFailing b1 = fails_after (be_isFailing b) (nr # rs)" using ih f(1) by (auto simp: fails_after_def nr)
  ultimately show ?case using ih f(3) run(2) by simp
qed (simp add: fails_after_def)

lemma backend_run_state:
  assumes "backend_run redirect rs b = (b1, anss)"
  shows "be_isFailing b1 = fails_after (be_isFailing b) rs" and "length anss = length rs"
    and "i64 (be_reqCount b1) = i64 (be_reqCount b + int (served_in (be_isFailing b) rs))"
    and "be_port b1 = be_port b \<and> be_delayMs b1 = be_delayMs b \<and> be_serverName b1 = be_serverName b"
  using backend_run_all [OF assms] by simp_all

text \<open>The answer to a request of a run is that of the state in which it finds the backend.\<close>

lemma backend_run_nth:
  assumes "backend_run redirect rs b = (b1, anss)" and "i < length rs" and "rs ! i = (n, r)"
  shows "anss ! i = snd (backend_ServeHTTP redirect n r (fst (backend_run redirect (take i rs) b)) (ConnW (new_Conn (rq_Method r = ''HEAD''))))"
  using assms
proof (induction rs arbitrary: b b1 anss i)
  case (Cons nr rs)
  obtain n1 r1 where nr: "nr = (n1, r1)" by (cases nr)
  with Cons.prems(1) obtain b2 ans anss1 where "backend_ServeHTTP redirect n1 r1 b (ConnW (new_Conn (rq_Method r1 = ''HEAD''))) = (b2, ans)"
    "backend_run redirect rs b2 = (b1, anss1)" "anss = ans # anss1" by (auto split: prod.splits)
  then show ?case using Cons.IH [of b2 b1 anss1 "i - 1"] Cons.prems(2,3) nr by (cases i) (auto simp: case_prod_beta)
qed simp

section \<open>What clients and health checks see\<close>

lemma conn_error:
  "http_Error msg 500 (ConnW (new_Conn False))
     = Inr (ConnW \<lparr>cn_head = False, cn_header = Header_Set ''X-Content-Type-Options'' ''nosniff'' (Header_Set ''Content-Type'' ''text/plain; charset=utf-8'' (Header_Del ''Content-Length'' Map.empty)),
         cn_status = Some 500, cn_sent = Header_Set ''X-Content-Type-Options'' ''nosniff'' (Header_Set ''Content-Type'' ''text/plain; charset=utf-8'' (Header_Del ''Content-Length'' Map.empty)),
         cn_body = msg @ [CHR 0x0A]\<rparr>)"
  by (simp add: http_Error_def new_Conn_def conn_WriteHeader_def conn_Write_def conn_implicit_def bodyAllowedForStatus_def Let_def)

lemma write_json_conn:
  assumes "json_text (\<lambda>x. None) j = Inr t"
  shows "\<exists>c. write_json j (on_Header f (ConnW (new_Conn False))) = ConnW c \<and> cn_status c = Some 200 \<and> cn_body c = t @ [CHR 0x0A]"
  using assms by (simp add: write_json_def new_Conn_def conn_Write_def conn_implicit_def bodyAllowedForStatus_def Let_def)

lemma served_in_snoc: "served_in f (rs @ [r]) = served_in f rs + (if is_api r \<and> \<not> fails_after f rs then 1 else 0)"
proof (induction rs arbitrary: f)
  case (Cons q rs)
  have "\<not> (is_api q \<and> is_toggle q)" by (auto simp: is_api_def is_toggle_def)
  with Cons show ?case by (auto simp: fails_after_def)
qed (simp add: fails_after_def)

text \<open>
  The backend numbers what it serves. In every run, a request for the API is answered with 500 exactly when the number of switches before it says that the backend fails; otherwise with 200 and
  a JSON object that has the backend's name and port, the path, and as its number how many requests for the API were served up to and with it.
\<close>

theorem backend_counts:
  assumes "backend_run redirect rs b = (b1, anss)" and "i < length rs" and "rs ! i = (n, r)" and "is_api (n, r)" and "rq_Method r \<noteq> ''HEAD''"
  shows "\<exists>c. anss ! i = Inr (ConnW c)
     \<and> (if fails_after (be_isFailing b) (take i rs) then cn_status c = Some 500
        else cn_status c = Some 200
          \<and> (\<exists>t. json_text (\<lambda>x. None) (api_body b (if be_delayMs b > 0 then n else 0) (i64 (be_reqCount b + int (served_in (be_isFailing b) (take (Suc i) rs)))) (rq_Path r)) = Inr t
               \<and> cn_body c = t @ [CHR 0x0A]))"
proof -
  obtain b2 as where r: "backend_run redirect (take i rs) b = (b2, as)" by (metis surj_pair)
  note st = backend_run_state [OF r]
  have a: "anss ! i = snd (apiHandler n (rq_Path r) b2 (ConnW (new_Conn False)))"
    using backend_run_nth [OF assms(1-3)] assms(4,5) r by (auto simp: backend_ServeHTTP_def is_api_def reaches_def)
  show ?thesis
  proof (cases "be_isFailing b2")
    case True
    then show ?thesis using a st(1) by (simp add: apiHandler_def conn_error)
  next
    case False
    have "take (Suc i) rs = take i rs @ [(n, r)]" using assms(2,3) by (simp add: take_Suc_conv_app_nth)
    then have "served_in (be_isFailing b) (take (Suc i) rs) = Suc (served_in (be_isFailing b) (take i rs))"
      using assms(4) st(1) False by (simp add: served_in_snoc)
    then have k: "i64 (be_reqCount b2 + 1) = i64 (be_reqCount b + int (served_in (be_isFailing b) (take (Suc i) rs)))"
      using arg_cong [OF st(3), of "\<lambda>x. i64 (x + 1)"] by (simp add: add_ac)
    let ?j = "api_body b (if be_delayMs b > 0 then n else 0) (i64 (be_reqCount b2 + 1)) (rq_Path r)"
    obtain t where t: "json_text (\<lambda>x. None) ?j = Inr t" using json_text_total(1) [of ?j "\<lambda>x. None"] by (auto simp: api_body_def)
    have "api_body b2 (if be_delayMs b2 > 0 then n else 0) (i64 (be_reqCount b2 + 1)) (rq_Path r) = ?j" using st(4) by (simp add: api_body_def)
    then show ?thesis using a st(1) False write_json_conn [OF t] t by (auto simp: apiHandler_def Let_def k)
  qed
qed

text \<open>
  A health check sees the switch. Whatever a freshly started backend has been asked before, when a monitor that expects 200 checks its path \<^verbatim>\<open>/health\<close>, the backend's
  statistics call it healthy exactly when it was switched an even number of times.
\<close>

theorem probe_sees_switch:
  assumes "backend_run redirect rs (backend_main args) = (b, anss)" and "reaches r" and "rq_Path r = ''/health''"
    and "backend_ServeHTTP redirect n r b (ConnW (new_Conn False)) = (b1, Inr (ConnW a))" and "ce_response e = Inr (the (cn_status (conn_finish a)))"
    and "hc_ExpectedStatus (sv_HealthCheck server) = 200"
    and "check e server c bs = (c1, Inr bs1)" and "co_servers c (sv_URL server) = Some s"
  shows "\<exists>s1. co_servers c1 (sv_URL server) = Some s1 \<and> ss_IsHealthy s1 = even (length (filter is_toggle rs))"
proof -
  have f: "be_isFailing b = odd (length (filter is_toggle rs))" using backend_run_state(1) [OF assms(1)] by (simp add: fails_after_def backend_main_def)
  have h: "healthHandler b (ConnW (new_Conn False)) = (b1, Inr (ConnW a))" using assms(2-4) by (auto simp: backend_ServeHTTP_def reaches_def)
  have "the (cn_status (conn_finish a)) = (if be_isFailing b then 500 else 200)"
  proof (cases "be_isFailing b")
    case True
    then show ?thesis using h by (auto simp: healthHandler_def conn_error conn_finish_def conn_implicit_def)
  next
    case False
    let ?j = "JObj [(''name'', JStr (be_serverName b)), (''port'', JInt (be_port b)), (''requests_served'', JInt (be_reqCount b)), (''status'', JStr ''UP'')]"
    obtain t where t: "json_text (\<lambda>x. None) ?j = Inr t" using json_text_total(1) [of ?j "\<lambda>x. None"] by auto
    have "write_json ?j (on_Header (Header_Set ''Content-Type'' ''application/json'') (ConnW (new_Conn False))) = ConnW a"
      using False h unfolding healthHandler_def by auto
    with write_json_conn [OF t] have "cn_status a = Some 200" by (metis Writer.inject(1))
    with False show ?thesis by (simp add: conn_finish_def conn_implicit_def)
  qed
  then have "passes e server = even (length (filter is_toggle rs))" using assms(5,6) f by (simp add: passes_def)
  then show ?thesis using check_stats_same [OF assms(7,8)] by auto
qed

definition demo_get :: "string \<Rightarrow> Request" where
  "demo_get path = Exchange.demo_request\<lparr>rq_Path := path, rq_RequestURI := path\<rparr>"

lemma demo_get_reaches: "reaches (demo_get ''/health'')" "is_toggle (n, demo_get ''/toggle'')" "is_api (n, demo_get ''/x'')"
  by (simp_all add: demo_get_def reaches_def is_toggle_def is_api_def Exchange.demo_request_def cleanPath_def path_Clean_def)

theorem backend_counts_witness:
  "\<exists>b1 anss c. backend_run (\<lambda>p w. Inr w) [(3, demo_get ''/x''), (0, demo_get ''/toggle''), (1, demo_get ''/x'')] (backend_main []) = (b1, anss)
     \<and> anss ! 2 = Inr (ConnW c) \<and> cn_status c = Some 500"
proof -
  let ?rs = "[(3, demo_get ''/x''), (0, demo_get ''/toggle''), (1, demo_get ''/x'')]"
  obtain b1 anss where r: "backend_run (\<lambda>p w. Inr w) ?rs (backend_main []) = (b1, anss)" by (metis surj_pair)
  have "\<not> is_toggle (3, demo_get ''/x'')" by (simp add: is_toggle_def demo_get_def)
  then have "fails_after (be_isFailing (backend_main [])) (take 2 ?rs)" by (simp add: fails_after_def backend_main_def demo_get_reaches numeral_2_eq_2)
  moreover have "rq_Method (demo_get ''/x'') \<noteq> ''HEAD''" by (simp add: demo_get_def Exchange.demo_request_def)
  ultimately show ?thesis using backend_counts [OF r, of 2 1 "demo_get ''/x''"] r demo_get_reaches(3) by auto
qed

theorem probe_sees_switch_witness:
  "\<exists>b anss b1 a c1 bs1 s1. backend_run (\<lambda>p w. Inr w) [(0, demo_get ''/toggle'')] (backend_main []) = (b, anss)
     \<and> backend_ServeHTTP (\<lambda>p w. Inr w) 0 (demo_get ''/health'') b (ConnW (new_Conn False)) = (b1, Inr (ConnW a))
     \<and> check (demo_probe (the (cn_status (conn_finish a)))) demo_monitored (New 0 [''a'', ''b''] [] []) [''a'' \<mapsto> NewBreaker 1 10] = (c1, Inr bs1)
     \<and> co_servers c1 ''a'' = Some s1 \<and> \<not> ss_IsHealthy s1"
proof -
  obtain b anss where r: "backend_run (\<lambda>p w. Inr w) [(0, demo_get ''/toggle'')] (backend_main []) = (b, anss)" by (metis surj_pair)
  then have f: "be_isFailing b" using backend_run_state(1) [OF r] by (simp add: fails_after_def backend_main_def demo_get_reaches)
  obtain b1 a where h: "backend_ServeHTTP (\<lambda>p w. Inr w) 0 (demo_get ''/health'') b (ConnW (new_Conn False)) = (b1, Inr (ConnW a))"
    using f demo_get_reaches(1) by (auto simp: backend_ServeHTTP_def healthHandler_def reaches_def conn_error demo_get_def)
  let ?e = "demo_probe (the (cn_status (conn_finish a)))"
  have url: "sv_URL demo_monitored = ''a''" by (simp add: demo_monitored_def demo_server_def)
  obtain c1 bs1 where k: "check ?e demo_monitored (New 0 [''a'', ''b''] [] []) [''a'' \<mapsto> NewBreaker 1 10] = (c1, Inr bs1)"
    by (cases "passes ?e demo_monitored") (simp_all add: check_cases check_failed_def url Let_def)
  have s: "co_servers (New 0 [''a'', ''b''] [] []) (sv_URL demo_monitored) = Some (new_stats ''a'' ''a'' 1)" by (simp add: url New_def)
  have "rq_Path (demo_get ''/health'') = ''/health''" "ce_response ?e = Inr (the (cn_status (conn_finish a)))" "hc_ExpectedStatus (sv_HealthCheck demo_monitored) = 200"
    by (simp_all add: demo_get_def demo_probe_def demo_monitored_def demo_server_def)
  from probe_sees_switch [OF r demo_get_reaches(1) this(1) h this(2,3) k s] r h k show ?thesis by (auto simp: url demo_get_reaches)
qed

end
