(* ===== verification/Chaos.thy ===== *)
theory Chaos
  imports Backend
begin

text \<open>
  The chaos test, \<^verbatim>\<open>src/client/chaos_mode.go\<close>: workers that send requests and count the failed ones, and a goroutine that switches backends and keeps
  a list of what it believes of them. The backends are those of \<^verbatim>\<open>src/backend/server.go\<close>.
\<close>

section \<open>The workers\<close>

text \<open>\<open>n\<close> is what \<^verbatim>\<open>rand.Intn(4)\<close> gives; \<open>answer\<close> is the status, or the error.\<close>

definition stress_header :: "int \<Rightarrow> Header" where
  "stress_header n = (if n = 0 then Header_Set ''X-Priority'' ''HIGH'' Map.empty else Map.empty)"

definition stress_count :: "string + int \<Rightarrow> int \<times> int \<Rightarrow> int \<times> int" where
  "stress_count answer c =
     (let (sent, bad) = c;
          bad1 = (case answer of Inl err \<Rightarrow> i64 (bad + 1) | Inr status \<Rightarrow> if status \<ge> 500 then i64 (bad + 1) else bad)
      in (i64 (sent + 1), bad1))"

section \<open>The monkey\<close>

definition serverNames :: "string list" where
  "serverNames = [''Alpha'', ''Beta'', ''Gamma'', ''Delta'']"

definition serverURLs :: "string list" where
  "serverURLs = [''http://localhost:8001/toggle'', ''http://localhost:8002/toggle'', ''http://localhost:8003/toggle'', ''http://localhost:8004/toggle'']"

definition monkey_start :: "bool list" where
  "monkey_start = [True, True, True, True]"

text \<open>One turn of the loop with the server \<open>idx\<close>; \<open>err\<close> is the error of \<^verbatim>\<open>http.Get\<close>. The text begins with a monkey in UTF-8.\<close>

definition chaos_turn :: "nat \<Rightarrow> string option \<Rightarrow> bool list \<Rightarrow> bool list \<times> string" where
  "chaos_turn idx err serverStates =
     (let name = serverNames ! idx; monkey = [CHR 0xF0, CHR 0x9F, CHR 0x90, CHR 0x92]
      in case err of
           None \<Rightarrow>
             (let states = serverStates[idx := \<not> serverStates ! idx]; stateStr = (if states ! idx then ''HEALTHY'' else ''FAILING (HTTP 500)'')
              in (states, [CHR 0x0A] @ monkey @ '' [CHAOS] Toggled '' @ name @ '' -> currently '' @ stateStr @ [CHR 0x0A, CHR 0x0A]))
         | Some e \<Rightarrow> (serverStates, monkey @ '' [CHAOS] Failed to toggle '' @ name @ '': '' @ e @ [CHR 0x0A]))"

section \<open>The monkey and its backends\<close>

text \<open>What becomes of a request: it is answered, or it is served and the answer is lost, or it does not arrive.\<close>

datatype delivery = Answered | AnswerLost string | NotReached string

fun delivery_error :: "delivery \<Rightarrow> string option" where
  "delivery_error Answered = None"
| "delivery_error (AnswerLost e) = Some e"
| "delivery_error (NotReached e) = Some e"

fun is_lost :: "delivery \<Rightarrow> bool" where
  "is_lost (AnswerLost e) \<longleftrightarrow> True"
| "is_lost d \<longleftrightarrow> False"

definition toggle_backend :: "delivery \<Rightarrow> nat \<Rightarrow> Backend list \<Rightarrow> Backend list" where
  "toggle_backend d idx bs =
     (case d of NotReached e \<Rightarrow> bs | _ \<Rightarrow> bs[idx := fst (toggleHandler (bs ! idx) (ConnW (new_Conn False)))])"

fun chaos_run :: "(nat \<times> delivery) list \<Rightarrow> bool list \<Rightarrow> Backend list \<Rightarrow> bool list \<times> Backend list" where
  "chaos_run [] states bs = (states, bs)"
| "chaos_run ((idx, d) # ts) states bs = chaos_run ts (fst (chaos_turn idx (delivery_error d) states)) (toggle_backend d idx bs)"

lemma chaos_turn_state:
  "i < length states \<Longrightarrow> fst (chaos_turn idx err states) ! i = (states ! i \<noteq> (idx = i \<and> err = None))"
  "length (fst (chaos_turn idx err states)) = length states"
  by (auto simp: chaos_turn_def Let_def nth_list_update split: option.splits)

lemma toggle_backend_state:
  "i < length bs \<Longrightarrow> be_isFailing (toggle_backend d idx bs ! i) = (be_isFailing (bs ! i) \<noteq> (idx = i \<and> (\<forall>e. d \<noteq> NotReached e)))"
  "length (toggle_backend d idx bs) = length bs"
  by (auto simp: toggle_backend_def toggleHandler_def Let_def nth_list_update split: delivery.splits)

lemma chaos_run_state:
  assumes "chaos_run ts states bs = (states1, bs1)" and "i < length states" and "i < length bs"
  shows "(states1 ! i = (\<not> be_isFailing (bs1 ! i))) = ((states ! i = (\<not> be_isFailing (bs ! i))) = even (length (filter (\<lambda>(idx, d). idx = i \<and> is_lost d) ts)))"
  using assms
proof (induction ts arbitrary: states bs)
  case (Cons t ts)
  obtain idx d where t: "t = (idx, d)" by (cases t)
  let ?s = "fst (chaos_turn idx (delivery_error d) states)" and ?b = "toggle_backend d idx bs"
  have "(?s ! i = (\<not> be_isFailing (?b ! i))) = ((states ! i = (\<not> be_isFailing (bs ! i))) \<noteq> (idx = i \<and> is_lost d))"
    using Cons.prems(2,3) by (cases d) (auto simp: chaos_turn_state toggle_backend_state)
  then show ?case using Cons.IH [of ?s ?b] Cons.prems by (auto simp: t chaos_turn_state(2) toggle_backend_state(2))
qed simp

text \<open>
  The monkey's list is right as long as no answer is lost. After any sequence of turns with four fresh backends, the list says of a server that it is healthy exactly when the server does not
  fail, if and only if an even number of answers from that server was lost.
\<close>

theorem monkey_mirrors_backends:
  assumes "chaos_run ts monkey_start (map backend_main argss) = (states, bs)" and "length argss = 4" and "i < 4"
  shows "(states ! i = (\<not> be_isFailing (bs ! i))) = even (length (filter (\<lambda>(idx, d). idx = i \<and> is_lost d) ts))"
proof -
  have "monkey_start ! i = (\<not> be_isFailing (map backend_main argss ! i))"
    using assms(2,3) by (auto simp: monkey_start_def backend_main_def less_Suc_eq numeral_eq_Suc)
  then show ?thesis using chaos_run_state [OF assms(1), of i] assms(2,3) by (simp add: monkey_start_def)
qed

theorem monkey_mirrors_backends_witness:
  "\<exists>states bs. chaos_run [(2, Answered), (2, AnswerLost ''EOF'')] monkey_start (map backend_main [[], [], [], []]) = (states, bs) \<and> states ! 2 \<noteq> (\<not> be_isFailing (bs ! 2))"
proof -
  obtain states bs where r: "chaos_run [(2, Answered), (2, AnswerLost ''EOF'')] monkey_start (map backend_main [[], [], [], []]) = (states, bs)" by (metis surj_pair)
  from monkey_mirrors_backends [OF r, of 2] r show ?thesis by auto
qed

lemma stress_count_bounds:
  assumes "c = (sent, bad)" and "0 \<le> bad" and "bad \<le> sent" and "sent < 2 ^ 63 - 1"
  shows "0 \<le> snd (stress_count answer c) \<and> snd (stress_count answer c) \<le> fst (stress_count answer c) \<and> fst (stress_count answer c) = sent + 1"
  using assms by (auto simp: stress_count_def Let_def i64_nonneg split: sum.splits)

end
