(* ===== verification/Client.thy ===== *)
theory Client
  imports Metrics Http "HOL-Library.Multiset"
begin

text \<open>
  The tools that come with the load balancer, \<^verbatim>\<open>src/client/loadtest.go\<close>, \<^verbatim>\<open>src/client/failuretest.go\<close> and \<^verbatim>\<open>src/client/dynamic_load.go\<close>: what they send and what
  they make of the answers. The answers and the clock are arguments; the boxes around the numbers of the load test are left out.
\<close>

section \<open>The load test\<close>

record load_result =
  lr_latencyMs :: f64
  lr_status :: int
  lr_server :: string
  lr_priority :: string

definition load_priority :: "int \<Rightarrow> f64 \<Rightarrow> int \<Rightarrow> string" where
  "load_priority requests highPct i = (if fdiv (f64_of_int i) (f64_of_int requests) < highPct then ''HIGH'' else ''LOW'')"

text \<open>What a goroutine appends to the results; \<open>answer\<close> is the status and the header, or the error.\<close>

definition load_outcome :: "string \<Rightarrow> duration \<Rightarrow> string + int \<times> Header \<Rightarrow> load_result" where
  "load_outcome p took answer =
     (let ms = f64_of_int (go_quot took 1000000)
      in case answer of
           Inl err \<Rightarrow> \<lparr>lr_latencyMs = ms, lr_status = 0, lr_server = ''error'', lr_priority = p\<rparr>
         | Inr (status, header) \<Rightarrow>
             \<lparr>lr_latencyMs = ms, lr_status = status, lr_server = Header_Get header ''X-Handled-By'', lr_priority = p\<rparr>)"

record load_counts =
  ln_ok :: int
  ln_lats :: "f64 list"
  ln_dist :: "string \<rightharpoonup> int"
  ln_highOK :: int
  ln_lowOK :: int

definition add_result :: "load_result \<Rightarrow> load_counts \<Rightarrow> load_counts" where
  "add_result r n =
     (if lr_status r = 200
      then let n1 = n\<lparr>ln_ok := ln_ok n + 1, ln_lats := ln_lats n @ [lr_latencyMs r],
                      ln_dist := (ln_dist n)(lr_server r \<mapsto> (case ln_dist n (lr_server r) of None \<Rightarrow> 0 | Some k \<Rightarrow> k) + 1)\<rparr>
           in if lr_priority r = ''HIGH'' then n1\<lparr>ln_highOK := ln_highOK n1 + 1\<rparr> else n1\<lparr>ln_lowOK := ln_lowOK n1 + 1\<rparr>
      else n)"

fun count_results :: "load_result list \<Rightarrow> load_counts \<Rightarrow> load_counts" where
  "count_results [] n = n"
| "count_results (r # rs) n = count_results rs (add_result r n)"

fun sum_latencies :: "f64 list \<Rightarrow> f64 \<Rightarrow> f64" where
  "sum_latencies [] avg = avg"
| "sum_latencies (v # vs) avg = sum_latencies vs (fadd avg v)"

definition load_p95 :: "f64 list \<Rightarrow> f64" where
  "load_p95 lats =
     (let p95idx = nat \<lfloor>fmul (f64_of_int (int (length lats))) (fl (95 / 100))\<rfloor>
      in lats ! (if p95idx \<ge> length lats then length lats - 1 else p95idx))"

record load_summary =
  lu_ok :: int
  lu_throughput :: f64
  lu_success :: f64
  lu_avg :: f64
  lu_p95 :: f64
  lu_highOK :: int
  lu_lowOK :: int
  lu_shares :: "string \<rightharpoonup> int \<times> f64"

definition no_counts :: load_counts where
  "no_counts = \<lparr>ln_ok = 0, ln_lats = [], ln_dist = Map.empty, ln_highOK = 0, ln_lowOK = 0\<rparr>"

definition load_evaluate :: "int \<Rightarrow> duration \<Rightarrow> load_result list \<Rightarrow> load_summary" where
  "load_evaluate requests elapsed results =
     (let n = count_results results no_counts;
          lats = sort (ln_lats n);
          avg = (if length lats > 0 then fdiv (sum_latencies lats 0) (f64_of_int (int (length lats))) else 0);
          p95 = (if length lats > 0 then load_p95 lats else 0)
      in \<lparr>lu_ok = ln_ok n, lu_throughput = fdiv (f64_of_int requests) (duration_Seconds elapsed),
          lu_success = fmul (fdiv (f64_of_int (ln_ok n)) (f64_of_int requests)) 100, lu_avg = avg, lu_p95 = p95,
          lu_highOK = ln_highOK n, lu_lowOK = ln_lowOK n,
          lu_shares = map_option (\<lambda>cnt. (cnt, fmul (fdiv (f64_of_int cnt) (f64_of_int (ln_ok n))) 100)) \<circ> ln_dist n\<rparr>)"

subsection \<open>The numbers do not depend on the order of the answers\<close>

definition served :: "load_result list \<Rightarrow> load_result list" where
  "served rs = filter (\<lambda>r. lr_status r = 200) rs"

definition served_by :: "load_result list \<Rightarrow> (string \<rightharpoonup> int)" where
  "served_by rs s = (let k = length (filter (\<lambda>r. lr_server r = s) (served rs)) in if k = 0 then None else Some (int k))"

lemma count_results_eq:
  "ln_ok (count_results rs n) = ln_ok n + int (length (served rs))"
  "ln_lats (count_results rs n) = ln_lats n @ map lr_latencyMs (served rs)"
  "ln_highOK (count_results rs n) = ln_highOK n + int (length (filter (\<lambda>r. lr_priority r = ''HIGH'') (served rs)))"
  "ln_lowOK (count_results rs n) = ln_lowOK n + int (length (filter (\<lambda>r. lr_priority r \<noteq> ''HIGH'') (served rs)))"
  by (induction rs arbitrary: n) (auto simp: add_result_def served_def Let_def)

lemma count_results_dist:
  "ln_dist (count_results rs n) s =
     (case ln_dist n s of None \<Rightarrow> served_by rs s | Some k \<Rightarrow> Some (k + int (length (filter (\<lambda>r. lr_server r = s) (served rs)))))"
proof (induction rs arbitrary: n)
  case (Cons r rs)
  show ?case
  proof (cases "lr_status r = 200")
    case True
    then show ?thesis unfolding count_results.simps Cons.IH by (auto simp: add_result_def served_def served_by_def Let_def split: option.splits)
  next
    case False
    then have "served (r # rs) = served rs" "add_result r n = n" by (simp_all add: served_def add_result_def)
    then show ?thesis by (cases "ln_dist n s") (simp_all add: Cons.IH served_by_def)
  qed
qed (simp add: served_by_def served_def split: option.splits)

lemma length_filter_mset: "mset xs = mset ys \<Longrightarrow> length (filter P xs) = length (filter P ys)"
  by (metis mset_filter size_mset)

lemma served_mset: "mset rs = mset rs1 \<Longrightarrow> mset (served rs) = mset (served rs1)"
  by (simp add: served_def)

text \<open>
  The load test reports the same numbers in whatever order the answers arrive. Its counts are those of the answers with status 200, split by priority and by server, each counted
  once, and if there is one, the percentile is one of their latencies.
\<close>

theorem load_order_irrelevant:
  assumes "mset rs = mset rs1"
  shows "load_evaluate requests elapsed rs = load_evaluate requests elapsed rs1
     \<and> lu_ok (load_evaluate requests elapsed rs) = int (length (served rs))
     \<and> lu_highOK (load_evaluate requests elapsed rs) + lu_lowOK (load_evaluate requests elapsed rs) = lu_ok (load_evaluate requests elapsed rs)
     \<and> map_option fst \<circ> lu_shares (load_evaluate requests elapsed rs) = served_by rs
     \<and> (served rs \<noteq> [] \<longrightarrow> lu_p95 (load_evaluate requests elapsed rs) \<in> lr_latencyMs ` set (served rs))"
proof (intro conjI impI)
  note ms = served_mset [OF assms]
  have l: "sort (ln_lats (count_results rs no_counts)) = sort (ln_lats (count_results rs1 no_counts))"
    using ms by (simp add: count_results_eq no_counts_def) (metis mset_map properties_for_sort sorted_sort mset_sort)
  have d: "ln_dist (count_results rs no_counts) = ln_dist (count_results rs1 no_counts)"
    using length_filter_mset [OF ms] by (simp add: fun_eq_iff count_results_dist no_counts_def served_by_def)
  have n: "ln_ok (count_results rs no_counts) = ln_ok (count_results rs1 no_counts)"
    "ln_highOK (count_results rs no_counts) = ln_highOK (count_results rs1 no_counts)"
    "ln_lowOK (count_results rs no_counts) = ln_lowOK (count_results rs1 no_counts)"
    using length_filter_mset [OF ms] mset_eq_length [OF ms] by (simp_all add: count_results_eq no_counts_def)
  show "load_evaluate requests elapsed rs = load_evaluate requests elapsed rs1" unfolding load_evaluate_def Let_def l d n ..
  show "lu_ok (load_evaluate requests elapsed rs) = int (length (served rs))" by (simp add: load_evaluate_def Let_def count_results_eq no_counts_def)
  show "lu_highOK (load_evaluate requests elapsed rs) + lu_lowOK (load_evaluate requests elapsed rs) = lu_ok (load_evaluate requests elapsed rs)"
    using sum_length_filter_compl [of "\<lambda>r. lr_priority r = ''HIGH''" "served rs"] by (simp add: load_evaluate_def Let_def count_results_eq no_counts_def flip: of_nat_add)
  show "map_option fst \<circ> lu_shares (load_evaluate requests elapsed rs) = served_by rs"
    by (simp add: load_evaluate_def Let_def fun_eq_iff count_results_dist no_counts_def option.map_comp o_def option.map_ident)
  assume "served rs \<noteq> []"
  then have ne: "sort (map lr_latencyMs (served rs)) \<noteq> []" by (metis length_0_conv length_sort length_map)
  then have "load_p95 (sort (map lr_latencyMs (served rs))) \<in> set (sort (map lr_latencyMs (served rs)))"
    unfolding load_p95_def Let_def by (intro nth_mem) (use \<open>served rs \<noteq> []\<close> in auto)
  then show "lu_p95 (load_evaluate requests elapsed rs) \<in> lr_latencyMs ` set (served rs)"
    using \<open>served rs \<noteq> []\<close> ne by (simp add: load_evaluate_def Let_def count_results_eq no_counts_def)
qed

subsection \<open>The goroutines of the load test\<close>

text \<open>
  The loop of \<^verbatim>\<open>main\<close> and its goroutines, by how many requests were started, how many goroutines wait for their answer, how many have it and still hold their place in the
  channel \<^verbatim>\<open>sem\<close>, and the results so far.
\<close>

record load_state =
  lo_started :: int
  lo_sending :: nat
  lo_leaving :: nat
  lo_results :: "load_result list"

definition load_start :: load_state where
  "load_start = \<lparr>lo_started = 0, lo_sending = 0, lo_leaving = 0, lo_results = []\<rparr>"

inductive load_step :: "int \<Rightarrow> nat \<Rightarrow> load_state \<Rightarrow> load_state \<Rightarrow> bool" for requests concurrency where
  launch: "lo_started s < requests \<Longrightarrow> lo_sending s + lo_leaving s < concurrency
    \<Longrightarrow> load_step requests concurrency s (s\<lparr>lo_started := lo_started s + 1, lo_sending := lo_sending s + 1\<rparr>)"
| answer: "lo_sending s > 0
    \<Longrightarrow> load_step requests concurrency s (s\<lparr>lo_sending := lo_sending s - 1, lo_leaving := lo_leaving s + 1, lo_results := lo_results s @ [r]\<rparr>)"
| leave: "lo_leaving s > 0 \<Longrightarrow> load_step requests concurrency s (s\<lparr>lo_leaving := lo_leaving s - 1\<rparr>)"

text \<open>\<^verbatim>\<open>wg.Wait()\<close> returns when all requests were started and all goroutines are gone.\<close>

definition load_finished :: "int \<Rightarrow> load_state \<Rightarrow> bool" where
  "load_finished requests s \<longleftrightarrow> requests \<le> lo_started s \<and> lo_sending s = 0 \<and> lo_leaving s = 0"

inductive load_reachable :: "int \<Rightarrow> nat \<Rightarrow> load_state \<Rightarrow> bool" for requests concurrency where
  begin_load: "load_reachable requests concurrency load_start"
| next_load: "load_reachable requests concurrency s \<Longrightarrow> load_step requests concurrency s s1 \<Longrightarrow> load_reachable requests concurrency s1"

inductive_cases load_stepE: "load_step requests concurrency s s1"

lemma load_invariant:
  assumes "load_reachable requests concurrency s" and "0 \<le> requests"
  shows "lo_started s = int (lo_sending s + length (lo_results s)) \<and> lo_started s \<le> requests \<and> lo_sending s + lo_leaving s \<le> concurrency"
  using assms(1) by induction (auto simp: load_start_def assms(2) elim!: load_stepE)

text \<open>
  The load test keeps to its limit and waits for every answer. At no time do more goroutines run than the limit allows; when it ends, there is one result for every request; and with a limit above zero it is never stuck
  before, whereas with a limit of zero it cannot even start its first request.
\<close>

theorem load_test_completes:
  assumes "load_reachable requests concurrency s" and "0 < requests"
  shows "lo_sending s + lo_leaving s \<le> concurrency
     \<and> (load_finished requests s \<longrightarrow> int (length (lo_results s)) = requests)
     \<and> (0 < concurrency \<and> \<not> load_finished requests s \<longrightarrow> (\<exists>s1. load_step requests concurrency s s1))
     \<and> (concurrency = 0 \<longrightarrow> \<not> load_finished requests s \<and> \<not> (\<exists>s1. load_step requests concurrency s s1))"
proof (intro conjI impI)
  have i: "lo_started s = int (lo_sending s + length (lo_results s))" "lo_started s \<le> requests" "lo_sending s + lo_leaving s \<le> concurrency"
    using load_invariant [OF assms(1)] assms(2) by simp_all
  show "lo_sending s + lo_leaving s \<le> concurrency" by (rule i(3))
  show "int (length (lo_results s)) = requests" if "load_finished requests s" using that i by (simp add: load_finished_def)
  show "\<exists>s1. load_step requests concurrency s s1" if "0 < concurrency \<and> \<not> load_finished requests s"
  proof (cases "lo_sending s = 0 \<and> lo_leaving s = 0")
    case True
    then show ?thesis using that launch [of s requests concurrency] by (auto simp: load_finished_def)
  next
    case False
    then show ?thesis using answer [of s requests concurrency] leave [of s requests concurrency] by blast
  qed
  assume c: "concurrency = 0"
  have "lo_results s = [] \<and> lo_started s = 0"
    using assms(1) c by induction (auto simp: load_start_def elim!: load_stepE dest: load_invariant [OF _ less_imp_le [OF assms(2)]])
  then show "\<not> load_finished requests s" using assms(2) by (simp add: load_finished_def)
  show "\<not> (\<exists>s1. load_step requests concurrency s s1)" using i(3) c by (auto elim!: load_stepE)
qed

theorem load_test_completes_witness: "\<exists>s. load_reachable 1 1 s \<and> load_finished 1 s \<and> length (lo_results s) = 1"
proof -
  let ?s1 = "load_start\<lparr>lo_started := 1, lo_sending := 1\<rparr>" and ?r = "load_outcome ''LOW'' 5 (Inl ''EOF'')"
  let ?s2 = "?s1\<lparr>lo_sending := 0, lo_leaving := 1, lo_results := [?r]\<rparr>" and ?s3 = "?s1\<lparr>lo_sending := 0, lo_leaving := 0, lo_results := [?r]\<rparr>"
  have "load_step 1 1 load_start ?s1" "load_step 1 1 ?s1 ?s2" "load_step 1 1 ?s2 ?s3"
    using launch [of load_start 1 1] answer [of ?s1 1 1 ?r] leave [of ?s2 1 1] by (simp_all add: load_start_def)
  then have r: "load_reachable 1 1 ?s3" by (meson begin_load next_load)
  have f: "load_finished 1 ?s3" by (simp add: load_finished_def load_start_def)
  from load_test_completes [OF r] f r show ?thesis by auto
qed

section \<open>The failure test\<close>

record failure_state =
  fs_failureDetectedAt :: time
  fs_failureStarted :: bool
  fs_lastStatus :: int

datatype failure_event = FailureDetected nat int time | RecoveryComplete string duration

text \<open>The status and the server of an answer, and the clock after it.\<close>

type_synonym observation = "int \<times> string \<times> time"

definition answer_of :: "string + int \<times> Header \<Rightarrow> int \<times> string" where
  "answer_of answer = (case answer of Inl err \<Rightarrow> (0, []) | Inr (status, header) \<Rightarrow> (status, Header_Get header ''X-Handled-By''))"

text \<open>\<^verbatim>\<open>Duration.Round\<close>: to the nearest multiple, ties away from zero; a result that overflows becomes the largest or smallest duration.\<close>

definition Duration_Round :: "duration \<Rightarrow> duration \<Rightarrow> duration" where
  "Duration_Round d m =
     (if m \<le> 0 then d
      else let r = \<bar>d\<bar> mod m
           in if d < 0
              then (if r + r < m then d + r else let d1 = i64 (d - m + r) in if d1 < d then d1 else - (2 ^ 63))
              else (if r + r < m then d - r else let d1 = i64 (d + m - r) in if d1 > d then d1 else 2 ^ 63 - 1))"

definition failure_step :: "nat \<Rightarrow> observation \<Rightarrow> failure_state \<Rightarrow> failure_state \<times> failure_event list" where
  "failure_step i ob s =
     (let (status, server, now) = ob;
          (s1, e1) = (if status \<noteq> 200 \<and> \<not> fs_failureStarted s
                      then (s\<lparr>fs_failureStarted := True, fs_failureDetectedAt := now\<rparr>, [FailureDetected i status now]) else (s, []));
          (s2, e2) = (if status = 200 \<and> fs_failureStarted s1 \<and> fs_lastStatus s1 \<noteq> 200
                      then (s1\<lparr>fs_failureStarted := False\<rparr>, [RecoveryComplete server (Duration_Round (time_Sub now (fs_failureDetectedAt s1)) 1000000)]) else (s1, []))
      in (s2\<lparr>fs_lastStatus := status\<rparr>, e1 @ e2))"

fun failure_run :: "nat \<Rightarrow> observation list \<Rightarrow> failure_state \<Rightarrow> failure_event list" where
  "failure_run i [] s = []"
| "failure_run i (ob # obs) s = (let (s1, es) = failure_step i ob s in es @ failure_run (Suc i) obs s1)"

definition failure_start :: failure_state where
  "failure_start = \<lparr>fs_failureDetectedAt = 0, fs_failureStarted = False, fs_lastStatus = 0\<rparr>"

subsection \<open>What it reports\<close>

lemma dropWhile_shrinks: "dropWhile P xs = y # ys \<Longrightarrow> length ys < length xs"
  using length_dropWhile_le [of P xs] by simp

text \<open>The outages of a sequence of answers: every longest stretch without status 200, with its first answer and, if it ends, the answer that ends it.\<close>

function outages :: "nat \<Rightarrow> observation list \<Rightarrow> failure_event list" where
  "outages i obs =
     (case dropWhile (\<lambda>ob. fst ob = 200) obs of
        [] \<Rightarrow> []
      | (status, server, t0) # obs1 \<Rightarrow>
          let j = i + length (takeWhile (\<lambda>ob. fst ob = 200) obs)
          in FailureDetected j status t0
             # (case dropWhile (\<lambda>ob. fst ob \<noteq> 200) obs1 of
                  [] \<Rightarrow> []
                | (ok, by, t1) # obs2 \<Rightarrow>
                    RecoveryComplete by (Duration_Round (time_Sub t1 t0) 1000000) # outages (j + Suc (Suc (length (takeWhile (\<lambda>ob. fst ob \<noteq> 200) obs1)))) obs2))"
  by pat_completeness auto
termination
  by (relation "measure (\<lambda>(i, obs). length obs)") (auto dest!: dropWhile_shrinks)

declare outages.simps [simp del]

lemma failure_run_calm:
  assumes "\<not> fs_failureStarted s"
  shows "failure_run i obs s = failure_run (i + length (takeWhile (\<lambda>ob. fst ob = 200) obs)) (dropWhile (\<lambda>ob. fst ob = 200) obs)
     (if takeWhile (\<lambda>ob. fst ob = 200) obs = [] then s else s\<lparr>fs_lastStatus := 200\<rparr>)"
  using assms
proof (induction obs arbitrary: i s)
  case (Cons ob obs)
  obtain st srv now where ob: "ob = (st, srv, now)" by (cases ob)
  show ?case
  proof (cases "st = 200")
    case True
    then show ?thesis using Cons.prems Cons.IH [of "s\<lparr>fs_lastStatus := 200\<rparr>" "Suc i"] by (simp add: ob failure_step_def)
  qed (simp add: ob)
qed simp

lemma failure_run_outage:
  assumes "fs_failureStarted s" and "fs_lastStatus s \<noteq> 200"
  shows "\<exists>s1. fs_failureStarted s1 \<and> fs_lastStatus s1 \<noteq> 200 \<and> fs_failureDetectedAt s1 = fs_failureDetectedAt s
     \<and> failure_run i obs s = failure_run (i + length (takeWhile (\<lambda>ob. fst ob \<noteq> 200) obs)) (dropWhile (\<lambda>ob. fst ob \<noteq> 200) obs) s1"
  using assms
proof (induction obs arbitrary: i s)
  case (Cons ob obs)
  obtain st srv now where ob: "ob = (st, srv, now)" by (cases ob)
  show ?case
  proof (cases "st = 200")
    case False
    then show ?thesis using Cons.prems Cons.IH [of "s\<lparr>fs_lastStatus := st\<rparr>" "Suc i"] by (auto simp: ob failure_step_def)
  qed (use Cons.prems in \<open>auto simp: ob\<close>)
qed auto

text \<open>
  C40. The failure test measures outages. Whatever the answers are, it reports every longest stretch of answers without status 200 once, when the stretch begins, with the number of the
  request; and when the stretch ends, the time from then to the first answer with status 200, rounded to milliseconds.
\<close>

theorem failure_test_measures_outages:
  "\<not> fs_failureStarted s \<Longrightarrow> failure_run i obs s = outages i obs"
proof (induction i obs arbitrary: s rule: outages.induct)
  case (1 i obs)
  show ?case
  proof (cases "dropWhile (\<lambda>ob. fst ob = 200) obs")
    case Nil
    then show ?thesis using failure_run_calm [OF 1(2), of i obs] by (subst outages.simps) (simp only: Nil list.case failure_run.simps)
  next
    case (Cons ob obs1)
    obtain st srv t0 where ob: "ob = (st, srv, t0)" by (cases ob)
    have st: "st \<noteq> 200" using hd_dropWhile [of "\<lambda>ob. fst ob = 200" obs] Cons ob by simp
    let ?j = "i + length (takeWhile (\<lambda>ob. fst ob = 200) obs)"
    let ?s = "(if takeWhile (\<lambda>ob. fst ob = 200) obs = [] then s else s\<lparr>fs_lastStatus := 200\<rparr>)"
    let ?s1 = "?s\<lparr>fs_failureStarted := True, fs_failureDetectedAt := t0, fs_lastStatus := st\<rparr>"
    have "failure_step ?j (st, srv, t0) ?s = (?s1, [FailureDetected ?j st t0])" using st 1(2) by (simp add: failure_step_def)
    then have r: "failure_run i obs s = FailureDetected ?j st t0 # failure_run (Suc ?j) obs1 ?s1"
      using failure_run_calm [OF 1(2), of i obs] Cons ob by simp
    obtain s2 where s2: "fs_failureStarted s2" "fs_lastStatus s2 \<noteq> 200" "fs_failureDetectedAt s2 = t0"
      "failure_run (Suc ?j) obs1 ?s1 = failure_run (Suc ?j + length (takeWhile (\<lambda>ob. fst ob \<noteq> 200) obs1)) (dropWhile (\<lambda>ob. fst ob \<noteq> 200) obs1) s2"
      using failure_run_outage [of ?s1 "Suc ?j" obs1] st by auto
    show ?thesis
    proof (cases "dropWhile (\<lambda>ob. fst ob \<noteq> 200) obs1")
      case Nil
      show ?thesis unfolding r s2(4) Nil
        by (subst outages.simps) (simp only: Nil \<open>dropWhile (\<lambda>ob. fst ob = 200) obs = ob # obs1\<close> ob list.case prod.case Let_def failure_run.simps)
    next
      case (Cons ob2 obs2)
      obtain ok srv2 t1 where ob2: "ob2 = (ok, srv2, t1)" by (cases ob2)
      have ok: "ok = 200" using hd_dropWhile [of "\<lambda>ob. fst ob \<noteq> 200" obs1] Cons ob2 by simp
      have "failure_step k (ok, srv2, t1) s2 = (s2\<lparr>fs_failureStarted := False, fs_lastStatus := 200\<rparr>, [RecoveryComplete srv2 (Duration_Round (time_Sub t1 t0) 1000000)])" for k
        using s2 ok by (simp add: failure_step_def)
      then show ?thesis
        using r s2(4) Cons \<open>dropWhile (\<lambda>ob. fst ob = 200) obs = ob # obs1\<close> ob ob2
          1(1) [OF \<open>dropWhile (\<lambda>ob. fst ob = 200) obs = ob # obs1\<close> ob [symmetric] refl refl Cons ob2 [symmetric] refl, of "s2\<lparr>fs_failureStarted := False, fs_lastStatus := 200\<rparr>"]
        by (subst outages.simps) (simp add: Let_def)
    qed
  qed
qed

theorem failure_test_measures_outages_witness:
  "failure_run 0 [(200, ''a'', 1), (503, [], 2000000), (0, [], 5000000), (200, ''b'', 9600000)] failure_start
   = [FailureDetected 1 503 2000000, RecoveryComplete ''b'' 8000000]"
  using failure_test_measures_outages [of failure_start 0 "[(200, ''a'', 1), (503, [], 2000000), (0, [], 5000000), (200, ''b'', 9600000)]"]
  by (simp add: failure_start_def outages.simps time_Sub_def Duration_Round_def i64_def)

section \<open>The oscillating load\<close>

text \<open>\<open>sinVal\<close> is the value of \<^verbatim>\<open>math.Sin\<close>; the conversion to \<^verbatim>\<open>int\<close> drops the fraction.\<close>

definition truncate :: "f64 \<Rightarrow> int" where
  "truncate x = (if x < 0 then - \<lfloor>- x\<rfloor> else \<lfloor>x\<rfloor>)"

definition dynamic_rps :: "f64 \<Rightarrow> int" where
  "dynamic_rps sinVal = 15 + truncate (fmul sinVal 10)"

text \<open>\<^verbatim>\<open>math.Remainder\<close>, which is exact, and the priority that is meant to be chosen at random by the clock.\<close>

definition Remainder :: "f64 \<Rightarrow> f64 \<Rightarrow> rat" where
  "Remainder x y = x - y * of_int (round_even (x / y))"

definition dynamic_high :: "int \<Rightarrow> bool" where
  "dynamic_high unixNano \<longleftrightarrow> Remainder (f64_of_int unixNano) 4 = 0"

lemma fl_large_int:
  assumes "2 ^ 54 \<le> n"
  shows "\<exists>m. f64_of_int n = 4 * of_int m"
proof -
  let ?x = "of_int n :: rat"
  have x: "(2::rat) ^ 54 \<le> ?x" using assms by (metis of_int_le_iff of_int_numeral of_int_power)
  then have pos: "0 < ?x" by (rule less_le_trans [rotated]) simp
  have "ilog2 ((2::rat) ^ 54) = 54" by (rule ilog2_unique) (simp_all add: power_int_def)
  with ilog2_mono [of "(2::rat) ^ 54" ?x] x have e: "54 \<le> binade ?x" by simp
  define k where "k = nat (binade ?x - 54)"
  have "binade ?x - 52 = int k + 2" using e by (simp add: k_def)
  then have "ulp ?x = 2 powi (int k + 2)" using ulp_binade [OF pos] by (simp add: add.commute)
  also have "\<dots> = 4 * of_int (2 ^ k)" by (simp add: power_int_add)
  finally have "f64_of_int n = of_int (round_even (?x / ulp ?x)) * (4 * of_int (2 ^ k))" using pos by (simp add: f64_of_int_def fl_def)
  then have "f64_of_int n = 4 * of_int (round_even (?x / ulp ?x) * 2 ^ k)" by simp
  then show ?thesis by blast
qed

text \<open>
  The oscillating load keeps its rate between 5 and 25 requests in a second, and all of them have high priority: the clock in nanoseconds, since July 1970, exceeds what a \<^verbatim>\<open>float64\<close> holds
  exactly, so that it is rounded to a multiple of four.
\<close>

theorem dynamic_load_all_high:
  assumes "- 1 \<le> sinVal" and "sinVal \<le> 1" and "2 ^ 54 \<le> unixNano"
  shows "5 \<le> dynamic_rps sinVal \<and> dynamic_rps sinVal \<le> 25 \<and> dynamic_high unixNano"
proof (intro conjI)
  have ten: "fl (10::rat) = 10" "fl (- 10::rat) = - 10" using fl_of_int_exact [of 10] fl_of_int_exact [of "- 10"] by simp_all
  have "fl (- 10) \<le> fmul sinVal 10" "fmul sinVal 10 \<le> fl 10" unfolding fmul_def using assms(1,2) by (intro fl_mono; simp)+
  then have b: "- 10 \<le> fmul sinVal 10" "fmul sinVal 10 \<le> 10" using ten by simp_all
  show "5 \<le> dynamic_rps sinVal" "dynamic_rps sinVal \<le> 25"
    using b by (auto simp: dynamic_rps_def truncate_def floor_le_iff le_floor_iff; linarith)+
  obtain m where "f64_of_int unixNano = 4 * of_int m" using fl_large_int [OF assms(3)] by blast
  then show "dynamic_high unixNano" by (simp add: dynamic_high_def Remainder_def)
qed

theorem dynamic_load_all_high_witness: "dynamic_rps (1 / 2) \<le> 25 \<and> dynamic_high 1700000000000000001"
  using dynamic_load_all_high [of "1 / 2" 1700000000000000001] by simp

end
