(* ===== verification/Diff.thy ===== *)
theory Diff
  imports Config
begin

text \<open>
  The report of what a reload changes, \<^verbatim>\<open>logConfigDiff\<close> in \<^verbatim>\<open>src/cmd/loadbalancer/main.go\<close>: the lines that it logs, in their order. Where it ranges over a map, the order of the
  keys is an argument.
\<close>

section \<open>The report\<close>

text \<open>\<^verbatim>\<open>map[string]config.ServerConfig\<close> of a list of servers: the last one with a URL stays.\<close>

fun url_map :: "ServerConfig list \<Rightarrow> (url \<rightharpoonup> ServerConfig) \<Rightarrow> (url \<rightharpoonup> ServerConfig)" where
  "url_map [] m = m"
| "url_map (srv # srvs) m = url_map srvs (m(sv_URL srv \<mapsto> srv))"

text \<open>The arrow of the messages, in UTF-8.\<close>

definition arrow :: string where
  "arrow = '' '' @ [CHR 0xE2, CHR 0x86, CHR 0x92] @ '' ''"

definition fmt_bool :: "bool \<Rightarrow> string" where
  "fmt_bool b = (if b then ''true'' else ''false'')"

fun new_servers :: "string \<Rightarrow> url list \<Rightarrow> (url \<rightharpoonup> ServerConfig) \<Rightarrow> (url \<rightharpoonup> ServerConfig) \<Rightarrow> string list" where
  "new_servers name [] oldURLs newURLs = []"
| "new_servers name (url # us) oldURLs newURLs =
     (case newURLs url of
        None \<Rightarrow> new_servers name us oldURLs newURLs
      | Some srv \<Rightarrow>
          (case oldURLs url of
             None \<Rightarrow> [''[HOTRELOAD] + Service '' @ dquoted name @ '': added server '' @ sv_Name srv @ '' ('' @ url @ '')'']
           | Some old \<Rightarrow>
               if sv_Weight old \<noteq> sv_Weight srv
               then [''[HOTRELOAD] ~ Service '' @ dquoted name @ '': server '' @ sv_Name srv @ '' weight changed '' @ Itoa (sv_Weight old) @ arrow
                       @ Itoa (sv_Weight srv)]
               else []) @ new_servers name us oldURLs newURLs)"

fun removed_servers :: "string \<Rightarrow> url list \<Rightarrow> (url \<rightharpoonup> ServerConfig) \<Rightarrow> (url \<rightharpoonup> ServerConfig) \<Rightarrow> string list" where
  "removed_servers name [] oldURLs newURLs = []"
| "removed_servers name (url # us) oldURLs newURLs =
     (case oldURLs url of
        None \<Rightarrow> removed_servers name us oldURLs newURLs
      | Some srv \<Rightarrow>
          (if newURLs url = None
           then [''[HOTRELOAD] - Service '' @ dquoted name @ '': removed server '' @ sv_Name srv @ '' ('' @ url @ '')'']
           else []) @ removed_servers name us oldURLs newURLs)"

definition health_diff :: "string \<Rightarrow> ServiceConfig \<Rightarrow> ServiceConfig \<Rightarrow> string list" where
  "health_diff name oldSvc newSvc =
     (case (sc_HealthCheck oldSvc, sc_HealthCheck newSvc) of
        (Some h, Some h1) \<Rightarrow>
          if hc_IntervalSec h \<noteq> hc_IntervalSec h1
          then [''[HOTRELOAD] ~ Service '' @ dquoted name @ '': health interval changed '' @ Itoa (hc_IntervalSec h) @ arrow @ Itoa (hc_IntervalSec h1)]
          else []
      | _ \<Rightarrow> [])"

definition canary_diff :: "string \<Rightarrow> ServiceConfig \<Rightarrow> ServiceConfig \<Rightarrow> string list" where
  "canary_diff name oldSvc newSvc =
     (if sc_Canary oldSvc \<noteq> sc_Canary newSvc
      then [''[HOTRELOAD] ~ Service '' @ dquoted name @ '': canary changed '' @ fmt_bool (sc_Canary oldSvc) @ arrow @ fmt_bool (sc_Canary newSvc)]
      else [])"

text \<open>A service that both configurations have; \<open>us\<close> and \<open>vs\<close> are the orders of the new and of the old URLs.\<close>

definition service_diff :: "string \<Rightarrow> url list \<Rightarrow> url list \<Rightarrow> ServiceConfig \<Rightarrow> ServiceConfig \<Rightarrow> string list" where
  "service_diff name us vs oldSvc newSvc =
     (let oldURLs = url_map (sc_Servers oldSvc) Map.empty; newURLs = url_map (sc_Servers newSvc) Map.empty
      in new_servers name us oldURLs newURLs @ removed_servers name vs oldURLs newURLs
           @ health_diff name oldSvc newSvc @ canary_diff name oldSvc newSvc)"

fun services_diff :: "string list \<Rightarrow> (string \<Rightarrow> url list) \<Rightarrow> (string \<Rightarrow> url list) \<Rightarrow> Config \<Rightarrow> Config \<Rightarrow> string list result" where
  "services_diff [] us vs old new = Inr []"
| "services_diff (name # ks) us vs old new =
     (case cf_Services new name of
        None \<Rightarrow> services_diff ks us vs old new
      | Some newSvc \<Rightarrow>
          (case (case cf_Services old name of
                   None \<Rightarrow>
                     (case newSvc of
                        None \<Rightarrow> Inl (GoPanic ''nil service'')
                      | Some svc \<Rightarrow> Inr [''[HOTRELOAD] + Added service '' @ dquoted name @ '' with '' @ Itoa (int (length (sc_Servers svc))) @ '' servers''])
                 | Some oldSvc \<Rightarrow>
                     (case (oldSvc, newSvc) of
                        (Some o1, Some n1) \<Rightarrow> Inr (service_diff name (us name) (vs name) o1 n1)
                      | _ \<Rightarrow> Inl (GoPanic ''nil service''))) of
             Inl e \<Rightarrow> Inl e
           | Inr ls \<Rightarrow> map_sum id (\<lambda>rest. ls @ rest) (services_diff ks us vs old new)))"

fun removed_services :: "string list \<Rightarrow> Config \<Rightarrow> Config \<Rightarrow> string list" where
  "removed_services [] old new = []"
| "removed_services (name # js) old new =
     (if cf_Services old name \<noteq> None \<and> cf_Services new name = None then [''[HOTRELOAD] - Removed service '' @ dquoted name] else [])
       @ removed_services js old new"

definition logConfigDiff ::
  "string list \<Rightarrow> (string \<Rightarrow> url list) \<Rightarrow> (string \<Rightarrow> url list) \<Rightarrow> string list \<Rightarrow> Config \<Rightarrow> Config \<Rightarrow> string list result" where
  "logConfigDiff ks us vs js old new =
     (case services_diff ks us vs old new of Inl e \<Rightarrow> Inl e | Inr ls \<Rightarrow> Inr (ls @ removed_services js old new))"

section \<open>When nothing is reported\<close>

definition weights :: "ServiceConfig \<Rightarrow> (url \<rightharpoonup> int)" where
  "weights svc u = map_option sv_Weight (url_map (sc_Servers svc) Map.empty u)"

text \<open>Two versions of a service that agree in what the report covers.\<close>

definition same_service :: "ServiceConfig \<Rightarrow> ServiceConfig \<Rightarrow> bool" where
  "same_service o1 n1 \<longleftrightarrow> weights o1 = weights n1 \<and> sc_Canary o1 = sc_Canary n1
     \<and> (\<forall>h h1. sc_HealthCheck o1 = Some h \<and> sc_HealthCheck n1 = Some h1 \<longrightarrow> hc_IntervalSec h = hc_IntervalSec h1)"

lemma new_servers_Nil:
  "new_servers name us O1 N1 = [] \<longleftrightarrow> (\<forall>u \<in> set us. \<forall>srv. N1 u = Some srv \<longrightarrow> (\<exists>old. O1 u = Some old \<and> sv_Weight old = sv_Weight srv))"
  by (induction us) (auto split: option.splits)

lemma removed_servers_Nil: "removed_servers name us O1 N1 = [] \<longleftrightarrow> (\<forall>u \<in> set us. O1 u \<noteq> None \<longrightarrow> N1 u \<noteq> None)"
  by (induction us) (auto split: option.splits)

lemma removed_services_Nil:
  "removed_services js old new = [] \<longleftrightarrow> (\<forall>k \<in> set js. cf_Services old k \<noteq> None \<longrightarrow> cf_Services new k \<noteq> None)"
  by (induction js) auto

lemma service_diff_Nil:
  assumes "range_order (url_map (sc_Servers n1) Map.empty) us" and "range_order (url_map (sc_Servers o1) Map.empty) vs"
  shows "service_diff name us vs o1 n1 = [] \<longleftrightarrow> same_service o1 n1"
proof -
  let ?O = "url_map (sc_Servers o1) Map.empty" and ?N = "url_map (sc_Servers n1) Map.empty"
  have us: "set us = dom ?N" "set vs = dom ?O" using assms by (simp_all add: range_order_def)
  have "new_servers name us ?O ?N = [] \<and> removed_servers name vs ?O ?N = [] \<longleftrightarrow> weights o1 = weights n1"
  proof
    assume a: "new_servers name us ?O ?N = [] \<and> removed_servers name vs ?O ?N = []"
    have n: "\<exists>old. ?O u = Some old \<and> sv_Weight old = sv_Weight srv" if "?N u = Some srv" for u srv
      using a that us(1) unfolding new_servers_Nil by blast
    have r: "?N u \<noteq> None" if "?O u \<noteq> None" for u using a that us(2) unfolding removed_servers_Nil by blast
    show "weights o1 = weights n1"
    proof
      fix u
      show "weights o1 u = weights n1 u"
      proof (cases "?N u")
        case None
        then have "?O u = None" using r [of u] by blast
        with None show ?thesis by (simp add: weights_def)
      next
        case (Some srv)
        then show ?thesis using n [OF Some] by (auto simp: weights_def)
      qed
    qed
  next
    assume w: "weights o1 = weights n1"
    have e: "map_option sv_Weight (?O u) = map_option sv_Weight (?N u)" for u using fun_cong [OF w, of u] by (simp add: weights_def)
    have "\<exists>old. ?O u = Some old \<and> sv_Weight old = sv_Weight srv" if "?N u = Some srv" for u srv
      using e [of u] that by (cases "?O u") simp_all
    moreover have "?N u \<noteq> None" if "?O u \<noteq> None" for u using e [of u] that by (cases "?N u") simp_all
    ultimately show "new_servers name us ?O ?N = [] \<and> removed_servers name vs ?O ?N = []"
      unfolding new_servers_Nil removed_servers_Nil by blast
  qed
  then show ?thesis
    by (auto simp: service_diff_def Let_def same_service_def health_diff_def canary_diff_def split: option.splits)
qed

lemma services_diff_Nil:
  assumes "\<forall>k. cf_Services old k \<noteq> Some None" and "\<forall>k. cf_Services new k \<noteq> Some None"
    and "\<forall>k n1. cf_Services new k = Some (Some n1) \<longrightarrow> range_order (url_map (sc_Servers n1) Map.empty) (us k)"
    and "\<forall>k o1. cf_Services old k = Some (Some o1) \<longrightarrow> range_order (url_map (sc_Servers o1) Map.empty) (vs k)"
  shows "\<exists>ls. services_diff ks us vs old new = Inr ls \<and> (ls = [] \<longleftrightarrow> (\<forall>k \<in> set ks. \<forall>n1. cf_Services new k = Some (Some n1) \<longrightarrow>
     (\<exists>o1. cf_Services old k = Some (Some o1) \<and> same_service o1 n1)))"
proof (induction ks)
  case (Cons k ks)
  then obtain ls where ls: "services_diff ks us vs old new = Inr ls" "ls = [] \<longleftrightarrow> (\<forall>k \<in> set ks. \<forall>n1. cf_Services new k = Some (Some n1) \<longrightarrow>
     (\<exists>o1. cf_Services old k = Some (Some o1) \<and> same_service o1 n1))" by blast
  consider "cf_Services new k = None" | n1 where "cf_Services new k = Some (Some n1)" "cf_Services old k = None"
    | n1 o1 where "cf_Services new k = Some (Some n1)" "cf_Services old k = Some (Some o1)"
    using assms(1,2) by (metis option.exhaust)
  then show ?case
  proof cases
    case 3
    then show ?thesis using ls service_diff_Nil [of n1 "us k" o1 "vs k" k] assms(3,4) by simp
  qed (use ls in simp_all)
qed simp

text \<open>
  The report of a reload is silent exactly when nothing it covers has changed. For two configurations without null services, and whatever the orders of the maps, no line is logged
  if and only if both have the same services, and each has the same backends with the same weights, the same canary setting and, where both have one, the same interval of health checks.
\<close>

theorem diff_silent:
  assumes "\<forall>k. cf_Services old k \<noteq> Some None" and "\<forall>k. cf_Services new k \<noteq> Some None"
    and "\<forall>k n1. cf_Services new k = Some (Some n1) \<longrightarrow> range_order (url_map (sc_Servers n1) Map.empty) (us k)"
    and "\<forall>k o1. cf_Services old k = Some (Some o1) \<longrightarrow> range_order (url_map (sc_Servers o1) Map.empty) (vs k)"
    and "range_order (cf_Services new) ks" and "range_order (cf_Services old) js"
  shows "\<exists>ls. logConfigDiff ks us vs js old new = Inr ls \<and> (ls = [] \<longleftrightarrow> dom (cf_Services new) = dom (cf_Services old)
     \<and> (\<forall>k o1 n1. cf_Services old k = Some (Some o1) \<and> cf_Services new k = Some (Some n1) \<longrightarrow> same_service o1 n1))"
proof -
  obtain ls where ls: "services_diff ks us vs old new = Inr ls"
    "ls = [] \<longleftrightarrow> (\<forall>k \<in> set ks. \<forall>n1. cf_Services new k = Some (Some n1) \<longrightarrow> (\<exists>o1. cf_Services old k = Some (Some o1) \<and> same_service o1 n1))"
    using services_diff_Nil [OF assms(1-4), of ks] by (elim exE conjE)
  have o: "set ks = dom (cf_Services new)" "set js = dom (cf_Services old)" using assms(5,6) by (simp_all add: range_order_def)
  have some: "\<exists>c. cf_Services new k = Some (Some c)" if "k \<in> dom (cf_Services new)" for k
  proof -
    from that obtain p where p: "cf_Services new k = Some p" by blast
    with assms(2) obtain c where "p = Some c" by (cases p) auto
    with p show ?thesis by blast
  qed
  have "ls = [] \<and> removed_services js old new = [] \<longleftrightarrow> dom (cf_Services new) = dom (cf_Services old)
     \<and> (\<forall>k o1 n1. cf_Services old k = Some (Some o1) \<and> cf_Services new k = Some (Some n1) \<longrightarrow> same_service o1 n1)" (is "?L \<longleftrightarrow> ?R")
  proof
    assume l: ?L
    then have n: "\<exists>o1. cf_Services old k = Some (Some o1) \<and> same_service o1 n1" if "cf_Services new k = Some (Some n1)" for k n1
      using that ls(2) o(1) by blast
    have "dom (cf_Services new) = dom (cf_Services old)"
    proof (intro equalityI subsetI)
      show "k \<in> dom (cf_Services old)" if "k \<in> dom (cf_Services new)" for k using some [OF that] n by blast
      show "k \<in> dom (cf_Services new)" if "k \<in> dom (cf_Services old)" for k using l that o(2) unfolding removed_services_Nil by blast
    qed
    with n show ?R by fastforce
  next
    assume r: ?R
    have "\<exists>o1. cf_Services old k = Some (Some o1) \<and> same_service o1 n1" if "cf_Services new k = Some (Some n1)" for k n1
    proof -
      have "k \<in> dom (cf_Services old)" using r that by blast
      then obtain p where p: "cf_Services old k = Some p" by blast
      with assms(1) obtain o1 where "p = Some o1" by (cases p) auto
      with p have "cf_Services old k = Some (Some o1)" by blast
      with r that show ?thesis by blast
    qed
    moreover have "removed_services js old new = []" unfolding removed_services_Nil using r by blast
    ultimately show ?L using ls(2) by blast
  qed
  then show ?thesis using ls(1) by (simp add: logConfigDiff_def)
qed

theorem diff_silent_witness:
  "\<exists>c. Load [] [] [''default''] (Inr demo_config) = Inr c
     \<and> logConfigDiff [''default''] (\<lambda>k. [''http://a'', ''http://b'']) (\<lambda>k. [''http://b'', ''http://a'']) [''default''] c c = Inr []"
proof -
  obtain c where c: "Load [] [] [''default''] (Inr demo_config) = Inr c" "range_order (cf_Services c) [''default'']"
    "service_urls c ''default'' = [''http://a'', ''http://b'']" using demo_load by blast
  have rdy: "config_ready c" using load_ready [OF _ _ c(2) c(1)] by simp
  then have nn: "\<forall>k. cf_Services c k \<noteq> Some None" unfolding config_ready_def by blast
  have dom: "dom (url_map srvs m) = sv_URL ` set srvs \<union> dom m" for srvs m by (induction srvs arbitrary: m) auto
  have s: "sv_URL ` set (sc_Servers svc) = {''http://a'', ''http://b''}" if "cf_Services c k = Some (Some svc)" for k svc
  proof -
    have "k = ''default''" using that c(2) unfolding range_order_def by (metis domI empty_iff insert_iff list.set(1,2))
    then have "map sv_URL (sc_Servers svc) = [''http://a'', ''http://b'']" using that c(3) by (simp add: service_urls_def)
    from arg_cong [OF this, of set] show ?thesis by simp
  qed
  have o: "range_order (url_map (sc_Servers svc) Map.empty) [''http://a'', ''http://b'']" "range_order (url_map (sc_Servers svc) Map.empty) [''http://b'', ''http://a'']"
    if "cf_Services c k = Some (Some svc)" for k svc
    using s [OF that] by (simp_all add: range_order_def dom insert_commute)
  let ?us = "\<lambda>k::string. [''http://a'', ''http://b'']" and ?vs = "\<lambda>k::string. [''http://b'', ''http://a'']"
  have "\<forall>k n1. cf_Services c k = Some (Some n1) \<longrightarrow> range_order (url_map (sc_Servers n1) Map.empty) (?us k)"
    "\<forall>k o1. cf_Services c k = Some (Some o1) \<longrightarrow> range_order (url_map (sc_Servers o1) Map.empty) (?vs k)" using o by simp_all
  from diff_silent [OF nn nn this c(2) c(2)] obtain ls where ls: "logConfigDiff [''default''] ?us ?vs [''default''] c c = Inr ls"
    "ls = [] \<longleftrightarrow> dom (cf_Services c) = dom (cf_Services c)
       \<and> (\<forall>k o1 n1. cf_Services c k = Some (Some o1) \<and> cf_Services c k = Some (Some n1) \<longrightarrow> same_service o1 n1)" by (elim exE conjE)
  have "same_service o1 n1" if "cf_Services c k = Some (Some o1) \<and> cf_Services c k = Some (Some n1)" for k o1 n1
    using that by (auto simp: same_service_def)
  with ls(2) have "ls = []" by blast
  with ls(1) c(1) show ?thesis by blast
qed

end
