(* ===== verification/Banner.thy ===== *)
theory Banner
  imports Diff Terminal
begin

text \<open>
  What \<^verbatim>\<open>main\<close> in \<^verbatim>\<open>src/cmd/loadbalancer/main.go\<close> logs when the entrypoints are started: the lines, without the stamp of package \<^verbatim>\<open>log\<close>. It follows pointers of the
  configuration without a check; that none of them is nil is the work of the defaults.
\<close>

section \<open>The lines\<close>

definition banner_rule :: string where
  "banner_rule = ''[MAIN] '' @ concat (replicate 51 [CHR 0xE2, CHR 0x95, CHR 0x90])"

text \<open>\<^verbatim>\<open>%.0f\<close>, and \<^verbatim>\<open>%v\<close> of a slice of strings.\<close>

definition fixed0 :: "f64 \<Rightarrow> string" where
  "fixed0 x = (if x < 0 then ''-'' else []) @ Itoa (round_even \<bar>x\<bar>)"

definition fmt_strings :: "string list \<Rightarrow> string" where
  "fmt_strings ss = ''['' @ strings_Join ss '' '' @ '']''"

fun count_servers :: "string list \<Rightarrow> Config \<Rightarrow> int \<times> int \<Rightarrow> (int \<times> int) result" where
  "count_servers [] cfg n = Inr n"
| "count_servers (k # ks) cfg n =
     (case cf_Services cfg k of
        None \<Rightarrow> count_servers ks cfg n
      | Some None \<Rightarrow> Inl (GoPanic ''nil service'')
      | Some (Some svc) \<Rightarrow> count_servers ks cfg (fst n + 1, snd n + int (length (sc_Servers svc))))"

fun entrypoint_lines :: "string list \<Rightarrow> Config \<Rightarrow> string list result" where
  "entrypoint_lines [] cfg = Inr []"
| "entrypoint_lines (name # es) cfg =
     (case cf_EntryPoints cfg name of
        None \<Rightarrow> entrypoint_lines es cfg
      | Some None \<Rightarrow> Inl (GoPanic ''nil entrypoint'')
      | Some (Some ep) \<Rightarrow>
          (let tlsStatus = (if ep_TLS ep \<noteq> None then ''enabled'' else ''off'')
           in map_sum id (\<lambda>ls. (''[MAIN]   '' @ pad 12 name @ arrow @ ep_Address ep @ '' (protocol: '' @ ep_Protocol ep @ '', tls: '' @ tlsStatus
                 @ '', middlewares: '' @ fmt_strings (ep_Middlewares ep) @ '')'') # ls) (entrypoint_lines es cfg)))"

definition service_line :: "string \<Rightarrow> ServiceConfig \<Rightarrow> string result" where
  "service_line svcName svc =
     (case (sc_LoadBalancer svc, sc_HealthCheck svc, sc_CircuitBreaker svc) of
        (Some l, Some h, Some b) \<Rightarrow>
          (let serverNames = map sv_Name (sc_Servers svc); algo = (if sc_Canary svc then ''canary'' else lb_Algorithm l)
           in Inr (''[MAIN] Service '' @ pad 12 svcName @ '': algorithm='' @ algo @ '', canary='' @ fmt_bool (sc_Canary svc) @ '', health='' @ hc_Path h @ ''/'' @ Itoa (hc_IntervalSec h)
                @ ''s, breaker='' @ Itoa (cb_Threshold b) @ ''/'' @ Itoa (cb_RecoveryTimeoutSec b) @ ''s, servers='' @ fmt_strings serverNames))
      | _ \<Rightarrow> Inl (GoPanic ''nil pointer''))"

fun service_lines :: "string list \<Rightarrow> Config \<Rightarrow> string list result" where
  "service_lines [] cfg = Inr []"
| "service_lines (name # ks) cfg =
     (case cf_Services cfg name of
        None \<Rightarrow> service_lines ks cfg
      | Some None \<Rightarrow> Inl (GoPanic ''nil service'')
      | Some (Some svc) \<Rightarrow>
          (case service_line name svc of Inl e \<Rightarrow> Inl e | Inr l \<Rightarrow> map_sum id (\<lambda>ls. l # ls) (service_lines ks cfg)))"

text \<open>\<open>ks\<close>, \<open>es\<close> and \<open>ss\<close> are the orders of the three loops.\<close>

definition startup_banner :: "string list \<Rightarrow> string list \<Rightarrow> string list \<Rightarrow> Config \<Rightarrow> string list result" where
  "startup_banner ks es ss cfg =
     (case count_servers ks cfg (0, 0) of
        Inl e \<Rightarrow> Inl e
      | Inr (svcCount, serverCount) \<Rightarrow>
     (case entrypoint_lines es cfg of
        Inl e \<Rightarrow> Inl e
      | Inr eps \<Rightarrow>
     (case service_lines ss cfg of
        Inl e \<Rightarrow> Inl e
      | Inr svcs \<Rightarrow>
          Inr ([banner_rule, ''[MAIN] Intelligent Stateless Load Balancer'', banner_rule,
                ''[MAIN] Algorithm:   '' @ cf_Algorithm cfg,
                ''[MAIN] Services:    '' @ Itoa svcCount @ '' ('' @ Itoa serverCount @ '' total servers), '' @ Itoa (int (card (dom (cf_Routers cfg)))) @ '' routers'',
                ''[MAIN] Rate Limit:  '' @ fixed0 (cf_RateLimitRPS cfg) @ '' rps/IP (burst '' @ Itoa (cf_RateLimitBurst cfg) @ '')'',
                ''[MAIN] Middlewares: '' @ Itoa (int (card (dom (cf_Middlewares cfg)))) @ '' configured'',
                ''[MAIN] Entrypoints:''] @ eps @ svcs
               @ (if cf_HotReload cfg then [''[MAIN] Hot Reload:  ENABLED''] else [])
               @ [''[MAIN] REST API:    /api/metrics, /api/history, /api/health'', banner_rule]))))"

section \<open>It is always printed\<close>

lemma count_servers_sum:
  assumes "\<forall>k. cf_Services cfg k \<noteq> Some None" and "set ks \<subseteq> dom (cf_Services cfg)"
  shows "count_servers ks cfg (a, b) = Inr (a + int (length ks), b + int (length (concat (map (service_urls cfg) ks))))"
  using assms(2)
proof (induction ks arbitrary: a b)
  case (Cons k ks)
  then obtain p where p: "cf_Services cfg k = Some p" by auto
  with assms(1) obtain svc where "p = Some svc" by (cases p) auto
  with p Cons show ?case by (simp add: service_urls_def)
qed simp

lemma entrypoint_lines_total:
  "\<forall>k. cf_EntryPoints cfg k \<noteq> Some None \<Longrightarrow> set es \<subseteq> dom (cf_EntryPoints cfg) \<Longrightarrow> \<exists>ls. entrypoint_lines es cfg = Inr ls \<and> length ls = length es"
proof (induction es)
  case (Cons k es)
  then obtain p where p: "cf_EntryPoints cfg k = Some p" by auto
  with Cons.prems(1) obtain ep where "p = Some ep" by (cases p) auto
  with p Cons show ?case by (auto simp: Let_def)
qed simp

lemma service_lines_total:
  assumes "config_ready cfg" and "set ks \<subseteq> dom (cf_Services cfg)"
  shows "\<exists>ls. service_lines ks cfg = Inr ls \<and> length ls = length ks"
  using assms(2)
proof (induction ks)
  case (Cons k ks)
  then obtain p where p: "cf_Services cfg k = Some p" by auto
  with assms(1) obtain svc where s: "p = Some svc" "service_ready svc" unfolding config_ready_def by blast
  then obtain l where "service_line k svc = Inr l" by (auto simp: service_ready_def service_line_def Let_def split: option.splits)
  with p s Cons show ?case by auto
qed simp

lemma unique_urls_card:
  assumes "range_order (cf_Services cfg) ks" and "urls_unique cfg"
  shows "length (concat (map (service_urls cfg) ks)) = card (\<Union>k \<in> dom (cf_Services cfg). set (service_urls cfg k))"
proof -
  have "distinct (concat (map (service_urls cfg) ks))" using urls_unique_iff [OF assms(1)] assms(2) by simp
  then have "length (concat (map (service_urls cfg) ks)) = card (set (concat (map (service_urls cfg) ks)))" by (simp only: distinct_card)
  moreover have "set (concat (map (service_urls cfg) ks)) = (\<Union>k \<in> dom (cf_Services cfg). set (service_urls cfg k))" using assms(1) by (simp add: range_order_def)
  ultimately show ?thesis by simp
qed

text \<open>
  The banner of a loaded configuration is always printed, in whatever order the maps are visited: no pointer that it follows is nil. It has a line for every entrypoint and every
  service, and it counts the services and the different backends.
\<close>

theorem banner_printed:
  assumes "range_order (cf_Services c0) ks0" and "range_order (cf_EntryPoints c0) es0" and "Load ks0 es0 vs (Inr c0) = Inr cfg" and "range_order (cf_Services cfg) vs"
    and "range_order (cf_Services cfg) ks" and "range_order (cf_EntryPoints cfg) es" and "range_order (cf_Services cfg) ss"
  shows "\<exists>ls. startup_banner ks es ss cfg = Inr ls
     \<and> length ls = 10 + card (dom (cf_EntryPoints cfg)) + card (dom (cf_Services cfg)) + (if cf_HotReload cfg then 1 else 0)
     \<and> ls ! 4 = ''[MAIN] Services:    '' @ Itoa (int (card (dom (cf_Services cfg)))) @ '' (''
          @ Itoa (int (card (\<Union>k \<in> dom (cf_Services cfg). set (service_urls cfg k)))) @ '' total servers), '' @ Itoa (int (card (dom (cf_Routers cfg)))) @ '' routers''"
proof -
  have r: "config_ready cfg" "urls_unique cfg" using load_ready [OF assms(1,2,4,3)] by simp_all
  then have nn: "\<forall>k. cf_Services cfg k \<noteq> Some None" "\<forall>k. cf_EntryPoints cfg k \<noteq> Some None" unfolding config_ready_def by blast+
  have o: "set ks = dom (cf_Services cfg)" "set es = dom (cf_EntryPoints cfg)" "set ss = dom (cf_Services cfg)"
    "length ks = card (dom (cf_Services cfg))" "length es = card (dom (cf_EntryPoints cfg))" "length ss = card (dom (cf_Services cfg))"
    using assms(5-7) by (simp_all add: range_order_def) (metis distinct_card)+
  obtain eps where e: "entrypoint_lines es cfg = Inr eps" "length eps = length es" using entrypoint_lines_total [OF nn(2)] o(2) by blast
  obtain svcs where s: "service_lines ss cfg = Inr svcs" "length svcs = length ss" using service_lines_total [OF r(1)] o(3) by blast
  have c: "count_servers ks cfg (0, 0) = Inr (int (card (dom (cf_Services cfg))), int (card (\<Union>k \<in> dom (cf_Services cfg). set (service_urls cfg k))))"
    using count_servers_sum [OF nn(1), of ks 0 0] o(1,4) unique_urls_card [OF assms(5) r(2)] by simp
  show ?thesis using e s o(5,6) by (simp add: startup_banner_def c)
qed

theorem banner_printed_witness:
  "\<exists>cfg ls. Load [] [] [''default''] (Inr demo_config) = Inr cfg \<and> startup_banner [''default''] [''dashboard'', ''web''] [''default''] cfg = Inr ls \<and> length ls \<ge> 13"
proof -
  obtain cfg p q where c: "Load [] [] [''default''] (Inr demo_config) = Inr cfg" "range_order (cf_Services cfg) [''default'']"
    "cf_EntryPoints cfg = [''web'' \<mapsto> Some p, ''dashboard'' \<mapsto> Some q]" using demo_load by blast
  have e: "range_order (cf_EntryPoints cfg) [''dashboard'', ''web'']" by (simp add: c(3) range_order_def)
  have d: "card (dom (cf_Services cfg)) = 1" "card (dom (cf_EntryPoints cfg)) = 2" using c(2) e unfolding range_order_def by (metis card.empty card_insert_if distinct_card length_Cons list.size(3) One_nat_def Suc_1)+
  from banner_printed [OF _ _ c(1,2) c(2) e c(2)] d c(1) show ?thesis by auto
qed

end
