(* ===== verification/Spec2Isabelle.thy ===== *)
theory Spec2Isabelle
  imports Api Watch Tls ConfigText Chaos Client Banner
begin

text \<open>
  BalanceX is a layer-7 load balancer in Go. This development models its implementation as functions of
  higher-order logic and step relations, and proves what makes the parts and their composition correct.

  \<^bold>\<open>The program.\<close> \<^verbatim>\<open>main\<close> reads a configuration and builds from it a service manager (per service: a metrics
  collector, one circuit breaker for each server, a balancing algorithm, a router over these, a health
  monitor and a proxy handler), a table of routes (a rule, a chain of middlewares and the proxy handler of a service), the
  dashboard's hub and the entrypoints. A request arrives at an entrypoint, passes its middlewares, is matched against the
  table of routes, passes the middlewares of the best route and reaches the proxy handler, which asks the service's
  router for a server and forwards the request. The circuit breaker middleware and the health monitor report to the breakers. When the
  configuration file changes, the watcher calls \<^verbatim>\<open>reload\<close>, which builds a new manager and table of routes, carries the
  metrics over, exchanges them for the old ones, and stops the old monitors. The hub broadcasts snapshots of the metrics.

  \<^bold>\<open>The theories\<close>, from the bottom. Each names in its first text block the source that it models.
  \<^item> Go and its standard library: \<open>Prelude\<close> (64-bit integers that wrap, times, errors and panics, maps with an explicit order of
    iteration), \<open>GoFloat\<close> (\<^verbatim>\<open>float64\<close>), \<open>GoText\<close> (\<^verbatim>\<open>strings\<close>, \<^verbatim>\<open>unicode\<close>), \<open>Http\<close> (requests, headers, contexts), \<open>NetIP\<close> (addresses and
    networks), \<open>Json\<close> and \<open>JsonText\<close> (decoding into Go values, encoding to text).
  \<^item> \<^verbatim>\<open>src/internal/health\<close>: \<open>Breaker\<close> and \<open>Monitor\<close>. \<^verbatim>\<open>src/internal/metrics\<close>: \<open>Metrics\<close> (the collector) and \<open>Terminal\<close>
    (the printed report). \<^verbatim>\<open>src/internal/priority\<close>: \<open>Priority\<close>.
  \<^item> \<^verbatim>\<open>src/internal/balancer\<close>: \<open>Balancer\<close> (round robin, least connections, weighted score), \<open>Canary\<close>, \<open>Drift\<close> (its weights stay bounded while
    the candidates change), and \<open>Dispatch\<close> (the router).
  \<^item> \<^verbatim>\<open>src/internal/router\<close>: \<open>Matcher\<close>, \<open>Rule\<close> (lexer and parser), \<open>RuleText\<close> (printing rules and reading them back), \<open>Routes\<close>.
  \<^item> \<^verbatim>\<open>src/config\<close>: \<open>Config\<close> (structs, defaults, validation), \<open>ConfigJson\<close> and \<open>ConfigText\<close> (its way from and to JSON).
  \<^item> \<^verbatim>\<open>src/internal/service\<close>: \<open>Service\<close> (the manager) and \<open>Reports\<close> (what its operations across services achieve).
  \<^item> \<^verbatim>\<open>src/internal/middleware\<close>, \<^verbatim>\<open>src/internal/logging\<close>, \<^verbatim>\<open>src/internal/proxy\<close>: \<open>Serve\<close> (response writers, the shared world, handlers), \<open>Filters\<close>
    (authentication, CORS, headers, rate limit, timeout), \<open>Proxy\<close>, \<open>Retry\<close> (retry, circuit breaker, access log), \<open>Builder\<close> (middlewares
    by name); their correctness in \<open>Contract\<close>, \<open>Exchange\<close>, \<open>Retrying\<close> and \<open>Gate\<close>.
  \<^item> \<^verbatim>\<open>src/cmd/loadbalancer\<close>, \<^verbatim>\<open>src/internal/entrypoint\<close>, \<^verbatim>\<open>src/internal/dashboard\<close>, \<^verbatim>\<open>src/internal/hotreload\<close>, \<^verbatim>\<open>src/internal/tlsutil\<close>: \<open>App\<close> (the
    application and its reload), \<open>Diff\<close> (the report of a reload), \<open>Banner\<close> (the log of a start), \<open>Dashboard\<close>, \<open>Entry\<close> (entrypoints, start
    and end of \<^verbatim>\<open>main\<close>), \<open>Watch\<close>, \<open>Certs\<close>; their correctness in \<open>Reload\<close>, \<open>Confine\<close>, \<open>System\<close>, \<open>Api\<close> and \<open>Tls\<close>.
  \<^item> The programs around the load balancer: \<open>Backend\<close> (\<^verbatim>\<open>src/backend\<close>), \<open>Client\<close> and \<open>Chaos\<close> (\<^verbatim>\<open>src/client\<close>).

  \<^bold>\<open>State.\<close> A Go struct is a record with the same fields under a prefix, an enumeration a datatype. What goroutines share is the record
  \<open>World\<close>: the service managers, each under the address that it was allocated at, the hub, the rate limiters, the log files, the files on disk, and the requests
  sent to backends. \<open>appState\<close> is what a reload exchanges. What the program gets from outside is the record \<open>Env\<close> of streams, from which every call takes the next
  element: the clock, random numbers, the answers of backends, and the orders in which Go ranges over maps. The theorems hold
  for all of them. A handler is a function from the world, the writer and the request to the world and the result; it can
  panic. Errors and panics are the left side of \<open>result\<close>. Fields that Go shares by pointer have one owner in the model: the collector and the breakers of a service belong
  to its router, and the monitor and the proxy handler reach them through their instance.

  \<^bold>\<open>Interfaces\<close> are locales, interpreted on the model: \<open>selection\<close> and \<open>total_selection\<close> (what the router relies on, for all
  four algorithms and for the choice among them), \<open>send_gate\<close> (a breaker as a gate), \<open>slice_sort\<close> (what \<^verbatim>\<open>sort.Slice\<close> promises), \<open>http_handler\<close> and
  \<open>timely_handler\<close> (what a middleware may assume of the handler behind it), \<open>middleware_invariant\<close> (a property that every middleware keeps holds for each chain
  that the builder makes), and \<open>manager_relation\<close> (what a request can do to the managers).

  \<^bold>\<open>What is shown.\<close>
  \<^item> Breakers: state and counter are a function of the history of calls; an open breaker blocks for exactly its timeout.
  \<^item> Selection: with every algorithm the router returns a server exactly when one is available, and only a healthy, admitted one; round robin is fair, least
    connections is minimal; canary splits a cycle exactly by weight.
  \<^item> Metrics: the counters count calls; entries of reachable collectors are consistent; every exchange
    leaves the active connections as they were, also when it panics; the aggregated snapshot is the sum over the services.
  \<^item> Rules: the parser accepts exactly its grammar, ends always, reads nothing out of bounds, and reads printed rules back; the table returns a best match.
  \<^item> Configuration: what \<^verbatim>\<open>Load\<close> returns is complete, makes a well-formed manager without a nil dereference, and survives JSON.
  \<^item> Middlewares: retry sends at most the configured number of requests and keeps the first success; the timeout bounds all attempts; the breaker middleware reports
    every answer for the chosen server; authentication lets through exactly the credentials; rate limits of addresses are independent.
  \<^item> Reload and watcher: a rejected configuration changes nothing, an accepted one stops the old monitors; the watcher waits for 300 ms without an event.
  \<^item> The whole program: an invariant of all managers in every run from the start on, in any order of requests, reloads, checks, reports and
    broadcasts; requests touch no manager but the current one and that of the start; the history is the window of the last
    120 snapshots; the entrypoints are those of the configuration; TLS listens on files that exist.
  \<^item> The tools: the failure test measures each outage, the workers of the load test end with every result recorded.
  Where the code does not do what its comments promise, a theorem states what it does: the list of failed servers never reaches a later attempt of a retry, and errors of a connection are
  not reported to the breakers.

  \<^bold>\<open>Bounds.\<close> Go's \<^verbatim>\<open>int\<close> is an \<open>int\<close> with the wrap-around of 64 bits written out where arithmetic can leave the range. A \<^verbatim>\<open>float64\<close> is a rational, rounded after
  each operation; infinities and NaN are left out, since the program's values stay far below the overflow threshold. Loops are total functions
  with a termination proof. Only the parser has a bound on the depth of calls, three times the length of the rule plus six, and \<open>parse_fuel_enough\<close> shows that it is never reached.
  Goroutines that loop forever (monitors, the watcher, the broadcast) are step relations. Where the rule parser indexes a string or a list, the model checks the bounds as Go does. The canary algorithm finds a
  candidate while the number of servers times their total weight is at most \<open>2 ^ 29\<close>, far above real weights.

  \<^bold>\<open>Not modelled.\<close>
  \<^item> Third-party packages: \<^verbatim>\<open>x/time/rate\<close> (a rate limiter is an argument), \<^verbatim>\<open>gorilla/websocket\<close> (a connection is a number on which writing may
    fail) and \<^verbatim>\<open>fsnotify\<close> (its events are the labels of steps).
  \<^item> Reading the configuration file and the syntax of JSON: the model starts from the decoded value; writing JSON is modelled to the text.
  \<^item> Inside \<^verbatim>\<open>net/http\<close> and \<^verbatim>\<open>crypto\<close>: listening, TLS handshakes, pooled connections and redirects are part of the environment's answers, a body is copied in one piece,
    and keys and signatures are an argument.
  \<^item> Interleaving inside a request: a request runs from start to end, and so does every other step of the program. The goroutines of monitors, of the watcher and of the load
    test interleave; the locks of the other components are not modelled.
  \<^item> The stamps of package \<^verbatim>\<open>log\<close>, and log lines outside the start and the reload.
  \<^item> Of the test clients: command-line flags, the boxes around the printed numbers, the sine that shapes the load over time, and the interleaving of the chaos test's workers.
\<close>

end
